theory Spec2Isabelle
  imports Complex_Main
begin

section \<open>Data model (types.ts)\<close>

text \<open>
  JavaScript numbers are IEEE 754 binary64 values, and this development embeds them in two
  ways. \<^verbatim>\<open>normalizeMix\<close> and \<^verbatim>\<open>computeIntensity\<close>, whose properties speak of tolerances and
  of rounding, are embedded over the type \<open>double\<close> of this theory: every operation rounds
  to nearest, ties to even, overflows to an infinity, and propagates \<^verbatim>\<open>NaN\<close>. These are
  \<open>normalizeMix64\<close> and \<open>computeIntensity64\<close>, and the properties of the two functions are
  stated of them. The generators and the provider variants, which call \<^verbatim>\<open>Math.sin\<close> and
  \<^verbatim>\<open>Math.random\<close>, are embedded over exact reals, together with an exact reading of the
  two functions they call: for them rounding error, overflow, \<^verbatim>\<open>NaN\<close> and the infinities
  are outside this development. A \<^verbatim>\<open>Date\<close> is its time value, the integer number of
  milliseconds since the epoch.
\<close>

datatype DateRange = R24h | R48h | R7d

type_synonym Date = int

record GenerationMixBreakdown =
  wind :: real
  solar :: real
  hydro :: real
  gas :: real
  coal :: real
  biomass :: real
  imports' :: real

text \<open>\<^verbatim>\<open>Partial<GenerationMixBreakdown>\<close>: every field may be absent.\<close>

record PartialMix =
  p_wind :: "real option"
  p_solar :: "real option"
  p_hydro :: "real option"
  p_gas :: "real option"
  p_coal :: "real option"
  p_biomass :: "real option"
  p_imports :: "real option"

record CarbonIntensityPoint =
  ci_timestamp :: Date
  gramsCO2PerKWh :: int

record GenerationMixPoint =
  gm_timestamp :: Date
  mix :: GenerationMixBreakdown

text \<open>The object both generators return: \<^verbatim>\<open>{ intensity, generation }\<close>.\<close>

record Series =
  intensity :: "CarbonIntensityPoint list"
  generation :: "GenerationMixPoint list"

text \<open>\<^verbatim>\<open>keyof GenerationMixBreakdown\<close>, and the keys of a mix object in insertion order
  (every object literal of the sources lists them in this order).\<close>

datatype key = Wind | Solar | Hydro | Gas | Coal | Biomass | Imports

definition Object_keys :: "key list" where
  "Object_keys = [Wind, Solar, Hydro, Gas, Coal, Biomass, Imports]"

fun get :: "GenerationMixBreakdown \<Rightarrow> key \<Rightarrow> real" where
  "get m Wind = wind m"
| "get m Solar = solar m"
| "get m Hydro = hydro m"
| "get m Gas = gas m"
| "get m Coal = coal m"
| "get m Biomass = biomass m"
| "get m Imports = imports' m"

definition Object_values :: "GenerationMixBreakdown \<Rightarrow> real list" where
  "Object_values m = map (get m) Object_keys"

text \<open>\<^verbatim>\<open>Object.fromEntries(Object.entries(m).map(([k, v]) => [k, f(v)]))\<close>.\<close>

definition mapEntries :: "(real \<Rightarrow> real) \<Rightarrow> GenerationMixBreakdown \<Rightarrow> GenerationMixBreakdown" where
  "mapEntries f m =
     \<lparr>wind = f (wind m), solar = f (solar m), hydro = f (hydro m), gas = f (gas m),
      coal = f (coal m), biomass = f (biomass m), imports' = f (imports' m)\<rparr>"

text \<open>The nullish coalescing operator \<^verbatim>\<open>??\<close>.\<close>

fun nullish :: "real option \<Rightarrow> real \<Rightarrow> real" where
  "nullish None d = d"
| "nullish (Some v) d = v"

text \<open>\<^verbatim>\<open>Math.round\<close>: the nearest integer, a tie going up.\<close>

definition Math_round :: "real \<Rightarrow> int" where
  "Math_round x = \<lfloor>x + 1 / 2\<rfloor>"

section \<open>Normalisation and intensity (data/mock.ts)\<close>

text \<open>
  The exact reading of the helpers of the module: the bodies of the source with numbers as
  exact reals. The generators below call these. The same bodies on doubles, with every
  operation rounded, are \<open>normalizeMix64\<close> and \<open>computeIntensity64\<close> further down, and the
  properties of normalisation and of the intensity are stated of those.
\<close>

fun EMISSION_FACTORS :: "key \<Rightarrow> real" where
  "EMISSION_FACTORS Wind = 12"
| "EMISSION_FACTORS Solar = 50"
| "EMISSION_FACTORS Hydro = 24"
| "EMISSION_FACTORS Gas = 400"
| "EMISSION_FACTORS Coal = 900"
| "EMISSION_FACTORS Biomass = 230"
| "EMISSION_FACTORS Imports = 300"

fun getRangeHours :: "DateRange \<Rightarrow> int" where
  "getRangeHours rng =
     (if rng = R24h then 24 else if rng = R48h then 48 else 24 * 7)"

definition clamp :: "real \<Rightarrow> real \<Rightarrow> real \<Rightarrow> real" where
  "clamp v lo hi = max lo (min hi v)"

definition normalizeMix :: "PartialMix \<Rightarrow> GenerationMixBreakdown" where
  "normalizeMix raw =
     (let base = \<lparr>wind = nullish (p_wind raw) 0,
                  solar = nullish (p_solar raw) 0,
                  hydro = nullish (p_hydro raw) 0,
                  gas = nullish (p_gas raw) 0,
                  coal = nullish (p_coal raw) 0,
                  biomass = nullish (p_biomass raw) 0,
                  imports' = nullish (p_imports raw) 0\<rparr>;
          total = foldl (\<lambda>a b. a + b) 0 (Object_values base)
      in if total \<le> 0
         then \<lparr>wind = 0.3, solar = 0.05, hydro = 0.05, gas = 0.45,
               coal = 0.05, biomass = 0.05, imports' = 0.05\<rparr>
         else mapEntries (\<lambda>v. v / total) base)"

definition computeIntensity :: "GenerationMixBreakdown \<Rightarrow> int" where
  "computeIntensity m =
     Math_round (foldl (\<lambda>total k. total + get m k * EMISSION_FACTORS k) 0 Object_keys)"

section \<open>Normalisation and intensity, second copy (data/eirgrid.ts)\<close>

fun eirgrid_EMISSION_FACTORS :: "key \<Rightarrow> real" where
  "eirgrid_EMISSION_FACTORS Wind = 12"
| "eirgrid_EMISSION_FACTORS Solar = 50"
| "eirgrid_EMISSION_FACTORS Hydro = 24"
| "eirgrid_EMISSION_FACTORS Gas = 400"
| "eirgrid_EMISSION_FACTORS Coal = 900"
| "eirgrid_EMISSION_FACTORS Biomass = 230"
| "eirgrid_EMISSION_FACTORS Imports = 300"

fun eirgrid_getRangeHours :: "DateRange \<Rightarrow> int" where
  "eirgrid_getRangeHours rng =
     (if rng = R24h then 24 else if rng = R48h then 48 else 24 * 7)"

definition eirgrid_normalizeMix :: "PartialMix \<Rightarrow> GenerationMixBreakdown" where
  "eirgrid_normalizeMix raw =
     (let base = \<lparr>wind = nullish (p_wind raw) 0,
                  solar = nullish (p_solar raw) 0,
                  hydro = nullish (p_hydro raw) 0,
                  gas = nullish (p_gas raw) 0,
                  coal = nullish (p_coal raw) 0,
                  biomass = nullish (p_biomass raw) 0,
                  imports' = nullish (p_imports raw) 0\<rparr>;
          total = foldl (\<lambda>a b. a + b) 0 (Object_values base)
      in if total \<le> 0
         then \<lparr>wind = 0.3, solar = 0.05, hydro = 0.05, gas = 0.45,
               coal = 0.05, biomass = 0.05, imports' = 0.05\<rparr>
         else mapEntries (\<lambda>v. v / total) base)"

definition eirgrid_computeIntensity :: "GenerationMixBreakdown \<Rightarrow> int" where
  "eirgrid_computeIntensity m =
     Math_round
       (foldl (\<lambda>total k. total + get m k * eirgrid_EMISSION_FACTORS k) 0 Object_keys)"

section \<open>IEEE 754 binary64 arithmetic\<close>

text \<open>
  A JavaScript number: a finite value, one of the two infinities, or \<^verbatim>\<open>NaN\<close>. The two zeros
  are identified: the functions embedded over this type never divide by a zero and never
  look at its sign. Every finite value an operation returns is a binary64 value, since it
  is the result of \<open>round64\<close>; \<open>isDouble\<close> below says so of an input.
\<close>

datatype double = Finite real | PosInf | NegInf | NaN

text \<open>The integer nearest to \<open>y\<close>, a tie going to the even one.\<close>

definition rne :: "real \<Rightarrow> int" where
  "rne y =
     (let f = \<lfloor>y\<rfloor>
      in if y - of_int f < 1 / 2 then f
         else if 1 / 2 < y - of_int f then f + 1
         else if even f then f else f + 1)"

text \<open>
  The binary exponent of a real, \<open>2^e \<le> |x| < 2^(e+1)\<close>, and the spacing of the binary64
  values around it: 53 significant bits, and the fixed spacing \<open>2^-1074\<close> of the subnormal
  range below \<open>2^-1022\<close>.
\<close>

definition expo :: "real \<Rightarrow> int" where
  "expo x = \<lfloor>log 2 \<bar>x\<bar>\<rfloor>"

definition ulp :: "real \<Rightarrow> real" where
  "ulp x = 2 powr of_int (max (expo x) (- 1022) - 52)"

text \<open>
  Rounding to nearest, ties to even, with an unbounded exponent; and the rounding of the
  format, which overflows to an infinity when the rounded magnitude reaches \<open>2^1024\<close>.
\<close>

definition rnd :: "real \<Rightarrow> real" where
  "rnd x = of_int (rne (x / ulp x)) * ulp x"

definition round64 :: "real \<Rightarrow> double" where
  "round64 x =
     (if 2 ^ 1024 \<le> \<bar>rnd x\<bar> then (if 0 < x then PosInf else NegInf) else Finite (rnd x))"

text \<open>The operators \<^verbatim>\<open>+\<close>, \<^verbatim>\<open>*\<close>, \<^verbatim>\<open>/\<close> and \<^verbatim>\<open><=\<close> on numbers.\<close>

fun add64 :: "double \<Rightarrow> double \<Rightarrow> double" where
  "add64 (Finite a) (Finite b) = round64 (a + b)"
| "add64 NaN y = NaN"
| "add64 x NaN = NaN"
| "add64 PosInf NegInf = NaN"
| "add64 NegInf PosInf = NaN"
| "add64 PosInf y = PosInf"
| "add64 x PosInf = PosInf"
| "add64 NegInf y = NegInf"
| "add64 x NegInf = NegInf"

fun mul64 :: "double \<Rightarrow> double \<Rightarrow> double" where
  "mul64 (Finite a) (Finite b) = round64 (a * b)"
| "mul64 NaN y = NaN"
| "mul64 x NaN = NaN"
| "mul64 PosInf (Finite b) = (if b = 0 then NaN else if 0 < b then PosInf else NegInf)"
| "mul64 NegInf (Finite b) = (if b = 0 then NaN else if 0 < b then NegInf else PosInf)"
| "mul64 (Finite a) PosInf = (if a = 0 then NaN else if 0 < a then PosInf else NegInf)"
| "mul64 (Finite a) NegInf = (if a = 0 then NaN else if 0 < a then NegInf else PosInf)"
| "mul64 PosInf PosInf = PosInf"
| "mul64 NegInf NegInf = PosInf"
| "mul64 PosInf NegInf = NegInf"
| "mul64 NegInf PosInf = NegInf"

fun div64 :: "double \<Rightarrow> double \<Rightarrow> double" where
  "div64 (Finite a) (Finite b) =
     (if b = 0 then (if a = 0 then NaN else if 0 < a then PosInf else NegInf)
      else round64 (a / b))"
| "div64 NaN y = NaN"
| "div64 x NaN = NaN"
| "div64 (Finite a) PosInf = Finite 0"
| "div64 (Finite a) NegInf = Finite 0"
| "div64 PosInf (Finite b) = (if 0 \<le> b then PosInf else NegInf)"
| "div64 NegInf (Finite b) = (if 0 \<le> b then NegInf else PosInf)"
| "div64 PosInf PosInf = NaN"
| "div64 PosInf NegInf = NaN"
| "div64 NegInf PosInf = NaN"
| "div64 NegInf NegInf = NaN"

fun le64 :: "double \<Rightarrow> double \<Rightarrow> bool" where
  "le64 (Finite a) (Finite b) = (a \<le> b)"
| "le64 NaN y = False"
| "le64 x NaN = False"
| "le64 NegInf y = True"
| "le64 x PosInf = True"
| "le64 PosInf y = False"
| "le64 x NegInf = False"

text \<open>\<^verbatim>\<open>Math.round\<close> on a number: the nearest integer, a tie going up; an infinity or
  \<^verbatim>\<open>NaN\<close> is returned as it is.\<close>

fun Math_round64 :: "double \<Rightarrow> double" where
  "Math_round64 (Finite x) = Finite (of_int \<lfloor>x + 1 / 2\<rfloor>)"
| "Math_round64 x = x"

section \<open>Normalisation and intensity on binary64 (data/mock.ts, data/eirgrid.ts)\<close>

text \<open>
  The mix types with numbers for fields, and \<^verbatim>\<open>normalizeMix\<close> and \<^verbatim>\<open>computeIntensity\<close>
  as the machine runs them: every sum, product and quotient is rounded, and a decimal
  literal is the double nearest to it.
\<close>

record GenerationMixBreakdown64 =
  wind64 :: double
  solar64 :: double
  hydro64 :: double
  gas64 :: double
  coal64 :: double
  biomass64 :: double
  imports64 :: double

record PartialMix64 =
  p_wind64 :: "double option"
  p_solar64 :: "double option"
  p_hydro64 :: "double option"
  p_gas64 :: "double option"
  p_coal64 :: "double option"
  p_biomass64 :: "double option"
  p_imports64 :: "double option"

fun get64 :: "GenerationMixBreakdown64 \<Rightarrow> key \<Rightarrow> double" where
  "get64 m Wind = wind64 m"
| "get64 m Solar = solar64 m"
| "get64 m Hydro = hydro64 m"
| "get64 m Gas = gas64 m"
| "get64 m Coal = coal64 m"
| "get64 m Biomass = biomass64 m"
| "get64 m Imports = imports64 m"

definition Object_values64 :: "GenerationMixBreakdown64 \<Rightarrow> double list" where
  "Object_values64 m = map (get64 m) Object_keys"

definition mapEntries64 ::
  "(double \<Rightarrow> double) \<Rightarrow> GenerationMixBreakdown64 \<Rightarrow> GenerationMixBreakdown64" where
  "mapEntries64 f m =
     \<lparr>wind64 = f (wind64 m), solar64 = f (solar64 m), hydro64 = f (hydro64 m),
      gas64 = f (gas64 m), coal64 = f (coal64 m), biomass64 = f (biomass64 m),
      imports64 = f (imports64 m)\<rparr>"

fun nullish64 :: "double option \<Rightarrow> double \<Rightarrow> double" where
  "nullish64 None d = d"
| "nullish64 (Some v) d = v"

fun EMISSION_FACTORS64 :: "key \<Rightarrow> double" where
  "EMISSION_FACTORS64 Wind = Finite 12"
| "EMISSION_FACTORS64 Solar = Finite 50"
| "EMISSION_FACTORS64 Hydro = Finite 24"
| "EMISSION_FACTORS64 Gas = Finite 400"
| "EMISSION_FACTORS64 Coal = Finite 900"
| "EMISSION_FACTORS64 Biomass = Finite 230"
| "EMISSION_FACTORS64 Imports = Finite 300"

definition normalizeMix64 :: "PartialMix64 \<Rightarrow> GenerationMixBreakdown64" where
  "normalizeMix64 raw =
     (let base = \<lparr>wind64 = nullish64 (p_wind64 raw) (Finite 0),
                  solar64 = nullish64 (p_solar64 raw) (Finite 0),
                  hydro64 = nullish64 (p_hydro64 raw) (Finite 0),
                  gas64 = nullish64 (p_gas64 raw) (Finite 0),
                  coal64 = nullish64 (p_coal64 raw) (Finite 0),
                  biomass64 = nullish64 (p_biomass64 raw) (Finite 0),
                  imports64 = nullish64 (p_imports64 raw) (Finite 0)\<rparr>;
          total = foldl (\<lambda>a b. add64 a b) (Finite 0) (Object_values64 base)
      in if le64 total (Finite 0)
         then \<lparr>wind64 = round64 0.3, solar64 = round64 0.05, hydro64 = round64 0.05,
               gas64 = round64 0.45, coal64 = round64 0.05, biomass64 = round64 0.05,
               imports64 = round64 0.05\<rparr>
         else mapEntries64 (\<lambda>v. div64 v total) base)"

definition computeIntensity64 :: "GenerationMixBreakdown64 \<Rightarrow> double" where
  "computeIntensity64 m =
     Math_round64
       (foldl (\<lambda>total k. add64 total (mul64 (get64 m k) (EMISSION_FACTORS64 k)))
          (Finite 0) Object_keys)"

text \<open>The copies of data/eirgrid.ts.\<close>

fun eirgrid_EMISSION_FACTORS64 :: "key \<Rightarrow> double" where
  "eirgrid_EMISSION_FACTORS64 Wind = Finite 12"
| "eirgrid_EMISSION_FACTORS64 Solar = Finite 50"
| "eirgrid_EMISSION_FACTORS64 Hydro = Finite 24"
| "eirgrid_EMISSION_FACTORS64 Gas = Finite 400"
| "eirgrid_EMISSION_FACTORS64 Coal = Finite 900"
| "eirgrid_EMISSION_FACTORS64 Biomass = Finite 230"
| "eirgrid_EMISSION_FACTORS64 Imports = Finite 300"

definition eirgrid_normalizeMix64 :: "PartialMix64 \<Rightarrow> GenerationMixBreakdown64" where
  "eirgrid_normalizeMix64 raw =
     (let base = \<lparr>wind64 = nullish64 (p_wind64 raw) (Finite 0),
                  solar64 = nullish64 (p_solar64 raw) (Finite 0),
                  hydro64 = nullish64 (p_hydro64 raw) (Finite 0),
                  gas64 = nullish64 (p_gas64 raw) (Finite 0),
                  coal64 = nullish64 (p_coal64 raw) (Finite 0),
                  biomass64 = nullish64 (p_biomass64 raw) (Finite 0),
                  imports64 = nullish64 (p_imports64 raw) (Finite 0)\<rparr>;
          total = foldl (\<lambda>a b. add64 a b) (Finite 0) (Object_values64 base)
      in if le64 total (Finite 0)
         then \<lparr>wind64 = round64 0.3, solar64 = round64 0.05, hydro64 = round64 0.05,
               gas64 = round64 0.45, coal64 = round64 0.05, biomass64 = round64 0.05,
               imports64 = round64 0.05\<rparr>
         else mapEntries64 (\<lambda>v. div64 v total) base)"

definition eirgrid_computeIntensity64 :: "GenerationMixBreakdown64 \<Rightarrow> double" where
  "eirgrid_computeIntensity64 m =
     Math_round64
       (foldl (\<lambda>total k. add64 total (mul64 (get64 m k) (eirgrid_EMISSION_FACTORS64 k)))
          (Finite 0) Object_keys)"

section \<open>Dates\<close>

text \<open>
  The two functions of the date-fns library that the generators call: they shift a date's
  time value by whole hours and whole minutes.
\<close>

definition subHours :: "Date \<Rightarrow> int \<Rightarrow> Date" where
  "subHours d amount = d - amount * 3600000"

definition addMinutes :: "Date \<Rightarrow> int \<Rightarrow> Date" where
  "addMinutes d amount = d + amount * 60000"

text \<open>
  \<^verbatim>\<open>getHours\<close> and \<^verbatim>\<open>getMinutes\<close> read the local wall clock. The time zone of the
  runtime is a parameter: \<open>zone t\<close> is the offset of local time from UTC, in minutes, at
  the instant \<open>t\<close>.
\<close>

definition getHours :: "(Date \<Rightarrow> int) \<Rightarrow> Date \<Rightarrow> int" where
  "getHours zone t = ((t + zone t * 60000) div 3600000) mod 24"

definition getMinutes :: "(Date \<Rightarrow> int) \<Rightarrow> Date \<Rightarrow> int" where
  "getMinutes zone t = ((t + zone t * 60000) div 60000) mod 60"

text \<open>
  \<^verbatim>\<open>toISOString\<close> and \<^verbatim>\<open>new Date(string)\<close>: the ISO 8601 text of a date is represented
  by the instant it denotes; parsing it gives that instant back.
\<close>

datatype ISOString = ISO Date

definition toISOString :: "Date \<Rightarrow> ISOString" where
  "toISOString t = ISO t"

fun parseDate :: "ISOString \<Rightarrow> Date" where
  "parseDate (ISO t) = t"

section \<open>The mock generator (data/mock.ts)\<close>

text \<open>The fractional hour of day of a sample, \<^verbatim>\<open>t.getHours() + t.getMinutes() / 60\<close>.\<close>

definition hourOfDay :: "(Date \<Rightarrow> int) \<Rightarrow> Date \<Rightarrow> real" where
  "hourOfDay zone t = real_of_int (getHours zone t) + real_of_int (getMinutes zone t) / 60"

text \<open>The raw mix of sample \<open>i\<close>: the object literal handed to \<^verbatim>\<open>normalizeMix\<close>.\<close>

definition mockRaw :: "real \<Rightarrow> real \<Rightarrow> nat \<Rightarrow> PartialMix" where
  "mockRaw hod points i =
     (let dayFactor = sin ((2 * pi * (hod - 3)) / 24);
          wind = clamp (0.35 + 0.2 * dayFactor) 0.1 0.75;
          solarBase = max 0 (sin ((pi * (hod - 6)) / 12));
          solar = clamp (0.18 * solarBase) 0 0.25;
          hydro = 0.05 + 0.02 * sin ((2 * pi * real i) / (points / 7));
          coal = 0.04 + 0.01 * sin ((2 * pi * real i) / (points / 3));
          biomass = 0.05;
          gas0 = 0.4 + 0.1 * cos ((2 * pi * hod) / 24) - (wind + solar - 0.3);
          gas = clamp gas0 0.05 0.7;
          imports = clamp (1 - (wind + solar + hydro + gas + coal + biomass)) 0.02 0.2
      in \<lparr>p_wind = Some wind, p_solar = Some solar, p_hydro = Some hydro, p_gas = Some gas,
          p_coal = Some coal, p_biomass = Some biomass, p_imports = Some imports\<rparr>)"

text \<open>One pass of the loop body: the two points pushed for sample \<open>i\<close>.\<close>

definition mockSample ::
  "(Date \<Rightarrow> int) \<Rightarrow> Date \<Rightarrow> int \<Rightarrow> real \<Rightarrow> nat \<Rightarrow> CarbonIntensityPoint \<times> GenerationMixPoint" where
  "mockSample zone start stepMinutes points i =
     (let t = addMinutes start (int i * stepMinutes);
          m = normalizeMix (mockRaw (hourOfDay zone t) points i);
          ci = computeIntensity m
      in (\<lparr>ci_timestamp = t, gramsCO2PerKWh = ci\<rparr>, \<lparr>gm_timestamp = t, mix = m\<rparr>))"

definition push :: "CarbonIntensityPoint \<times> GenerationMixPoint \<Rightarrow> Series \<Rightarrow> Series" where
  "push p acc =
     \<lparr>intensity = intensity acc @ [fst p], generation = generation acc @ [snd p]\<rparr>"

function mockLoop ::
  "(Date \<Rightarrow> int) \<Rightarrow> Date \<Rightarrow> int \<Rightarrow> real \<Rightarrow> nat \<Rightarrow> Series \<Rightarrow> Series" where
  "mockLoop zone start stepMinutes points i acc =
     (if real i \<le> points
      then mockLoop zone start stepMinutes points (Suc i)
             (push (mockSample zone start stepMinutes points i) acc)
      else acc)"
  by pat_completeness auto
termination
proof (relation "measure (\<lambda>(zone, start, stepMinutes, points, i, acc). nat (\<lfloor>points\<rfloor> + 1) - i)")
  fix zone :: "Date \<Rightarrow> int" and start stepMinutes :: int and points :: real
    and i :: nat and acc :: Series
  assume "real i \<le> points"
  then have "int i \<le> \<lfloor>points\<rfloor>"
    by (simp add: le_floor_iff)
  then show "((zone, start, stepMinutes, points, Suc i,
                push (mockSample zone start stepMinutes points i) acc),
               (zone, start, stepMinutes, points, i, acc))
      \<in> measure (\<lambda>(zone, start, stepMinutes, points, i, acc). nat (\<lfloor>points\<rfloor> + 1) - i)"
    by simp
qed simp

declare mockLoop.simps [simp del]

text \<open>\<open>now\<close> is the instant \<^verbatim>\<open>new Date()\<close> reads.\<close>

definition generateMockSeries :: "(Date \<Rightarrow> int) \<Rightarrow> Date \<Rightarrow> DateRange \<Rightarrow> Series" where
  "generateMockSeries zone now rng =
     (let hours = getRangeHours rng;
          stepMinutes = (if rng = R7d then 30 else 15);
          points = real_of_int (hours * 60) / real_of_int stepMinutes;
          start = subHours now hours
      in mockLoop zone start stepMinutes points 0 \<lparr>intensity = [], generation = []\<rparr>)"

section \<open>The realistic generator (data/eirgrid.ts)\<close>

record EirGridDataPoint =
  pt_timestamp :: ISOString
  pt_wind :: real
  pt_solar :: real
  pt_hydro :: real
  pt_gas :: real
  pt_coal :: real
  pt_biomass :: real
  pt_imports :: real
  pt_total :: real

definition realisticSample ::
  "(Date \<Rightarrow> int) \<Rightarrow> Date \<Rightarrow> int \<Rightarrow> real \<Rightarrow> nat \<Rightarrow> EirGridDataPoint" where
  "realisticSample zone startDate stepMinutes points i =
     (let timestamp = addMinutes startDate (int i * stepMinutes);
          hod = hourOfDay zone timestamp;
          windBase = 0.4;
          windVariation = sin ((2 * pi * (hod - 2)) / 24) * 0.3;
          wind = max 0.1 (min 0.8 (windBase + windVariation));
          solarBase = max 0 (sin ((pi * (hod - 6)) / 12));
          solar = max 0 (min 0.15 (0.12 * solarBase));
          hydro = 0.08 + 0.03 * sin ((2 * pi * real i) / (points / 7));
          gas0 = 0.35 + 0.1 * cos ((2 * pi * hod) / 24) - (wind + solar - 0.3);
          gas = max 0.05 (min 0.6 gas0);
          coal = 0.02 + 0.01 * sin ((2 * pi * real i) / (points / 3));
          biomass = 0.06;
          imports = max 0.02 (min 0.15 (1 - (wind + solar + hydro + gas + coal + biomass)));
          total = wind + solar + hydro + gas + coal + biomass + imports
      in \<lparr>pt_timestamp = toISOString timestamp, pt_wind = wind, pt_solar = solar,
          pt_hydro = hydro, pt_gas = gas, pt_coal = coal, pt_biomass = biomass,
          pt_imports = imports, pt_total = total\<rparr>)"

function realisticLoop ::
  "(Date \<Rightarrow> int) \<Rightarrow> Date \<Rightarrow> int \<Rightarrow> real \<Rightarrow> nat \<Rightarrow> EirGridDataPoint list \<Rightarrow> EirGridDataPoint list" where
  "realisticLoop zone startDate stepMinutes points i dataPoints =
     (if real i \<le> points
      then realisticLoop zone startDate stepMinutes points (Suc i)
             (dataPoints @ [realisticSample zone startDate stepMinutes points i])
      else dataPoints)"
  by pat_completeness auto
termination
proof (relation "measure (\<lambda>(zone, startDate, stepMinutes, points, i, dataPoints).
        nat (\<lfloor>points\<rfloor> + 1) - i)")
  fix zone :: "Date \<Rightarrow> int" and startDate stepMinutes :: int and points :: real
    and i :: nat and dataPoints :: "EirGridDataPoint list"
  assume "real i \<le> points"
  then have "int i \<le> \<lfloor>points\<rfloor>"
    by (simp add: le_floor_iff)
  then show "((zone, startDate, stepMinutes, points, Suc i,
                dataPoints @ [realisticSample zone startDate stepMinutes points i]),
               (zone, startDate, stepMinutes, points, i, dataPoints))
      \<in> measure (\<lambda>(zone, startDate, stepMinutes, points, i, dataPoints).
            nat (\<lfloor>points\<rfloor> + 1) - i)"
    by simp
qed simp

declare realisticLoop.simps [simp del]

definition generateRealisticIrishData ::
  "(Date \<Rightarrow> int) \<Rightarrow> Date \<Rightarrow> DateRange \<Rightarrow> EirGridDataPoint list" where
  "generateRealisticIrishData zone now rng =
     (let hours = eirgrid_getRangeHours rng;
          endDate = now;
          startDate = subHours endDate hours;
          stepMinutes = (if rng = R7d then 30 else 15);
          points = real_of_int (hours * 60) / real_of_int stepMinutes
      in realisticLoop zone startDate stepMinutes points 0 [])"

text \<open>A rejected promise is the left summand, carrying the error's message.\<close>

datatype Error = Error string

fun message :: "Error \<Rightarrow> string" where
  "message (Error msg) = msg"

definition fetchEirGridData ::
  "(Date \<Rightarrow> int) \<Rightarrow> Date \<Rightarrow> DateRange \<Rightarrow> Error + EirGridDataPoint list" where
  "fetchEirGridData zone now rng =
     (case Inr (generateRealisticIrishData zone now rng) of
        Inl e \<Rightarrow> Inl e
      | Inr v \<Rightarrow> Inr v)"

fun eirgridLoop :: "EirGridDataPoint list \<Rightarrow> Series \<Rightarrow> Series" where
  "eirgridLoop [] acc = acc"
| "eirgridLoop (point # rawData) acc =
     (let timestamp = parseDate (pt_timestamp point);
          m = eirgrid_normalizeMix
                \<lparr>p_wind = Some (pt_wind point), p_solar = Some (pt_solar point),
                 p_hydro = Some (pt_hydro point), p_gas = Some (pt_gas point),
                 p_coal = Some (pt_coal point), p_biomass = Some (pt_biomass point),
                 p_imports = Some (pt_imports point)\<rparr>;
          ci = eirgrid_computeIntensity m
      in eirgridLoop rawData
           (push (\<lparr>ci_timestamp = timestamp, gramsCO2PerKWh = ci\<rparr>,
                  \<lparr>gm_timestamp = timestamp, mix = m\<rparr>) acc))"

definition fetchRealEirGridData ::
  "(Date \<Rightarrow> int) \<Rightarrow> Date \<Rightarrow> DateRange \<Rightarrow> Error + Series" where
  "fetchRealEirGridData zone now rng =
     (case fetchEirGridData zone now rng of
        Inl e \<Rightarrow> Inl (Error ''Failed to generate Irish electricity data'')
      | Inr rawData \<Rightarrow> Inr (eirgridLoop rawData \<lparr>intensity = [], generation = []\<rparr>))"

definition fetchENTSOEData :: "Error + Series" where
  "fetchENTSOEData = Inl (Error ''ENTSO-E integration not yet implemented'')"

section \<open>Provider variants and the data loader (App.tsx)\<close>

datatype Provider = Mock_offline | EirGrid_realtime | ENTSOE_realtime

definition eirgridVariantPoint :: "GenerationMixPoint \<Rightarrow> GenerationMixPoint" where
  "eirgridVariantPoint point =
     (let modifiedMix =
            \<lparr>wind = wind (mix point) * 1.3,
             solar = solar (mix point) * 1.2,
             hydro = hydro (mix point),
             gas = gas (mix point) * 0.9,
             coal = coal (mix point) * 0.5,
             biomass = biomass (mix point),
             imports' = imports' (mix point) * 0.8\<rparr>;
          total = foldl (\<lambda>sum val. sum + val) 0 (Object_values modifiedMix);
          normalizedMix =
            \<lparr>wind = wind modifiedMix / total,
             solar = solar modifiedMix / total,
             hydro = hydro modifiedMix / total,
             gas = gas modifiedMix / total,
             coal = coal modifiedMix / total,
             biomass = biomass modifiedMix / total,
             imports' = imports' modifiedMix / total\<rparr>
      in point\<lparr>mix := normalizedMix\<rparr>)"

definition entsoeVariantPoint :: "GenerationMixPoint \<Rightarrow> GenerationMixPoint" where
  "entsoeVariantPoint point =
     (let modifiedMix =
            \<lparr>wind = wind (mix point) * 1.5,
             solar = solar (mix point) * 1.8,
             hydro = hydro (mix point) * 1.2,
             gas = gas (mix point) * 0.7,
             coal = coal (mix point) * 0.2,
             biomass = biomass (mix point) * 1.3,
             imports' = imports' (mix point) * 0.6\<rparr>;
          total = foldl (\<lambda>sum val. sum + val) 0 (Object_values modifiedMix);
          normalizedMix =
            \<lparr>wind = wind modifiedMix / total,
             solar = solar modifiedMix / total,
             hydro = hydro modifiedMix / total,
             gas = gas modifiedMix / total,
             coal = coal modifiedMix / total,
             biomass = biomass modifiedMix / total,
             imports' = imports' modifiedMix / total\<rparr>
      in point\<lparr>mix := normalizedMix\<rparr>)"

definition generateProviderSpecificData ::
  "(Date \<Rightarrow> int) \<Rightarrow> Date \<Rightarrow> Provider \<Rightarrow> DateRange \<Rightarrow> Series" where
  "generateProviderSpecificData zone now provider dateRange =
     (let baseData = generateMockSeries zone now dateRange
      in if provider = Mock_offline then baseData
         else if provider = EirGrid_realtime then
           \<lparr>intensity =
              map (\<lambda>point. point\<lparr>gramsCO2PerKWh :=
                     Math_round (real_of_int (gramsCO2PerKWh point) * 0.8)\<rparr>)
                (intensity baseData),
            generation = map eirgridVariantPoint (generation baseData)\<rparr>
         else
           \<lparr>intensity =
              map (\<lambda>point. point\<lparr>gramsCO2PerKWh :=
                     Math_round (real_of_int (gramsCO2PerKWh point) * 0.6)\<rparr>)
                (intensity baseData),
            generation = map entsoeVariantPoint (generation baseData)\<rparr>)"

record AppState =
  st_data :: "Series option"
  st_loading :: bool
  st_error :: "string option"

text \<open>The body of the \<^verbatim>\<open>try\<close> block of \<^verbatim>\<open>fetchData\<close>: the result, or the error thrown.\<close>

definition loadResult ::
  "(Date \<Rightarrow> int) \<Rightarrow> Date \<Rightarrow> Provider \<Rightarrow> DateRange \<Rightarrow> Error + Series" where
  "loadResult zone now provider dateRange =
     (if provider = Mock_offline
      then Inr (generateProviderSpecificData zone now provider dateRange)
      else if provider = EirGrid_realtime
      then fetchRealEirGridData zone now dateRange
      else Inl (Error ''ENTSO-E integration requires API key setup''))"

text \<open>
  \<^verbatim>\<open>fetchData\<close> as a state transformer. \<open>now\<close> is the clock reading of the attempt and
  \<open>now'\<close> the later reading of the fallback in the \<^verbatim>\<open>catch\<close> block.
\<close>

definition fetchData ::
  "(Date \<Rightarrow> int) \<Rightarrow> Date \<Rightarrow> Date \<Rightarrow> Provider \<Rightarrow> DateRange \<Rightarrow> AppState \<Rightarrow> AppState" where
  "fetchData zone now now' provider dateRange st =
     (let st1 = st\<lparr>st_loading := True\<rparr>;
          st2 = st1\<lparr>st_error := None\<rparr>;
          st3 = (case loadResult zone now provider dateRange of
                   Inr result \<Rightarrow> st2\<lparr>st_data := Some result\<rparr>
                 | Inl e \<Rightarrow>
                     (let st' = st2\<lparr>st_error := Some (message e)\<rparr>;
                          fallbackData =
                            generateProviderSpecificData zone now' Mock_offline dateRange
                      in st'\<lparr>st_data := Some fallbackData\<rparr>))
      in st3\<lparr>st_loading := False\<rparr>)"

section \<open>Notions used to state the properties\<close>

text \<open>The sum of the seven shares of a mix.\<close>

definition mixTotal :: "GenerationMixBreakdown \<Rightarrow> real" where
  "mixTotal m = wind m + solar m + hydro m + gas m + coal m + biomass m + imports' m"

text \<open>The sum of the seven fields of a raw mix, an absent field counting as 0.\<close>

definition rawTotal :: "PartialMix \<Rightarrow> real" where
  "rawTotal raw =
     nullish (p_wind raw) 0 + nullish (p_solar raw) 0 + nullish (p_hydro raw) 0
       + nullish (p_gas raw) 0 + nullish (p_coal raw) 0 + nullish (p_biomass raw) 0
       + nullish (p_imports raw) 0"

text \<open>No share of a mix is negative.\<close>

definition nonneg :: "GenerationMixBreakdown \<Rightarrow> bool" where
  "nonneg m \<longleftrightarrow>
     0 \<le> wind m \<and> 0 \<le> solar m \<and> 0 \<le> hydro m \<and> 0 \<le> gas m \<and> 0 \<le> coal m
       \<and> 0 \<le> biomass m \<and> 0 \<le> imports' m"


text \<open>A normalized mix: shares that are not negative and sum to 1.\<close>

definition normalized :: "GenerationMixBreakdown \<Rightarrow> bool" where
  "normalized m \<longleftrightarrow> nonneg m \<and> mixTotal m = 1"


text \<open>
  The provider-variant transform with its seven scale factors as a parameter: each share
  times its factor, then every product divided by the sum of the products. The two
  variants of \<^verbatim>\<open>generateProviderSpecificData\<close> are its instances at their factors.
\<close>

definition scaleAndNormalize ::
  "GenerationMixBreakdown \<Rightarrow> GenerationMixBreakdown \<Rightarrow> GenerationMixBreakdown" where
  "scaleAndNormalize f m =
     (let modifiedMix =
            \<lparr>wind = wind m * wind f, solar = solar m * solar f, hydro = hydro m * hydro f,
             gas = gas m * gas f, coal = coal m * coal f, biomass = biomass m * biomass f,
             imports' = imports' m * imports' f\<rparr>;
          total = foldl (\<lambda>sum val. sum + val) 0 (Object_values modifiedMix)
      in mapEntries (\<lambda>v. v / total) modifiedMix)"

definition eirgridFactors :: GenerationMixBreakdown where
  "eirgridFactors =
     \<lparr>wind = 1.3, solar = 1.2, hydro = 1, gas = 0.9, coal = 0.5, biomass = 1, imports' = 0.8\<rparr>"

definition entsoeFactors :: GenerationMixBreakdown where
  "entsoeFactors =
     \<lparr>wind = 1.5, solar = 1.8, hydro = 1.2, gas = 0.7, coal = 0.2, biomass = 1.3,
      imports' = 0.6\<rparr>"

text \<open>The factors that undo \<open>f\<close>.\<close>

definition inverseFactors :: "GenerationMixBreakdown \<Rightarrow> GenerationMixBreakdown" where
  "inverseFactors f = mapEntries (\<lambda>v. 1 / v) f"

definition positive :: "GenerationMixBreakdown \<Rightarrow> bool" where
  "positive f \<longleftrightarrow>
     0 < wind f \<and> 0 < solar f \<and> 0 < hydro f \<and> 0 < gas f \<and> 0 < coal f \<and> 0 < biomass f
       \<and> 0 < imports' f"

text \<open>The number of passes of a generator loop whose bound is \<open>points\<close>.\<close>

definition passes :: "real \<Rightarrow> nat" where
  "passes points = nat (\<lfloor>points\<rfloor> + 1)"

text \<open>
  The range resolution as the specification words it: the total hours of a range, the
  sampling step in minutes, and what it is for a list of timestamps to cover the range
  ending at \<open>now\<close>: one timestamp more than steps fit in the range, neighbours one step
  apart, the first one the total hours before \<open>now\<close> and the last one \<open>now\<close>.
\<close>

definition totalHours :: "DateRange \<Rightarrow> int" where
  "totalHours rng = (case rng of R24h \<Rightarrow> 24 | R48h \<Rightarrow> 48 | R7d \<Rightarrow> 168)"

definition stepMinutes :: "DateRange \<Rightarrow> int" where
  "stepMinutes rng = (if totalHours rng = 168 then 30 else 15)"

definition covers :: "Date \<Rightarrow> DateRange \<Rightarrow> Date list \<Rightarrow> bool" where
  "covers now rng ts \<longleftrightarrow>
     real (length ts) = real_of_int (totalHours rng * 60) / real_of_int (stepMinutes rng) + 1
     \<and> (\<forall>i. Suc i < length ts \<longrightarrow> ts ! Suc i - ts ! i = stepMinutes rng * 60000)
     \<and> ts ! 0 = now - totalHours rng * 3600000
     \<and> ts ! (length ts - 1) = now
     \<and> ts ! (length ts - 1) - ts ! 0 = totalHours rng * 3600000"

text \<open>The timestamps a generator is to produce for a range ending at \<open>now\<close>.\<close>

definition sampleTimes :: "Date \<Rightarrow> DateRange \<Rightarrow> Date list" where
  "sampleTimes now rng =
     map (\<lambda>i. addMinutes (subHours now (totalHours rng)) (int i * stepMinutes rng))
       [0..<nat (totalHours rng * 60 div stepMinutes rng) + 1]"

text \<open>
  The normalized mix of the first sample of the mock generator when that sample falls on
  03:00 (index 0, hour of day 3).
\<close>

definition mixAtThree :: GenerationMixBreakdown where
  "mixAtThree =
     \<lparr>wind = 0.35, solar = 0, hydro = 0.05, gas = 0.35 + sqrt 2 / 20, coal = 0.04,
      biomass = 0.05, imports' = 0.16 - sqrt 2 / 20\<rparr>"

text \<open>
  The notions for the functions on doubles. A real is a double when rounding leaves it
  as it is and it is below the overflow threshold; a number is finite and not negative.
\<close>

definition isDouble :: "real \<Rightarrow> bool" where
  "isDouble x \<longleftrightarrow> rnd x = x \<and> \<bar>x\<bar> < 2 ^ 1024"

definition finiteNonneg :: "double \<Rightarrow> bool" where
  "finiteNonneg d = (case d of Finite v \<Rightarrow> isDouble v \<and> 0 \<le> v | _ \<Rightarrow> False)"

text \<open>The real a number stands for; 0 for an infinity and for \<^verbatim>\<open>NaN\<close>.\<close>

fun valueOf :: "double \<Rightarrow> real" where
  "valueOf (Finite v) = v"
| "valueOf x = 0"

text \<open>
  The seven fields of a raw mix, an absent field counting as 0; the total the machine
  accumulates from them, left to right from 0; their exact sum; and a raw mix whose
  fields are all finite and not negative.
\<close>

definition fields64 :: "PartialMix64 \<Rightarrow> double list" where
  "fields64 raw =
     [nullish64 (p_wind64 raw) (Finite 0), nullish64 (p_solar64 raw) (Finite 0),
      nullish64 (p_hydro64 raw) (Finite 0), nullish64 (p_gas64 raw) (Finite 0),
      nullish64 (p_coal64 raw) (Finite 0), nullish64 (p_biomass64 raw) (Finite 0),
      nullish64 (p_imports64 raw) (Finite 0)]"

definition rawTotal64 :: "PartialMix64 \<Rightarrow> double" where
  "rawTotal64 raw = foldl add64 (Finite 0) (fields64 raw)"

definition exactTotal64 :: "PartialMix64 \<Rightarrow> real" where
  "exactTotal64 raw = sum_list (map valueOf (fields64 raw))"

definition rawNonneg64 :: "PartialMix64 \<Rightarrow> bool" where
  "rawNonneg64 raw = list_all finiteNonneg (fields64 raw)"

text \<open>
  The seven shares of a mix; their exact sum; the sum the machine accumulates from them;
  a mix whose shares are all finite and not negative; and a mix whose shares sum to 1
  within \<open>1e-9\<close>, in both senses.
\<close>

definition mixValues64 :: "GenerationMixBreakdown64 \<Rightarrow> double list" where
  "mixValues64 m = [wind64 m, solar64 m, hydro64 m, gas64 m, coal64 m, biomass64 m, imports64 m]"

definition mixTotal64 :: "GenerationMixBreakdown64 \<Rightarrow> real" where
  "mixTotal64 m = sum_list (map valueOf (mixValues64 m))"

definition accTotal64 :: "GenerationMixBreakdown64 \<Rightarrow> double" where
  "accTotal64 m = foldl add64 (Finite 0) (mixValues64 m)"

definition populated64 :: "GenerationMixBreakdown64 \<Rightarrow> bool" where
  "populated64 m = list_all finiteNonneg (mixValues64 m)"

definition withinTolerance :: "double \<Rightarrow> bool" where
  "withinTolerance d = (case d of Finite s \<Rightarrow> \<bar>s - 1\<bar> \<le> 1 / 10 ^ 9 | _ \<Rightarrow> False)"

definition unitSum64 :: "GenerationMixBreakdown64 \<Rightarrow> bool" where
  "unitSum64 m \<longleftrightarrow> \<bar>mixTotal64 m - 1\<bar> \<le> 1 / 10 ^ 9 \<and> withinTolerance (accTotal64 m)"

text \<open>A normalized mix of doubles: shares that are finite, not negative, and sum to 1
  within \<open>1e-9\<close>.\<close>

definition normalized64 :: "GenerationMixBreakdown64 \<Rightarrow> bool" where
  "normalized64 m \<longleftrightarrow> populated64 m \<and> \<bar>mixTotal64 m - 1\<bar> \<le> 1 / 10 ^ 9"

text \<open>The fallback distribution, as the literal of \<^verbatim>\<open>normalizeMix\<close> writes it.\<close>

definition fallbackMix64 :: GenerationMixBreakdown64 where
  "fallbackMix64 =
     \<lparr>wind64 = round64 0.3, solar64 = round64 0.05, hydro64 = round64 0.05,
      gas64 = round64 0.45, coal64 = round64 0.05, biomass64 = round64 0.05,
      imports64 = round64 0.05\<rparr>"

text \<open>
  The total the intensity calculator holds when its loop ends, and the exact weighted sum
  of the shares.
\<close>

definition weighted64 :: "GenerationMixBreakdown64 \<Rightarrow> double" where
  "weighted64 m =
     foldl (\<lambda>total k. add64 total (mul64 (get64 m k) (EMISSION_FACTORS64 k)))
       (Finite 0) Object_keys"

definition exactWeighted64 :: "GenerationMixBreakdown64 \<Rightarrow> real" where
  "exactWeighted64 m =
     sum_list (map (\<lambda>k. valueOf (get64 m k) * valueOf (EMISSION_FACTORS64 k)) Object_keys)"

text \<open>
  The unit roundoff of the format, and the reals that are an integer multiple of the
  smallest positive double.
\<close>

definition u53 :: real where
  "u53 = 1 / 2 ^ 53"

definition onGrid :: "real \<Rightarrow> bool" where
  "onGrid x \<longleftrightarrow> (\<exists>m :: int. x = of_int m * 2 powr (- 1074))"



text \<open>
  Raw mixes on which double arithmetic shows: two fields whose sum overflows; fields of
  both signs whose accumulated total loses a unit; fields whose exact sum is 1 and whose
  accumulated total is 0; fields whose exact sum is negative and whose accumulated total
  is positive.
\<close>

definition overflowMix :: PartialMix64 where
  "overflowMix = \<lparr>p_wind64 = Some (Finite (2 ^ 1023)), p_solar64 = None, p_hydro64 = None,
     p_gas64 = Some (Finite (2 ^ 1023)), p_coal64 = None, p_biomass64 = None,
     p_imports64 = None\<rparr>"

definition lostUnitMix :: PartialMix64 where
  "lostUnitMix = \<lparr>p_wind64 = Some (Finite (2 ^ 53)), p_solar64 = Some (Finite 1),
     p_hydro64 = Some (Finite (- (2 ^ 53))), p_gas64 = Some (Finite 1), p_coal64 = None,
     p_biomass64 = None, p_imports64 = None\<rparr>"



text \<open>
  A normalized mix whose two rounded products add up to a tie: wind and gas are doubles
  that sum to exactly 1.
\<close>

definition tieMix :: GenerationMixBreakdown64 where
  "tieMix = \<lparr>wind64 = Finite (8717018866379491 / 2 ^ 53), solar64 = Finite 0,
     hydro64 = Finite 0, gas64 = Finite (290180388361501 / 2 ^ 53), coal64 = Finite 0,
     biomass64 = Finite 0, imports64 = Finite 0\<rparr>"

text \<open>Ordinary inputs: three raw mixes and a normalized mix.\<close>

definition sampleRaw64 :: PartialMix64 where
  "sampleRaw64 = \<lparr>p_wind64 = Some (Finite 2), p_solar64 = None, p_hydro64 = Some (Finite 1),
     p_gas64 = Some (Finite 5), p_coal64 = Some (Finite 0), p_biomass64 = None,
     p_imports64 = Some (Finite 2)\<rparr>"

definition negativeRaw64 :: PartialMix64 where
  "negativeRaw64 = \<lparr>p_wind64 = Some (Finite (- 1)), p_solar64 = None,
     p_hydro64 = Some (Finite (1 / 2)), p_gas64 = None, p_coal64 = None, p_biomass64 = None,
     p_imports64 = None\<rparr>"


definition sampleMix64 :: GenerationMixBreakdown64 where
  "sampleMix64 = \<lparr>wind64 = Finite (1 / 2), solar64 = Finite 0, hydro64 = Finite 0,
     gas64 = Finite (1 / 4), coal64 = Finite (1 / 4), biomass64 = Finite 0,
     imports64 = Finite 0\<rparr>"

section \<open>Normalisation and intensity: properties\<close>

text \<open>
  The lemmas of this section are about the exact reading of \<^verbatim>\<open>normalizeMix\<close> and
  \<^verbatim>\<open>computeIntensity\<close> that the generators call. The properties of the two functions on
  doubles are in the last sections.
\<close>

lemma foldl_values:
  "foldl (\<lambda>a b. a + b) 0 (Object_values m) = mixTotal m"
  by (simp add: Object_values_def Object_keys_def mixTotal_def)

lemma weighted_sum:
  "foldl (\<lambda>total k. total + get m k * EMISSION_FACTORS k) 0 Object_keys =
     wind m * 12 + solar m * 50 + hydro m * 24 + gas m * 400 + coal m * 900
       + biomass m * 230 + imports' m * 300"
  by (simp add: Object_keys_def)


lemma normalizeMix_divide:
  "0 < rawTotal raw \<Longrightarrow> normalizeMix raw =
     \<lparr>wind = nullish (p_wind raw) 0 / rawTotal raw,
      solar = nullish (p_solar raw) 0 / rawTotal raw,
      hydro = nullish (p_hydro raw) 0 / rawTotal raw,
      gas = nullish (p_gas raw) 0 / rawTotal raw,
      coal = nullish (p_coal raw) 0 / rawTotal raw,
      biomass = nullish (p_biomass raw) 0 / rawTotal raw,
      imports' = nullish (p_imports raw) 0 / rawTotal raw\<rparr>"
  by (simp add: normalizeMix_def Let_def foldl_values rawTotal_def mapEntries_def mixTotal_def)





lemma eirgrid_EMISSION_FACTORS_eq: "eirgrid_EMISSION_FACTORS k = EMISSION_FACTORS k"
  by (cases k) simp_all

lemma eirgrid_normalizeMix_eq: "eirgrid_normalizeMix raw = normalizeMix raw"
  by (simp add: normalizeMix_def eirgrid_normalizeMix_def)

lemma eirgrid_computeIntensity_eq: "eirgrid_computeIntensity m = computeIntensity m"
  by (simp add: computeIntensity_def eirgrid_computeIntensity_def eirgrid_EMISSION_FACTORS_eq)

text \<open>
  Claim C9. The two copies agree on every input: \<^verbatim>\<open>normalizeMix\<close> of the mock module and
  of the eirgrid module return the same mix for every raw mix, \<^verbatim>\<open>computeIntensity\<close> of
  both return the same integer for every mix, and the two emission factor tables are the
  same.
\<close>

theorem copies_agree:
  "normalizeMix raw = eirgrid_normalizeMix raw
   \<and> computeIntensity m = eirgrid_computeIntensity m
   \<and> EMISSION_FACTORS k = eirgrid_EMISSION_FACTORS k"
  by (simp add: eirgrid_normalizeMix_eq eirgrid_computeIntensity_eq eirgrid_EMISSION_FACTORS_eq)

text \<open>
  Claim C7. The ENTSO-E entry point fails at once with the error "ENTSO-E integration not
  yet implemented" and returns no series. The loader of the application, asked for the
  third provider, fails as well before any point is produced, with an error of its own.
\<close>

theorem fetchENTSOEData_fails:
  "fetchENTSOEData = Inl (Error ''ENTSO-E integration not yet implemented'')
   \<and> (\<forall>s. fetchENTSOEData \<noteq> Inr s)
   \<and> loadResult zone now ENTSOE_realtime dateRange
       = Inl (Error ''ENTSO-E integration requires API key setup'')"
  by (simp add: fetchENTSOEData_def loadResult_def)

text \<open>
  What the application does with that failure: it records the error's message, falls back
  to the mock series for the same range, and stops loading.
\<close>

lemma fetchData_unsupported:
  "st_error (fetchData zone now now' ENTSOE_realtime dateRange st)
     = Some ''ENTSO-E integration requires API key setup''
   \<and> st_data (fetchData zone now now' ENTSOE_realtime dateRange st)
     = Some (generateMockSeries zone now' dateRange)
   \<and> st_loading (fetchData zone now now' ENTSOE_realtime dateRange st) = False"
  by (simp add: fetchData_def loadResult_def generateProviderSpecificData_def Let_def)

section \<open>Provider variants: the transform\<close>

lemma scaled_total_pos:
  assumes "normalized m" and "positive f"
  shows "0 < wind m * wind f + solar m * solar f + hydro m * hydro f + gas m * gas f
           + coal m * coal f + biomass m * biomass f + imports' m * imports' f"
proof -
  have nn: "0 \<le> wind m * wind f" "0 \<le> solar m * solar f" "0 \<le> hydro m * hydro f"
    "0 \<le> gas m * gas f" "0 \<le> coal m * coal f" "0 \<le> biomass m * biomass f"
    "0 \<le> imports' m * imports' f"
    using assms by (simp_all add: normalized_def nonneg_def positive_def)
  have "wind m + solar m + hydro m + gas m + coal m + biomass m + imports' m = 1"
    using assms(1) by (simp add: normalized_def mixTotal_def)
  then have "0 < wind m \<or> 0 < solar m \<or> 0 < hydro m \<or> 0 < gas m \<or> 0 < coal m
      \<or> 0 < biomass m \<or> 0 < imports' m"
    by linarith
  then have "0 < wind m * wind f \<or> 0 < solar m * solar f \<or> 0 < hydro m * hydro f
      \<or> 0 < gas m * gas f \<or> 0 < coal m * coal f \<or> 0 < biomass m * biomass f
      \<or> 0 < imports' m * imports' f"
    using assms(2) by (auto simp: positive_def)
  with nn show ?thesis by linarith
qed



lemma eirgridVariantPoint_mix:
  "mix (eirgridVariantPoint point) = scaleAndNormalize eirgridFactors (mix point)"
  by (simp add: eirgridVariantPoint_def scaleAndNormalize_def Let_def eirgridFactors_def
      mapEntries_def)

lemma entsoeVariantPoint_mix:
  "mix (entsoeVariantPoint point) = scaleAndNormalize entsoeFactors (mix point)"
  by (simp add: entsoeVariantPoint_def scaleAndNormalize_def Let_def entsoeFactors_def
      mapEntries_def)



text \<open>
  In exact arithmetic the second application with the inverse factors gives the original
  mix back.
\<close>

lemma scale_roundtrip:
  assumes "normalized m" and "positive f"
  shows "scaleAndNormalize (inverseFactors f) (scaleAndNormalize f m) = m"
proof -
  let ?t = "wind m * wind f + solar m * solar f + hydro m * hydro f + gas m * gas f
           + coal m * coal f + biomass m * biomass f + imports' m * imports' f"
  have pos: "0 < ?t" using assms by (rule scaled_total_pos)
  then have nz: "?t \<noteq> 0" by simp
  have fnz: "wind f \<noteq> 0" "solar f \<noteq> 0" "hydro f \<noteq> 0" "gas f \<noteq> 0" "coal f \<noteq> 0"
    "biomass f \<noteq> 0" "imports' f \<noteq> 0"
    using assms(2) by (simp_all add: positive_def)
  have one: "wind m + solar m + hydro m + gas m + coal m + biomass m + imports' m = 1"
    using assms(1) by (simp add: normalized_def mixTotal_def)
  have eq: "scaleAndNormalize f m =
     \<lparr>wind = wind m * wind f / ?t, solar = solar m * solar f / ?t,
      hydro = hydro m * hydro f / ?t, gas = gas m * gas f / ?t, coal = coal m * coal f / ?t,
      biomass = biomass m * biomass f / ?t, imports' = imports' m * imports' f / ?t\<rparr>"
    by (simp add: scaleAndNormalize_def Let_def foldl_values mixTotal_def mapEntries_def)
  have undo: "x * a / ?t * (1 / a) = x / ?t" if "a \<noteq> 0" for x a :: real
    using that by simp
  have t2: "wind m / ?t + solar m / ?t + hydro m / ?t + gas m / ?t + coal m / ?t
      + biomass m / ?t + imports' m / ?t = 1 / ?t"
    using one by (simp add: add_divide_distrib [symmetric])
  have fin: "x / ?t / (1 / ?t) = x" for x :: real
    using nz by simp
  show ?thesis
    unfolding eq
    by (simp add: scaleAndNormalize_def Let_def foldl_values mixTotal_def mapEntries_def
        inverseFactors_def undo [OF fnz(1)] undo [OF fnz(2)] undo [OF fnz(3)] undo [OF fnz(4)]
        undo [OF fnz(5)] undo [OF fnz(6)] undo [OF fnz(7)] t2 fin del: times_divide_eq_left times_divide_eq_right divide_divide_eq_left divide_divide_eq_right)
qed

section \<open>The generators: sample count and timestamps\<close>

lemma le_points_iff: "real i \<le> points \<longleftrightarrow> i < passes points"
proof -
  have "real i \<le> points \<longleftrightarrow> int i \<le> \<lfloor>points\<rfloor>"
    by (simp add: le_floor_iff)
  then show ?thesis unfolding passes_def by linarith
qed

lemma mockLoop_eq:
  "mockLoop zone start step points i acc =
     \<lparr>intensity = intensity acc
        @ map (\<lambda>j. fst (mockSample zone start step points j)) [i..<passes points],
      generation = generation acc
        @ map (\<lambda>j. snd (mockSample zone start step points j)) [i..<passes points]\<rparr>"
proof (induction zone start step points i acc rule: mockLoop.induct)
  case (1 zone start step points i acc)
  show ?case
  proof (cases "real i \<le> points")
    case True
    then have lt: "i < passes points" by (simp add: le_points_iff)
    have "mockLoop zone start step points i acc =
        mockLoop zone start step points (Suc i) (push (mockSample zone start step points i) acc)"
      using True by (subst mockLoop.simps) simp
    also note "1.IH" [OF True]
    finally show ?thesis using lt by (simp add: push_def upt_conv_Cons)
  next
    case False
    then have "\<not> i < passes points" by (simp add: le_points_iff)
    moreover have "mockLoop zone start step points i acc = acc"
      using False by (subst mockLoop.simps) simp
    ultimately show ?thesis by simp
  qed
qed

lemma realisticLoop_eq:
  "realisticLoop zone start step points i acc =
     acc @ map (realisticSample zone start step points) [i..<passes points]"
proof (induction zone start step points i acc rule: realisticLoop.induct)
  case (1 zone start step points i acc)
  show ?case
  proof (cases "real i \<le> points")
    case True
    then have lt: "i < passes points" by (simp add: le_points_iff)
    have "realisticLoop zone start step points i acc =
        realisticLoop zone start step points (Suc i)
          (acc @ [realisticSample zone start step points i])"
      using True by (subst realisticLoop.simps) simp
    also note "1.IH" [OF True]
    finally show ?thesis using lt by (simp add: upt_conv_Cons)
  next
    case False
    then have "\<not> i < passes points" by (simp add: le_points_iff)
    moreover have "realisticLoop zone start step points i acc = acc"
      using False by (subst realisticLoop.simps) simp
    ultimately show ?thesis by simp
  qed
qed

lemma eirgridLoop_eq:
  "eirgridLoop rawData acc =
     \<lparr>intensity = intensity acc
        @ map (\<lambda>point. \<lparr>ci_timestamp = parseDate (pt_timestamp point),
             gramsCO2PerKWh = eirgrid_computeIntensity (eirgrid_normalizeMix
                \<lparr>p_wind = Some (pt_wind point), p_solar = Some (pt_solar point),
                 p_hydro = Some (pt_hydro point), p_gas = Some (pt_gas point),
                 p_coal = Some (pt_coal point), p_biomass = Some (pt_biomass point),
                 p_imports = Some (pt_imports point)\<rparr>)\<rparr>) rawData,
      generation = generation acc
        @ map (\<lambda>point. \<lparr>gm_timestamp = parseDate (pt_timestamp point),
             mix = eirgrid_normalizeMix
                \<lparr>p_wind = Some (pt_wind point), p_solar = Some (pt_solar point),
                 p_hydro = Some (pt_hydro point), p_gas = Some (pt_gas point),
                 p_coal = Some (pt_coal point), p_biomass = Some (pt_biomass point),
                 p_imports = Some (pt_imports point)\<rparr>\<rparr>) rawData\<rparr>"
  by (induction rawData arbitrary: acc) (simp_all add: Let_def push_def)

lemma passes_numeral:
  "passes (1440 / 15) = 97" "passes (2880 / 15) = 193" "passes (10080 / 30) = 337"
  by (simp_all add: passes_def)

lemma range_cases: "rng = R24h \<or> rng = R48h \<or> rng = R7d"
  by (cases rng) simp_all

lemma passes_range:
  "passes (real_of_int (getRangeHours rng * 60) / real_of_int (if rng = R7d then 30 else 15))
     = nat (totalHours rng * 60 div stepMinutes rng) + 1"
  using range_cases [of rng]
  by (auto simp: passes_def totalHours_def stepMinutes_def)

lemma hours_range: "getRangeHours rng = totalHours rng"
  using range_cases [of rng] by (auto simp: totalHours_def)

lemma step_range: "(if rng = R7d then 30 else 15) = stepMinutes rng"
  using range_cases [of rng] by (auto simp: totalHours_def stepMinutes_def)

lemma generateMockSeries_eq:
  "generateMockSeries zone now rng =
     \<lparr>intensity = map (\<lambda>j. fst (mockSample zone (subHours now (totalHours rng)) (stepMinutes rng)
          (real_of_int (totalHours rng * 60) / real_of_int (stepMinutes rng)) j))
          [0..<nat (totalHours rng * 60 div stepMinutes rng) + 1],
      generation = map (\<lambda>j. snd (mockSample zone (subHours now (totalHours rng)) (stepMinutes rng)
          (real_of_int (totalHours rng * 60) / real_of_int (stepMinutes rng)) j))
          [0..<nat (totalHours rng * 60 div stepMinutes rng) + 1]\<rparr>"
  unfolding generateMockSeries_def Let_def mockLoop_eq passes_range
  unfolding hours_range step_range
  by simp


lemma generateRealisticIrishData_eq:
  "generateRealisticIrishData zone now rng =
     map (realisticSample zone (subHours now (totalHours rng)) (stepMinutes rng)
            (real_of_int (totalHours rng * 60) / real_of_int (stepMinutes rng)))
       [0..<nat (totalHours rng * 60 div stepMinutes rng) + 1]"
  unfolding generateRealisticIrishData_def Let_def realisticLoop_eq
    eirgrid_getRangeHours.simps getRangeHours.simps [symmetric]
  unfolding passes_range
  unfolding hours_range step_range
  by simp

lemma mockSample_times:
  "ci_timestamp (fst (mockSample zone start step points j)) = addMinutes start (int j * step)"
  "gm_timestamp (snd (mockSample zone start step points j)) = addMinutes start (int j * step)"
  by (simp_all add: mockSample_def Let_def)

lemma realisticSample_time:
  "parseDate (pt_timestamp (realisticSample zone start step points j))
     = addMinutes start (int j * step)"
  by (simp only: realisticSample_def Let_def EirGridDataPoint.select_convs toISOString_def
      parseDate.simps)

lemma mock_intensity_times:
  "map ci_timestamp (intensity (generateMockSeries zone now rng)) = sampleTimes now rng"
  unfolding generateMockSeries_eq sampleTimes_def
  by (simp only: Series.simps list.map_comp comp_def mockSample_times)

lemma mock_generation_times:
  "map gm_timestamp (generation (generateMockSeries zone now rng)) = sampleTimes now rng"
  unfolding generateMockSeries_eq sampleTimes_def
  by (simp only: Series.simps list.map_comp comp_def mockSample_times)

lemma realistic_times:
  "map (\<lambda>p. parseDate (pt_timestamp p)) (generateRealisticIrishData zone now rng)
     = sampleTimes now rng"
  unfolding generateRealisticIrishData_eq sampleTimes_def
  by (simp only: list.map_comp comp_def realisticSample_time)

lemma progression:
  fixes s d :: int and n :: nat
  assumes ts: "ts = map (\<lambda>i. s + int i * d) [0..<n + 1]"
  shows "length ts = n + 1"
    and "\<forall>i. Suc i < length ts \<longrightarrow> ts ! Suc i - ts ! i = d"
    and "ts ! 0 = s"
    and "ts ! (length ts - 1) = s + int n * d"
proof -
  show len: "length ts = n + 1" by (simp add: ts)
  have nth: "ts ! i = s + int i * d" if "i < n + 1" for i
    unfolding ts using that by (simp del: upt_Suc)
  show "\<forall>i. Suc i < length ts \<longrightarrow> ts ! Suc i - ts ! i = d"
  proof (intro allI impI)
    fix i assume "Suc i < length ts"
    then have "Suc i < n + 1" and "i < n + 1" using len by simp_all
    then show "ts ! Suc i - ts ! i = d" by (simp add: nth algebra_simps)
  qed
  show "ts ! 0 = s" using nth [of 0] by simp
  show "ts ! (length ts - 1) = s + int n * d" using nth [of n] len by simp
qed

lemma covers_sampleTimes: "covers now rng (sampleTimes now rng)"
proof -
  define n where "n = nat (totalHours rng * 60 div stepMinutes rng)"
  define s where "s = now - totalHours rng * 3600000"
  define d where "d = stepMinutes rng * 60000"
  have eq: "sampleTimes now rng = map (\<lambda>i. s + int i * d) [0..<n + 1]"
    unfolding sampleTimes_def addMinutes_def subHours_def n_def s_def d_def
    by (simp only: mult.assoc)
  note P = progression [OF eq]
  have cnt: "real (n + 1) = real_of_int (totalHours rng * 60) / real_of_int (stepMinutes rng) + 1"
    using range_cases [of rng] by (auto simp: n_def totalHours_def stepMinutes_def)
  have lst: "s + int n * d = now"
    using range_cases [of rng] by (auto simp: n_def s_def d_def totalHours_def stepMinutes_def)
  have "ts ! (length ts - 1) - ts ! 0 = totalHours rng * 3600000"
    if "ts ! (length ts - 1) = now" "ts ! 0 = s" for ts :: "int list"
    using that by (simp add: s_def)
  with P cnt lst show ?thesis
    unfolding covers_def s_def d_def by simp
qed


lemma fetchRealEirGridData_eq:
  "fetchRealEirGridData zone now rng =
     Inr (eirgridLoop (generateRealisticIrishData zone now rng) \<lparr>intensity = [], generation = []\<rparr>)"
  by (simp add: fetchRealEirGridData_def fetchEirGridData_def)

lemma eirgrid_intensity_times:
  "map ci_timestamp (intensity (eirgridLoop rawData \<lparr>intensity = [], generation = []\<rparr>))
     = map (\<lambda>p. parseDate (pt_timestamp p)) rawData"
  by (simp add: eirgridLoop_eq comp_def)

lemma eirgrid_generation_times:
  "map gm_timestamp (generation (eirgridLoop rawData \<lparr>intensity = [], generation = []\<rparr>))
     = map (\<lambda>p. parseDate (pt_timestamp p)) rawData"
  by (simp add: eirgridLoop_eq comp_def)

text \<open>
  Claim C4. For each of the three ranges the generators resolve the total hours to 24, 48
  and 168, and every series they produce (the intensity and the generation series of the
  mock generator, the data points of the realistic generator and the two series derived
  from them) covers the range: it has \<open>totalHours * 60 / stepMinutes + 1\<close> points, the
  step being 30 minutes for 168 hours and 15 minutes otherwise, neighbouring timestamps
  are one step apart, the first timestamp is \<open>now\<close> minus the total hours and the last
  one is \<open>now\<close>.
\<close>

theorem generators_cover_range:
  "getRangeHours rng = totalHours rng
   \<and> eirgrid_getRangeHours rng = totalHours rng
   \<and> covers now rng (map ci_timestamp (intensity (generateMockSeries zone now rng)))
   \<and> covers now rng (map gm_timestamp (generation (generateMockSeries zone now rng)))
   \<and> covers now rng
        (map (\<lambda>p. parseDate (pt_timestamp p)) (generateRealisticIrishData zone now rng))
   \<and> (\<exists>s. fetchRealEirGridData zone now rng = Inr s
          \<and> covers now rng (map ci_timestamp (intensity s))
          \<and> covers now rng (map gm_timestamp (generation s)))"
proof -
  have "eirgrid_getRangeHours rng = totalHours rng"
    using hours_range [of rng] by simp
  then show ?thesis
    by (simp only: hours_range mock_intensity_times mock_generation_times realistic_times
        covers_sampleTimes fetchRealEirGridData_eq eirgrid_intensity_times
        eirgrid_generation_times simp_thms sum.inject ex_simps)
qed

theorem generators_cover_range_witness:
  "length (map ci_timestamp (intensity (generateMockSeries (\<lambda>t. 60) 1000 R7d))) = 337
   \<and> map ci_timestamp (intensity (generateMockSeries (\<lambda>t. 60) 1000 R7d)) ! 0
       = 1000 - 168 * 3600000
   \<and> map ci_timestamp (intensity (generateMockSeries (\<lambda>t. 60) 1000 R7d)) ! Suc 0
       - map ci_timestamp (intensity (generateMockSeries (\<lambda>t. 60) 1000 R7d)) ! 0 = 30 * 60000
   \<and> map ci_timestamp (intensity (generateMockSeries (\<lambda>t. 60) 1000 R7d)) ! 336 = 1000"
proof -
  let ?ts = "map ci_timestamp (intensity (generateMockSeries (\<lambda>t. 60) 1000 R7d))"
  have c: "covers 1000 R7d ?ts"
    using generators_cover_range [of R7d 1000 "\<lambda>t. 60"] by blast
  have h: "totalHours R7d = 168" and m: "stepMinutes R7d = 30"
    by (simp_all add: totalHours_def stepMinutes_def)
  from c have "real (length ?ts) = 337"
    unfolding covers_def h m by simp
  then have len: "length ?ts = 337"
    by linarith
  from c have "\<forall>i. Suc i < length ?ts \<longrightarrow> ?ts ! Suc i - ?ts ! i = 30 * 60000"
    unfolding covers_def h m by blast
  moreover have "Suc 0 < length ?ts"
    unfolding len by simp
  ultimately have step: "?ts ! Suc 0 - ?ts ! 0 = 30 * 60000"
    by blast
  from c have first: "?ts ! 0 = 1000 - 168 * 3600000"
    unfolding covers_def h m by blast
  from c have "?ts ! (length ?ts - 1) = 1000"
    unfolding covers_def h m by blast
  then have final: "?ts ! 336 = 1000"
    unfolding len by simp
  from len first step final show ?thesis by blast
qed

section \<open>The generators: solar and wind shares\<close>

lemma hourOfDay_bounds: "0 \<le> hourOfDay zone t \<and> hourOfDay zone t < 24"
proof -
  have h: "0 \<le> getHours zone t" "getHours zone t \<le> 23"
    by (simp_all add: getHours_def) 
  have m: "0 \<le> getMinutes zone t" "getMinutes zone t \<le> 59"
    by (simp_all add: getMinutes_def)
  have "real_of_int (getHours zone t) \<le> 23" "0 \<le> real_of_int (getHours zone t)"
    "real_of_int (getMinutes zone t) \<le> 59" "0 \<le> real_of_int (getMinutes zone t)"
    using h m by linarith+
  then show ?thesis
    unfolding hourOfDay_def by (auto simp: field_simps)
qed

lemma solarBase_zero:
  fixes h :: real
  assumes "0 \<le> h" and "h < 24" and "h < 6 \<or> 18 < h"
  shows "max 0 (sin ((pi * (h - 6)) / 12)) = 0"
proof -
  have "sin ((pi * (h - 6)) / 12) \<le> 0"
  proof (cases "h < 6")
    case True
    let ?y = "(pi * (6 - h)) / 12"
    have "0 \<le> ?y" using True by simp
    moreover have "?y \<le> pi"
    proof -
      have "6 - h \<le> 12" using assms(1) by simp
      then have "pi * (6 - h) \<le> pi * 12"
        by (intro mult_left_mono) simp_all
      then show ?thesis by simp
    qed
    ultimately have "0 \<le> sin ?y" by (rule sin_ge_zero)
    moreover have "(pi * (h - 6)) / 12 = - ?y"
    proof -
      have "pi * (h - 6) = - (pi * (6 - h))" by (simp add: algebra_simps)
      then show ?thesis by (simp only: minus_divide_left)
    qed
    ultimately show ?thesis by (simp only: sin_minus)
  next
    case False
    with assms(3) have gt: "18 < h" by simp
    let ?x = "(pi * (h - 6)) / 12"
    have "pi * 12 \<le> pi * (h - 6)"
      using gt by (intro mult_left_mono) simp_all
    then have "pi \<le> ?x" by simp
    moreover have "?x < 2 * pi"
    proof -
      have "pi * (h - 6) < pi * 24"
        using assms(2) by (intro mult_strict_left_mono) simp_all
      then show ?thesis by simp
    qed
    ultimately show ?thesis by (rule sin_le_zero)
  qed
  then show ?thesis by simp
qed

lemma clamp_lower: "lo \<le> clamp v lo hi"
  by (simp add: clamp_def)

lemma clamp_upper: "lo \<le> hi \<Longrightarrow> clamp v lo hi \<le> hi"
  by (simp add: clamp_def)

lemma mockRaw_solar:
  "p_solar (mockRaw hod points i)
     = Some (clamp (0.18 * max 0 (sin ((pi * (hod - 6)) / 12))) 0 0.25)"
  by (simp only: mockRaw_def Let_def PartialMix.select_convs)

lemma mockRaw_wind:
  "p_wind (mockRaw hod points i)
     = Some (clamp (0.35 + 0.2 * sin ((2 * pi * (hod - 3)) / 24)) 0.1 0.75)"
  by (simp only: mockRaw_def Let_def PartialMix.select_convs)

lemma realisticSample_solar:
  "pt_solar (realisticSample zone start step points j)
     = max 0 (min 0.15 (0.12 * max 0
         (sin ((pi * (hourOfDay zone (addMinutes start (int j * step)) - 6)) / 12))))"
  by (simp only: realisticSample_def Let_def EirGridDataPoint.select_convs)

lemma realisticSample_wind:
  "pt_wind (realisticSample zone start step points j)
     = max 0.1 (min 0.8 (0.4
         + sin ((2 * pi * (hourOfDay zone (addMinutes start (int j * step)) - 2)) / 24) * 0.3))"
  by (simp only: realisticSample_def Let_def EirGridDataPoint.select_convs)

lemma mockRaw_solar_zero:
  assumes "0 \<le> hod" and "hod < 24" and "hod < 6 \<or> 18 < hod"
  shows "p_solar (mockRaw hod points i) = Some 0"
  unfolding mockRaw_solar solarBase_zero [OF assms] by (simp add: clamp_def)

lemma realisticSample_solar_zero:
  assumes "hourOfDay zone (parseDate (pt_timestamp (realisticSample zone start step points j))) < 6
    \<or> 18 < hourOfDay zone (parseDate (pt_timestamp (realisticSample zone start step points j)))"
  shows "pt_solar (realisticSample zone start step points j) = 0"
proof -
  let ?h = "hourOfDay zone (addMinutes start (int j * step))"
  have "?h < 6 \<or> 18 < ?h"
    using assms unfolding realisticSample_time .
  moreover have "0 \<le> ?h" "?h < 24"
    using hourOfDay_bounds [of zone "addMinutes start (int j * step)"] by simp_all
  ultimately have "max 0 (sin ((pi * (?h - 6)) / 12)) = 0"
    by (intro solarBase_zero)
  then show ?thesis
    unfolding realisticSample_solar by simp
qed

lemma clamp_nonneg: "0 \<le> lo \<Longrightarrow> 0 \<le> clamp v lo hi"
  using clamp_lower [of lo v hi] by linarith

lemma ripple_nonneg:
  fixes x :: real
  shows "0 \<le> 0.05 + 0.02 * sin x" and "0 \<le> 0.04 + 0.01 * sin x"
proof -
  have "0 \<le> 5 + 2 * sin x" "0 \<le> 4 + sin x"
    using sin_ge_minus_one [of x] by linarith+
  then show "0 \<le> 0.05 + 0.02 * sin x" and "0 \<le> 0.04 + 0.01 * sin x"
    by simp_all
qed

lemma mockRaw_hydro:
  "p_hydro (mockRaw hod points i) = Some (0.05 + 0.02 * sin ((2 * pi * real i) / (points / 7)))"
  by (simp only: mockRaw_def Let_def PartialMix.select_convs)

lemma mockRaw_coal:
  "p_coal (mockRaw hod points i) = Some (0.04 + 0.01 * sin ((2 * pi * real i) / (points / 3)))"
  by (simp only: mockRaw_def Let_def PartialMix.select_convs)

lemma mockRaw_biomass: "p_biomass (mockRaw hod points i) = Some 0.05"
  by (simp only: mockRaw_def Let_def PartialMix.select_convs)

lemma mockRaw_gas: "\<exists>v. p_gas (mockRaw hod points i) = Some (clamp v 0.05 0.7)"
  by (simp only: mockRaw_def Let_def PartialMix.select_convs) (rule exI, rule refl)

lemma mockRaw_imports: "\<exists>v. p_imports (mockRaw hod points i) = Some (clamp v 0.02 0.2)"
  by (simp only: mockRaw_def Let_def PartialMix.select_convs) (rule exI, rule refl)

lemma seven_pos:
  fixes a :: real
  assumes "1 / 10 \<le> a" "0 \<le> b" "0 \<le> c" "0 \<le> d" "0 \<le> e" "0 \<le> f" "0 \<le> g"
  shows "0 < a + b + c + d + e + f + g"
  using assms by linarith

lemma mockRaw_total_pos: "0 < rawTotal (mockRaw hod points i)"
proof -
  obtain vg where g: "p_gas (mockRaw hod points i) = Some (clamp vg 0.05 0.7)"
    using mockRaw_gas by blast
  obtain vm where m: "p_imports (mockRaw hod points i) = Some (clamp vm 0.02 0.2)"
    using mockRaw_imports by blast
  have "0.1 \<le> clamp v 0.1 0.75" for v by (rule clamp_lower)
  then have w: "1 / 10 \<le> clamp v 0.1 0.75" for v by simp
  have "0 \<le> (0.05 :: real)" by simp
  show ?thesis
    unfolding rawTotal_def mockRaw_wind mockRaw_solar mockRaw_hydro mockRaw_coal
      mockRaw_biomass g m nullish.simps
    by (intro seven_pos w clamp_nonneg ripple_nonneg) simp_all
qed

lemma normalizeMix_solar_zero:
  assumes "p_solar raw = Some 0" and "0 < rawTotal raw"
  shows "solar (normalizeMix raw) = 0"
  unfolding normalizeMix_divide [OF assms(2)] using assms(1) by simp

lemma mockSample_snd:
  "snd (mockSample zone start step points j) =
     \<lparr>gm_timestamp = addMinutes start (int j * step),
      mix = normalizeMix (mockRaw (hourOfDay zone (addMinutes start (int j * step))) points j)\<rparr>"
  by (simp add: mockSample_def Let_def)

lemma mock_published_solar_zero:
  assumes "p \<in> set (generation (generateMockSeries zone now rng))"
    and "hourOfDay zone (gm_timestamp p) < 6 \<or> 18 < hourOfDay zone (gm_timestamp p)"
  shows "solar (mix p) = 0"
proof -
  let ?start = "subHours now (totalHours rng)" and ?step = "stepMinutes rng"
    and ?points = "real_of_int (totalHours rng * 60) / real_of_int (stepMinutes rng)"
  from assms(1) obtain j where p: "p = snd (mockSample zone ?start ?step ?points j)"
    unfolding generateMockSeries_eq by auto
  let ?t = "addMinutes ?start (int j * ?step)"
  have t: "gm_timestamp p = ?t" and m: "mix p = normalizeMix (mockRaw (hourOfDay zone ?t) ?points j)"
    unfolding p mockSample_snd by simp_all
  have "p_solar (mockRaw (hourOfDay zone ?t) ?points j) = Some 0"
    using assms(2) hourOfDay_bounds [of zone ?t] unfolding t
    by (intro mockRaw_solar_zero) simp_all
  then show ?thesis
    unfolding m by (rule normalizeMix_solar_zero) (rule mockRaw_total_pos)
qed

lemma realistic_solar_zero:
  assumes "p \<in> set (generateRealisticIrishData zone now rng)"
    and "hourOfDay zone (parseDate (pt_timestamp p)) < 6
      \<or> 18 < hourOfDay zone (parseDate (pt_timestamp p))"
  shows "pt_solar p = 0"
proof -
  from assms(1) obtain j where
    "p = realisticSample zone (subHours now (totalHours rng)) (stepMinutes rng)
       (real_of_int (totalHours rng * 60) / real_of_int (stepMinutes rng)) j"
    unfolding generateRealisticIrishData_eq by auto
  with assms(2) show ?thesis
    by (simp only: realisticSample_solar_zero)
qed

lemma realistic_wind_band:
  assumes "p \<in> set (generateRealisticIrishData zone now rng)"
  shows "0.1 \<le> pt_wind p \<and> pt_wind p \<le> 0.8"
proof -
  from assms obtain j where
    "p = realisticSample zone (subHours now (totalHours rng)) (stepMinutes rng)
       (real_of_int (totalHours rng * 60) / real_of_int (stepMinutes rng)) j"
    unfolding generateRealisticIrishData_eq by auto
  then have "pt_wind p = clamp (0.4
         + sin ((2 * pi * (hourOfDay zone (addMinutes (subHours now (totalHours rng))
             (int j * stepMinutes rng)) - 2)) / 24) * 0.3) 0.1 0.8"
    by (simp only: realisticSample_wind clamp_def)
  moreover have "0.1 \<le> clamp v 0.1 0.8" for v by (rule clamp_lower)
  moreover have "clamp v 0.1 0.8 \<le> 0.8" for v by (rule clamp_upper) simp
  ultimately show ?thesis by simp
qed

lemma hourOfDay_epoch: "hourOfDay (\<lambda>t. 0) 0 = 0"
  by (simp add: hourOfDay_def getHours_def getMinutes_def)

lemma hourOfDay_day_before: "hourOfDay (\<lambda>t. 0) (- 86400000) = 0"
  by (simp add: hourOfDay_def getHours_def getMinutes_def)

lemma mock_first_point:
  "generation (generateMockSeries zone now rng) ! 0 \<in> set (generation (generateMockSeries zone now rng))
   \<and> gm_timestamp (generation (generateMockSeries zone now rng) ! 0) = now - totalHours rng * 3600000"
proof -
  let ?g = "generation (generateMockSeries zone now rng)"
  have c: "covers now rng (map gm_timestamp ?g)"
    by (simp only: mock_generation_times covers_sampleTimes)
  then have "real (length ?g) = real_of_int (totalHours rng * 60) / real_of_int (stepMinutes rng) + 1"
    by (simp add: covers_def)
  moreover have "0 \<le> real_of_int (totalHours rng * 60) / real_of_int (stepMinutes rng)"
    using range_cases [of rng] by (auto simp: totalHours_def stepMinutes_def)
  ultimately have len: "0 < length ?g" by (cases "length ?g") simp_all
  from c have "map gm_timestamp ?g ! 0 = now - totalHours rng * 3600000"
    by (simp add: covers_def)
  with len show ?thesis by (simp add: nth_map)
qed

lemma realistic_first_point:
  "generateRealisticIrishData zone now rng ! 0 \<in> set (generateRealisticIrishData zone now rng)
   \<and> parseDate (pt_timestamp (generateRealisticIrishData zone now rng ! 0))
       = now - totalHours rng * 3600000"
proof -
  let ?g = "generateRealisticIrishData zone now rng"
  have c: "covers now rng (map (\<lambda>p. parseDate (pt_timestamp p)) ?g)"
    by (simp only: realistic_times covers_sampleTimes)
  then have "real (length ?g) = real_of_int (totalHours rng * 60) / real_of_int (stepMinutes rng) + 1"
    by (simp add: covers_def)
  moreover have "0 \<le> real_of_int (totalHours rng * 60) / real_of_int (stepMinutes rng)"
    using range_cases [of rng] by (auto simp: totalHours_def stepMinutes_def)
  ultimately have len: "0 < length ?g" by (cases "length ?g") simp_all
  from c have "map (\<lambda>p. parseDate (pt_timestamp p)) ?g ! 0 = now - totalHours rng * 3600000"
    by (simp add: covers_def)
  with len show ?thesis by (simp add: nth_map)
qed

section \<open>Provider variants: the published intensity\<close>

lemma sqrt2_bounds: "1.4 < sqrt 2" "sqrt 2 < 1.5"
proof -
  have "(1.4 :: real)\<^sup>2 < 2" by (simp add: power2_eq_square)
  then show "1.4 < sqrt 2" by (rule real_less_rsqrt)
  have "(2 :: real) < 1.5\<^sup>2" by (simp add: power2_eq_square)
  then show "sqrt 2 < 1.5" by (intro real_less_lsqrt) simp_all
qed

lemma hourOfDay_three: "hourOfDay (\<lambda>t. 0) 10800000 = 3"
  by (simp add: hourOfDay_def getHours_def getMinutes_def)

lemma mockRaw_three:
  "mockRaw 3 points 0 =
     \<lparr>p_wind = Some 0.35, p_solar = Some 0, p_hydro = Some 0.05,
      p_gas = Some (0.35 + sqrt 2 / 20), p_coal = Some 0.04, p_biomass = Some 0.05,
      p_imports = Some (0.16 - sqrt 2 / 20)\<rparr>"
proof -
  have w: "clamp (0.35 + 0.2 * sin ((2 * pi * (3 - 3)) / 24)) 0.1 0.75 = 0.35"
    by (simp add: clamp_def)
  have sb: "max 0 (sin ((pi * (3 - 6)) / 12)) = 0"
    by (rule solarBase_zero) simp_all
  have s: "clamp (0.18 * 0) 0 0.25 = 0"
    by (simp add: clamp_def)
  have hy: "0.05 + 0.02 * sin ((2 * pi * real 0) / (points / 7)) = 0.05"
    by simp
  have co: "0.04 + 0.01 * sin ((2 * pi * real 0) / (points / 3)) = 0.04"
    by simp
  have "(2 * pi * 3) / 24 = pi / 4" by simp
  then have cs: "cos ((2 * pi * 3) / 24) = sqrt 2 / 2"
    by (simp only: cos_45)
  have g: "clamp (0.4 + 0.1 * (sqrt 2 / 2) - (0.35 + 0 - 0.3)) 0.05 0.7 = 0.35 + sqrt 2 / 20"
    using sqrt2_bounds by (simp add: clamp_def)
  have im: "clamp (1 - (0.35 + 0 + 0.05 + (0.35 + sqrt 2 / 20) + 0.04 + 0.05)) 0.02 0.2
      = 0.16 - sqrt 2 / 20"
    using sqrt2_bounds by (simp add: clamp_def)
  show ?thesis
    unfolding mockRaw_def Let_def
    by (simp only: w sb s hy co cs g im)
qed


lemma normalizeMix_three: "normalizeMix (mockRaw 3 points 0) = mixAtThree"
proof -
  have t: "rawTotal (mockRaw 3 points 0) = 1"
    unfolding mockRaw_three rawTotal_def by simp
  then have pos: "0 < rawTotal (mockRaw 3 points 0)" by simp
  show ?thesis
    unfolding normalizeMix_divide [OF pos] t
    unfolding mockRaw_three mixAtThree_def by simp
qed

lemma Math_round_eq:
  assumes "real_of_int n - 1 / 2 \<le> x" and "x < real_of_int n + 1 / 2"
  shows "Math_round x = n"
  unfolding Math_round_def using assms by (intro floor_unique) simp_all

lemma intensity_three: "computeIntensity mixAtThree = 248"
proof -
  have "wind mixAtThree * 12 + solar mixAtThree * 50 + hydro mixAtThree * 24
      + gas mixAtThree * 400 + coal mixAtThree * 900 + biomass mixAtThree * 230
      + imports' mixAtThree * 300 = 240.9 + 5 * sqrt 2"
    by (simp add: mixAtThree_def)
  then show ?thesis
    unfolding computeIntensity_def weighted_sum
    using sqrt2_bounds by (intro Math_round_eq) simp_all
qed

lemma published_three: "Math_round (992 / 5) = 198"
  by (simp add: Math_round_def)

lemma computeIntensity_scaled:
  "computeIntensity (scaleAndNormalize f m) =
     Math_round
       ((wind m * wind f * 12 + solar m * solar f * 50 + hydro m * hydro f * 24
          + gas m * gas f * 400 + coal m * coal f * 900 + biomass m * biomass f * 230
          + imports' m * imports' f * 300)
        / (wind m * wind f + solar m * solar f + hydro m * hydro f + gas m * gas f
          + coal m * coal f + biomass m * biomass f + imports' m * imports' f))"
  unfolding computeIntensity_def weighted_sum scaleAndNormalize_def Let_def foldl_values
    mapEntries_def mixTotal_def GenerationMixBreakdown.select_convs
  by (simp add: add_divide_distrib)

lemma recomputed_three:
  "computeIntensity (scaleAndNormalize eirgridFactors mixAtThree) = 204"
proof -
  have num: "wind mixAtThree * wind eirgridFactors * 12
      + solar mixAtThree * solar eirgridFactors * 50
      + hydro mixAtThree * hydro eirgridFactors * 24
      + gas mixAtThree * gas eirgridFactors * 400
      + coal mixAtThree * coal eirgridFactors * 900
      + biomass mixAtThree * biomass eirgridFactors * 230
      + imports' mixAtThree * imports' eirgridFactors * 300 = 200.56 + 6 * sqrt 2"
    unfolding mixAtThree_def eirgridFactors_def GenerationMixBreakdown.select_convs
    by (simp add: algebra_simps)
  have den: "wind mixAtThree * wind eirgridFactors + solar mixAtThree * solar eirgridFactors
      + hydro mixAtThree * hydro eirgridFactors + gas mixAtThree * gas eirgridFactors
      + coal mixAtThree * coal eirgridFactors + biomass mixAtThree * biomass eirgridFactors
      + imports' mixAtThree * imports' eirgridFactors = 1.018 + sqrt 2 / 200"
    unfolding mixAtThree_def eirgridFactors_def GenerationMixBreakdown.select_convs
    by (simp add: algebra_simps)
  have pos: "0 < 1.018 + sqrt 2 / 200"
    using sqrt2_bounds by simp
  have lo: "203.5 \<le> (200.56 + 6 * sqrt 2) / (1.018 + sqrt 2 / 200)"
    using sqrt2_bounds pos by (simp add: le_divide_eq)
  have hi: "(200.56 + 6 * sqrt 2) / (1.018 + sqrt 2 / 200) < 204.5"
    using sqrt2_bounds pos by (simp add: divide_less_eq)
  show ?thesis
    unfolding computeIntensity_scaled num den
    using lo hi by (intro Math_round_eq) simp_all
qed


lemma recomputed_three_entsoe:
  "computeIntensity (scaleAndNormalize entsoeFactors mixAtThree) = 163"
proof -
  have num: "wind mixAtThree * wind entsoeFactors * 12
      + solar mixAtThree * solar entsoeFactors * 50
      + hydro mixAtThree * hydro entsoeFactors * 24
      + gas mixAtThree * gas entsoeFactors * 400
      + coal mixAtThree * coal entsoeFactors * 900
      + biomass mixAtThree * biomass entsoeFactors * 230
      + imports' mixAtThree * imports' entsoeFactors * 300 = 156.69 + 5 * sqrt 2"
    unfolding mixAtThree_def entsoeFactors_def GenerationMixBreakdown.select_convs
    by (simp add: algebra_simps)
  have den: "wind mixAtThree * wind entsoeFactors + solar mixAtThree * solar entsoeFactors
      + hydro mixAtThree * hydro entsoeFactors + gas mixAtThree * gas entsoeFactors
      + coal mixAtThree * coal entsoeFactors + biomass mixAtThree * biomass entsoeFactors
      + imports' mixAtThree * imports' entsoeFactors = 0.999 + sqrt 2 / 200"
    unfolding mixAtThree_def entsoeFactors_def GenerationMixBreakdown.select_convs
    by (simp add: algebra_simps)
  have pos: "0 < 0.999 + sqrt 2 / 200"
    using sqrt2_bounds by simp
  have lo: "162.5 \<le> (156.69 + 5 * sqrt 2) / (0.999 + sqrt 2 / 200)"
    using sqrt2_bounds pos by (simp add: le_divide_eq)
  have hi: "(156.69 + 5 * sqrt 2) / (0.999 + sqrt 2 / 200) < 163.5"
    using sqrt2_bounds pos by (simp add: divide_less_eq)
  show ?thesis
    unfolding computeIntensity_scaled num den
    using lo hi by (intro Math_round_eq) simp_all
qed

lemma published_three_entsoe: "Math_round (744 / 5) = 149"
  by (simp add: Math_round_def)

lemma mockSample_fst:
  "fst (mockSample zone start step points j) =
     \<lparr>ci_timestamp = addMinutes start (int j * step),
      gramsCO2PerKWh = computeIntensity
        (normalizeMix (mockRaw (hourOfDay zone (addMinutes start (int j * step))) points j))\<rparr>"
  by (simp add: mockSample_def Let_def)

lemma mock_first_sample:
  "intensity (generateMockSeries zone now rng) ! 0 =
     fst (mockSample zone (subHours now (totalHours rng)) (stepMinutes rng)
       (real_of_int (totalHours rng * 60) / real_of_int (stepMinutes rng)) 0)"
  "generation (generateMockSeries zone now rng) ! 0 =
     snd (mockSample zone (subHours now (totalHours rng)) (stepMinutes rng)
       (real_of_int (totalHours rng * 60) / real_of_int (stepMinutes rng)) 0)"
  "intensity (generateMockSeries zone now rng) \<noteq> []"
  "generation (generateMockSeries zone now rng) \<noteq> []"
  unfolding generateMockSeries_eq by (simp_all del: upt_Suc)

lemma mock_at_three:
  "gramsCO2PerKWh (intensity (generateMockSeries (\<lambda>t. 0) 97200000 R24h) ! 0) = 248"
  "mix (generation (generateMockSeries (\<lambda>t. 0) 97200000 R24h) ! 0) = mixAtThree"
proof -
  have start: "addMinutes (subHours 97200000 (totalHours R24h)) (int 0 * stepMinutes R24h)
      = 10800000"
    by (simp add: addMinutes_def subHours_def totalHours_def)
  show "gramsCO2PerKWh (intensity (generateMockSeries (\<lambda>t. 0) 97200000 R24h) ! 0) = 248"
    unfolding mock_first_sample mockSample_fst start hourOfDay_three normalizeMix_three
    by (simp add: intensity_three)
  show "mix (generation (generateMockSeries (\<lambda>t. 0) 97200000 R24h) ! 0) = mixAtThree"
    unfolding mock_first_sample mockSample_snd start hourOfDay_three normalizeMix_three
    by simp
qed

lemma variant_intensity:
  "intensity (generateProviderSpecificData zone now EirGrid_realtime rng) =
     map (\<lambda>point. point\<lparr>gramsCO2PerKWh :=
            Math_round (real_of_int (gramsCO2PerKWh point) * 0.8)\<rparr>)
       (intensity (generateMockSeries zone now rng))"
  "intensity (generateProviderSpecificData zone now ENTSOE_realtime rng) =
     map (\<lambda>point. point\<lparr>gramsCO2PerKWh :=
            Math_round (real_of_int (gramsCO2PerKWh point) * 0.6)\<rparr>)
       (intensity (generateMockSeries zone now rng))"
  "generation (generateProviderSpecificData zone now EirGrid_realtime rng) =
     map eirgridVariantPoint (generation (generateMockSeries zone now rng))"
  "generation (generateProviderSpecificData zone now ENTSOE_realtime rng) =
     map entsoeVariantPoint (generation (generateMockSeries zone now rng))"
  by (simp_all add: generateProviderSpecificData_def Let_def)

lemma variants_at_three:
  "gramsCO2PerKWh
     (intensity (generateProviderSpecificData (\<lambda>t. 0) 97200000 EirGrid_realtime R24h) ! 0) = 198"
  "computeIntensity
     (mix (generation (generateProviderSpecificData (\<lambda>t. 0) 97200000 EirGrid_realtime R24h) ! 0))
     = 204"
  "gramsCO2PerKWh
     (intensity (generateProviderSpecificData (\<lambda>t. 0) 97200000 ENTSOE_realtime R24h) ! 0) = 149"
  "computeIntensity
     (mix (generation (generateProviderSpecificData (\<lambda>t. 0) 97200000 ENTSOE_realtime R24h) ! 0))
     = 163"
  unfolding variant_intensity
  by (simp_all add: nth_map mock_first_sample(3,4) mock_at_three eirgridVariantPoint_mix
      entsoeVariantPoint_mix recomputed_three recomputed_three_entsoe published_three
      published_three_entsoe)

text \<open>
  Claim C10. In the provider variants every published intensity is the rounded product of
  the mock intensity of the same point and the variant's scale, 0.8 for EirGrid and 0.6
  for ENTSO-E (the timestamp is kept). It is not recomputed from the transformed mix: for
  both variants there is a generated point whose published intensity differs from the
  intensity of its transformed mix. With the clock at 03:00 UTC and the 24 hour range the
  first point has mock intensity 248; EirGrid publishes 198 where its mix gives 204, and
  ENTSO-E publishes 149 where its mix gives 163.
\<close>

theorem variant_intensity_scaled:
  "intensity (generateProviderSpecificData zone now EirGrid_realtime rng) =
     map (\<lambda>point. point\<lparr>gramsCO2PerKWh :=
            Math_round (real_of_int (gramsCO2PerKWh point) * 0.8)\<rparr>)
       (intensity (generateMockSeries zone now rng))
   \<and> intensity (generateProviderSpecificData zone now ENTSOE_realtime rng) =
     map (\<lambda>point. point\<lparr>gramsCO2PerKWh :=
            Math_round (real_of_int (gramsCO2PerKWh point) * 0.6)\<rparr>)
       (intensity (generateMockSeries zone now rng))
   \<and> (\<exists>z n r i.
         i < length (intensity (generateProviderSpecificData z n EirGrid_realtime r))
         \<and> gramsCO2PerKWh (intensity (generateProviderSpecificData z n EirGrid_realtime r) ! i)
           \<noteq> computeIntensity
               (mix (generation (generateProviderSpecificData z n EirGrid_realtime r) ! i)))
   \<and> (\<exists>z n r i.
         i < length (intensity (generateProviderSpecificData z n ENTSOE_realtime r))
         \<and> gramsCO2PerKWh (intensity (generateProviderSpecificData z n ENTSOE_realtime r) ! i)
           \<noteq> computeIntensity
               (mix (generation (generateProviderSpecificData z n ENTSOE_realtime r) ! i)))"
proof (intro conjI)
  let ?z = "\<lambda>t :: Date. 0 :: int"
  have len: "0 < length (intensity (generateProviderSpecificData ?z 97200000 p R24h))" for p
    by (cases p) (simp_all add: generateProviderSpecificData_def Let_def mock_first_sample(3))
  show "\<exists>z n r i.
         i < length (intensity (generateProviderSpecificData z n EirGrid_realtime r))
         \<and> gramsCO2PerKWh (intensity (generateProviderSpecificData z n EirGrid_realtime r) ! i)
           \<noteq> computeIntensity
               (mix (generation (generateProviderSpecificData z n EirGrid_realtime r) ! i))"
    by (intro exI [of _ ?z] exI [of _ 97200000] exI [of _ R24h] exI [of _ 0] conjI len)
      (simp add: variants_at_three)
  show "\<exists>z n r i.
         i < length (intensity (generateProviderSpecificData z n ENTSOE_realtime r))
         \<and> gramsCO2PerKWh (intensity (generateProviderSpecificData z n ENTSOE_realtime r) ! i)
           \<noteq> computeIntensity
               (mix (generation (generateProviderSpecificData z n ENTSOE_realtime r) ! i))"
    by (intro exI [of _ ?z] exI [of _ 97200000] exI [of _ R24h] exI [of _ 0] conjI len)
      (simp add: variants_at_three)
qed (rule variant_intensity)+

section \<open>The generators: raw and published shares\<close>

lemma mock_band_arith:
  fixes w s h c g m K :: real
  assumes "0.15 \<le> w" "w \<le> 0.55" "0 \<le> s" "s \<le> 0.18" "0.03 \<le> h" "h \<le> 0.07"
    "0.03 \<le> c" "c \<le> 0.05" "- 1 \<le> K" "K \<le> 1"
    and g: "g = clamp (0.4 + 0.1 * K - (w + s - 0.3)) 0.05 0.7"
    and m: "m = clamp (1 - (w + s + h + g + c + 0.05)) 0.02 0.2"
  shows "0 < w + s + h + g + c + 0.05 + m"
    and "0.1 \<le> w / (w + s + h + g + c + 0.05 + m)"
    and "w / (w + s + h + g + c + 0.05 + m) \<le> 0.75"
proof -
  let ?t = "w + s + h + g + c + 0.05 + m"
  show pos: "0 < ?t"
    using assms by (auto simp: clamp_def max_def min_def split: if_splits)
  have "0.1 * ?t \<le> w"
    using assms by (auto simp: clamp_def max_def min_def split: if_splits)
  then show "0.1 \<le> w / ?t"
    using pos by (simp only: pos_le_divide_eq)
  have "w \<le> 0.75 * ?t"
    using assms by (auto simp: clamp_def max_def min_def split: if_splits)
  then show "w / ?t \<le> 0.75"
    using pos by (simp only: pos_divide_le_eq)
qed

lemma realistic_band_arith:
  fixes w s h c g m K :: real
  assumes "0.1 \<le> w" "w \<le> 0.7" "0 \<le> s" "s \<le> 0.12" "0.05 \<le> h" "h \<le> 0.11"
    "0.01 \<le> c" "c \<le> 0.03" "- 1 \<le> K" "K \<le> 1"
    and g: "g = max 0.05 (min 0.6 (0.35 + 0.1 * K - (w + s - 0.3)))"
    and m: "m = max 0.02 (min 0.15 (1 - (w + s + h + g + c + 0.06)))"
  shows "0 < w + s + h + g + c + 0.06 + m"
    and "0.1 \<le> w / (w + s + h + g + c + 0.06 + m)"
    and "w / (w + s + h + g + c + 0.06 + m) \<le> 0.8"
proof -
  let ?t = "w + s + h + g + c + 0.06 + m"
  show pos: "0 < ?t"
    using assms by (auto simp: max_def min_def split: if_splits)
  have "0.1 * ?t \<le> w"
    using assms by (auto simp: max_def min_def split: if_splits)
  then show "0.1 \<le> w / ?t"
    using pos by (simp only: pos_le_divide_eq)
  have "w \<le> 0.8 * ?t"
    using assms by (auto simp: max_def min_def split: if_splits)
  then show "w / ?t \<le> 0.8"
    using pos by (simp only: pos_divide_le_eq)
qed

lemma sin_band:
  fixes x a b :: real
  assumes "0 \<le> b"
  shows "a - b \<le> a + b * sin x" and "a + b * sin x \<le> a + b"
proof -
  have "b * (- 1) \<le> b * sin x"
    using assms by (intro mult_left_mono) simp_all
  then show "a - b \<le> a + b * sin x" by simp
  have "b * sin x \<le> b * 1"
    using assms by (intro mult_left_mono) simp_all
  then show "a + b * sin x \<le> a + b" by simp
qed

lemma clamp_between:
  assumes "lo \<le> a" and "b \<le> hi" and "a \<le> v" and "v \<le> b"
  shows "a \<le> clamp v lo hi" and "clamp v lo hi \<le> b"
  using assms by (auto simp: clamp_def max_def min_def)

lemma mockRaw_shape:
  obtains w s h c K g m where
    "mockRaw hod points i =
       \<lparr>p_wind = Some w, p_solar = Some s, p_hydro = Some h, p_gas = Some g, p_coal = Some c,
        p_biomass = Some 0.05, p_imports = Some m\<rparr>"
    and "0.15 \<le> w" "w \<le> 0.55" "0 \<le> s" "s \<le> 0.18" "0.03 \<le> h" "h \<le> 0.07"
    and "0.03 \<le> c" "c \<le> 0.05" "- 1 \<le> K" "K \<le> 1"
    and "g = clamp (0.4 + 0.1 * K - (w + s - 0.3)) 0.05 0.7"
    and "m = clamp (1 - (w + s + h + g + c + 0.05)) 0.02 0.2"
proof -
  define w where "w = clamp (0.35 + 0.2 * sin ((2 * pi * (hod - 3)) / 24)) 0.1 0.75"
  define sb where "sb = max 0 (sin ((pi * (hod - 6)) / 12))"
  define s where "s = clamp (0.18 * sb) 0 0.25"
  define h where "h = 0.05 + 0.02 * sin ((2 * pi * real i) / (points / 7))"
  define c where "c = 0.04 + 0.01 * sin ((2 * pi * real i) / (points / 3))"
  define K where "K = cos ((2 * pi * hod) / 24)"
  define g where "g = clamp (0.4 + 0.1 * K - (w + s - 0.3)) 0.05 0.7"
  define m where "m = clamp (1 - (w + s + h + g + c + 0.05)) 0.02 0.2"
  have eq: "mockRaw hod points i =
       \<lparr>p_wind = Some w, p_solar = Some s, p_hydro = Some h, p_gas = Some g, p_coal = Some c,
        p_biomass = Some 0.05, p_imports = Some m\<rparr>"
    unfolding mockRaw_def Let_def m_def g_def K_def c_def h_def s_def sb_def w_def
    by (rule refl)
  have wb: "0.35 - 0.2 \<le> 0.35 + 0.2 * sin ((2 * pi * (hod - 3)) / 24)"
      "0.35 + 0.2 * sin ((2 * pi * (hod - 3)) / 24) \<le> 0.35 + 0.2"
    by (rule sin_band, simp)+
  have "0.35 - 0.2 \<le> w" "w \<le> 0.35 + 0.2"
    unfolding w_def by (rule clamp_between [OF _ _ wb]; simp)+
  then have w: "0.15 \<le> w" "w \<le> 0.55" by simp_all
  have "0 \<le> sb" "sb \<le> 1"
    unfolding sb_def by simp_all
  then have sv: "0 \<le> 0.18 * sb" "0.18 * sb \<le> 0.18" by simp_all
  have s: "0 \<le> s" "s \<le> 0.18"
    unfolding s_def by (rule clamp_between [OF _ _ sv]; simp)+
  have hb: "0.05 - 0.02 \<le> h" "h \<le> 0.05 + 0.02"
    unfolding h_def by (rule sin_band, simp)+
  then have h: "0.03 \<le> h" "h \<le> 0.07" by simp_all
  have cb: "0.04 - 0.01 \<le> c" "c \<le> 0.04 + 0.01"
    unfolding c_def by (rule sin_band, simp)+
  then have c: "0.03 \<le> c" "c \<le> 0.05" by simp_all
  have K: "- 1 \<le> K" "K \<le> 1"
    unfolding K_def by simp_all
  from eq w s h c K g_def m_def show ?thesis by (rule that)
qed


lemma sin_band':
  fixes x a b :: real
  assumes "0 \<le> b"
  shows "a - b \<le> a + sin x * b" and "a + sin x * b \<le> a + b"
  using sin_band [OF assms, of a x] by (simp_all add: mult.commute)

lemma realisticSample_shape:
  obtains w s h c K g m where
    "pt_wind (realisticSample zone start step points j) = w"
    and "pt_solar (realisticSample zone start step points j) = s"
    and "pt_hydro (realisticSample zone start step points j) = h"
    and "pt_gas (realisticSample zone start step points j) = g"
    and "pt_coal (realisticSample zone start step points j) = c"
    and "pt_biomass (realisticSample zone start step points j) = 0.06"
    and "pt_imports (realisticSample zone start step points j) = m"
    and "0.1 \<le> w" "w \<le> 0.7" "0 \<le> s" "s \<le> 0.12" "0.05 \<le> h" "h \<le> 0.11"
    and "0.01 \<le> c" "c \<le> 0.03" "- 1 \<le> K" "K \<le> 1"
    and "g = max 0.05 (min 0.6 (0.35 + 0.1 * K - (w + s - 0.3)))"
    and "m = max 0.02 (min 0.15 (1 - (w + s + h + g + c + 0.06)))"
proof -
  define hod where "hod = hourOfDay zone (addMinutes start (int j * step))"
  define w where "w = max 0.1 (min 0.8 (0.4 + sin ((2 * pi * (hod - 2)) / 24) * 0.3))"
  define sb where "sb = max 0 (sin ((pi * (hod - 6)) / 12))"
  define s where "s = max 0 (min 0.15 (0.12 * sb))"
  define h where "h = 0.08 + 0.03 * sin ((2 * pi * real j) / (points / 7))"
  define c where "c = 0.02 + 0.01 * sin ((2 * pi * real j) / (points / 3))"
  define K where "K = cos ((2 * pi * hod) / 24)"
  define g where "g = max 0.05 (min 0.6 (0.35 + 0.1 * K - (w + s - 0.3)))"
  define m where "m = max 0.02 (min 0.15 (1 - (w + s + h + g + c + 0.06)))"
  have eq: "pt_wind (realisticSample zone start step points j) = w"
    "pt_solar (realisticSample zone start step points j) = s"
    "pt_hydro (realisticSample zone start step points j) = h"
    "pt_gas (realisticSample zone start step points j) = g"
    "pt_coal (realisticSample zone start step points j) = c"
    "pt_biomass (realisticSample zone start step points j) = 0.06"
    "pt_imports (realisticSample zone start step points j) = m"
    unfolding realisticSample_def Let_def EirGridDataPoint.select_convs
      m_def g_def K_def c_def h_def s_def sb_def w_def hod_def
    by (rule refl)+
  have wb: "0.4 - 0.3 \<le> 0.4 + sin ((2 * pi * (hod - 2)) / 24) * 0.3"
      "0.4 + sin ((2 * pi * (hod - 2)) / 24) * 0.3 \<le> 0.4 + 0.3"
    by (rule sin_band', simp)+
  have "0.4 - 0.3 \<le> w" "w \<le> 0.4 + 0.3"
    unfolding w_def clamp_def [symmetric] by (rule clamp_between [OF _ _ wb]; simp)+
  then have w: "0.1 \<le> w" "w \<le> 0.7" by simp_all
  have "0 \<le> sb" "sb \<le> 1"
    unfolding sb_def by simp_all
  then have sv: "0 \<le> 0.12 * sb" "0.12 * sb \<le> 0.12" by simp_all
  have s: "0 \<le> s" "s \<le> 0.12"
    unfolding s_def clamp_def [symmetric] by (rule clamp_between [OF _ _ sv]; simp)+
  have hb: "0.08 - 0.03 \<le> h" "h \<le> 0.08 + 0.03"
    unfolding h_def by (rule sin_band, simp)+
  then have h: "0.05 \<le> h" "h \<le> 0.11" by simp_all
  have cb: "0.02 - 0.01 \<le> c" "c \<le> 0.02 + 0.01"
    unfolding c_def by (rule sin_band, simp)+
  then have c: "0.01 \<le> c" "c \<le> 0.03" by simp_all
  have K: "- 1 \<le> K" "K \<le> 1"
    unfolding K_def by simp_all
  from eq w s h c K g_def m_def show ?thesis by (rule that)
qed

lemma mock_published_wind:
  "0.1 \<le> wind (normalizeMix (mockRaw hod points i))
   \<and> wind (normalizeMix (mockRaw hod points i)) \<le> 0.75"
proof -
  obtain w s h c K g m where
    eq: "mockRaw hod points i =
       \<lparr>p_wind = Some w, p_solar = Some s, p_hydro = Some h, p_gas = Some g, p_coal = Some c,
        p_biomass = Some 0.05, p_imports = Some m\<rparr>"
    and b: "0.15 \<le> w" "w \<le> 0.55" "0 \<le> s" "s \<le> 0.18" "0.03 \<le> h" "h \<le> 0.07"
      "0.03 \<le> c" "c \<le> 0.05" "- 1 \<le> K" "K \<le> 1"
      "g = clamp (0.4 + 0.1 * K - (w + s - 0.3)) 0.05 0.7"
      "m = clamp (1 - (w + s + h + g + c + 0.05)) 0.02 0.2"
    by (rule mockRaw_shape)
  note a = mock_band_arith [OF b]
  have t: "rawTotal (mockRaw hod points i) = w + s + h + g + c + 0.05 + m"
    unfolding eq rawTotal_def by simp
  have pos: "0 < rawTotal (mockRaw hod points i)"
    unfolding t by (rule a(1))
  have "wind (normalizeMix (mockRaw hod points i)) = w / (w + s + h + g + c + 0.05 + m)"
    unfolding normalizeMix_divide [OF pos] t unfolding eq by simp
  with a(2,3) show ?thesis by simp
qed

lemma realistic_published:
  fixes P :: EirGridDataPoint
  assumes P: "P = realisticSample zone start step points j"
  defines "raw \<equiv> \<lparr>p_wind = Some (pt_wind P), p_solar = Some (pt_solar P),
                 p_hydro = Some (pt_hydro P), p_gas = Some (pt_gas P),
                 p_coal = Some (pt_coal P), p_biomass = Some (pt_biomass P),
                 p_imports = Some (pt_imports P)\<rparr>"
  shows "0 < rawTotal raw"
    and "0.1 \<le> wind (normalizeMix raw)" and "wind (normalizeMix raw) \<le> 0.8"
proof -
  obtain w s h c K g m where
    eq: "pt_wind (realisticSample zone start step points j) = w"
      "pt_solar (realisticSample zone start step points j) = s"
      "pt_hydro (realisticSample zone start step points j) = h"
      "pt_gas (realisticSample zone start step points j) = g"
      "pt_coal (realisticSample zone start step points j) = c"
      "pt_biomass (realisticSample zone start step points j) = 0.06"
      "pt_imports (realisticSample zone start step points j) = m"
    and b: "0.1 \<le> w" "w \<le> 0.7" "0 \<le> s" "s \<le> 0.12" "0.05 \<le> h" "h \<le> 0.11"
      "0.01 \<le> c" "c \<le> 0.03" "- 1 \<le> K" "K \<le> 1"
      "g = max 0.05 (min 0.6 (0.35 + 0.1 * K - (w + s - 0.3)))"
      "m = max 0.02 (min 0.15 (1 - (w + s + h + g + c + 0.06)))"
    by (rule realisticSample_shape)
  note a = realistic_band_arith [OF b]
  have r: "raw = \<lparr>p_wind = Some w, p_solar = Some s, p_hydro = Some h, p_gas = Some g,
      p_coal = Some c, p_biomass = Some 0.06, p_imports = Some m\<rparr>"
    unfolding raw_def P eq by (rule refl)
  have t: "rawTotal raw = w + s + h + g + c + 0.06 + m"
    unfolding r rawTotal_def by simp
  show pos: "0 < rawTotal raw"
    unfolding t by (rule a(1))
  have "wind (normalizeMix raw) = w / (w + s + h + g + c + 0.06 + m)"
    unfolding normalizeMix_divide [OF pos] t unfolding r by simp
  with a(2,3) show "0.1 \<le> wind (normalizeMix raw)" and "wind (normalizeMix raw) \<le> 0.8"
    by simp_all
qed


lemma realistic_generation_point:
  assumes "p \<in> set (generation (eirgridLoop (generateRealisticIrishData zone now rng)
      \<lparr>intensity = [], generation = []\<rparr>))"
  obtains P j where
    "P = realisticSample zone (subHours now (totalHours rng)) (stepMinutes rng)
       (real_of_int (totalHours rng * 60) / real_of_int (stepMinutes rng)) j"
    and "gm_timestamp p = parseDate (pt_timestamp P)"
    and "mix p = normalizeMix
          \<lparr>p_wind = Some (pt_wind P), p_solar = Some (pt_solar P),
           p_hydro = Some (pt_hydro P), p_gas = Some (pt_gas P),
           p_coal = Some (pt_coal P), p_biomass = Some (pt_biomass P),
           p_imports = Some (pt_imports P)\<rparr>"
proof -
  from assms obtain P where
    P: "P \<in> set (generateRealisticIrishData zone now rng)"
    and p: "p = \<lparr>gm_timestamp = parseDate (pt_timestamp P),
             mix = eirgrid_normalizeMix
                \<lparr>p_wind = Some (pt_wind P), p_solar = Some (pt_solar P),
                 p_hydro = Some (pt_hydro P), p_gas = Some (pt_gas P),
                 p_coal = Some (pt_coal P), p_biomass = Some (pt_biomass P),
                 p_imports = Some (pt_imports P)\<rparr>\<rparr>"
    unfolding eirgridLoop_eq by auto
  from P obtain j where
    j: "P = realisticSample zone (subHours now (totalHours rng)) (stepMinutes rng)
       (real_of_int (totalHours rng * 60) / real_of_int (stepMinutes rng)) j"
    unfolding generateRealisticIrishData_eq by auto
  show ?thesis
    using j by (rule that) (simp_all add: p eirgrid_normalizeMix_eq)
qed

lemma realistic_published_wind:
  assumes "p \<in> set (generation (eirgridLoop (generateRealisticIrishData zone now rng)
      \<lparr>intensity = [], generation = []\<rparr>))"
  shows "0.1 \<le> wind (mix p) \<and> wind (mix p) \<le> 0.8"
proof -
  from assms obtain P j where
    P: "P = realisticSample zone (subHours now (totalHours rng)) (stepMinutes rng)
       (real_of_int (totalHours rng * 60) / real_of_int (stepMinutes rng)) j"
    and m: "mix p = normalizeMix
          \<lparr>p_wind = Some (pt_wind P), p_solar = Some (pt_solar P),
           p_hydro = Some (pt_hydro P), p_gas = Some (pt_gas P),
           p_coal = Some (pt_coal P), p_biomass = Some (pt_biomass P),
           p_imports = Some (pt_imports P)\<rparr>"
    by (rule realistic_generation_point)
  show ?thesis
    unfolding m using realistic_published(2,3) [OF P] by (rule conjI)
qed

lemma realistic_published_solar_zero:
  assumes "p \<in> set (generation (eirgridLoop (generateRealisticIrishData zone now rng)
      \<lparr>intensity = [], generation = []\<rparr>))"
    and "hourOfDay zone (gm_timestamp p) < 6 \<or> 18 < hourOfDay zone (gm_timestamp p)"
  shows "solar (mix p) = 0"
proof -
  from assms(1) obtain P j where
    P: "P = realisticSample zone (subHours now (totalHours rng)) (stepMinutes rng)
       (real_of_int (totalHours rng * 60) / real_of_int (stepMinutes rng)) j"
    and t: "gm_timestamp p = parseDate (pt_timestamp P)"
    and m: "mix p = normalizeMix
          \<lparr>p_wind = Some (pt_wind P), p_solar = Some (pt_solar P),
           p_hydro = Some (pt_hydro P), p_gas = Some (pt_gas P),
           p_coal = Some (pt_coal P), p_biomass = Some (pt_biomass P),
           p_imports = Some (pt_imports P)\<rparr>"
    by (rule realistic_generation_point)
  have "pt_solar P = 0"
    using assms(2) unfolding t P by (rule realisticSample_solar_zero)
  then show ?thesis
    unfolding m by (intro normalizeMix_solar_zero realistic_published(1) [OF P]) simp
qed

lemma mock_generation_point:
  assumes "p \<in> set (generation (generateMockSeries zone now rng))"
  obtains hod points j where "mix p = normalizeMix (mockRaw hod points j)"
proof -
  from assms obtain j where
    "p = snd (mockSample zone (subHours now (totalHours rng)) (stepMinutes rng)
          (real_of_int (totalHours rng * 60) / real_of_int (stepMinutes rng)) j)"
    unfolding generateMockSeries_eq by auto
  then have "mix p = normalizeMix (mockRaw
      (hourOfDay zone (addMinutes (subHours now (totalHours rng)) (int j * stepMinutes rng)))
      (real_of_int (totalHours rng * 60) / real_of_int (stepMinutes rng)) j)"
    by (simp add: mockSample_snd)
  then show ?thesis by (rule that)
qed

text \<open>
  Claim C5. In both generators the raw solar share of a sample is exactly 0 whenever the
  fractional hour of day of the sample is below 6 or above 18: for the raw mix of any mock
  sample and for every data point the realistic generator returns. The share published
  after normalisation is 0 at those hours as well, in the mock series and in the series
  derived from the realistic data points.
\<close>

theorem solar_zero_outside_daylight:
  "(hourOfDay zone t < 6 \<or> 18 < hourOfDay zone t \<longrightarrow>
      p_solar (mockRaw (hourOfDay zone t) points i) = Some 0)
   \<and> (\<forall>p \<in> set (generation (generateMockSeries zone now rng)).
        hourOfDay zone (gm_timestamp p) < 6 \<or> 18 < hourOfDay zone (gm_timestamp p) \<longrightarrow>
        solar (mix p) = 0)
   \<and> (\<forall>p \<in> set (generateRealisticIrishData zone now rng).
        hourOfDay zone (parseDate (pt_timestamp p)) < 6
          \<or> 18 < hourOfDay zone (parseDate (pt_timestamp p)) \<longrightarrow>
        pt_solar p = 0)
   \<and> (\<exists>s. fetchRealEirGridData zone now rng = Inr s
        \<and> (\<forall>p \<in> set (generation s).
             hourOfDay zone (gm_timestamp p) < 6 \<or> 18 < hourOfDay zone (gm_timestamp p) \<longrightarrow>
             solar (mix p) = 0))"
proof (intro conjI)
  show "hourOfDay zone t < 6 \<or> 18 < hourOfDay zone t \<longrightarrow>
      p_solar (mockRaw (hourOfDay zone t) points i) = Some 0"
    using hourOfDay_bounds [of zone t] by (intro impI mockRaw_solar_zero) simp_all
  show "\<forall>p \<in> set (generation (generateMockSeries zone now rng)).
        hourOfDay zone (gm_timestamp p) < 6 \<or> 18 < hourOfDay zone (gm_timestamp p) \<longrightarrow>
        solar (mix p) = 0"
    by (intro ballI impI) (rule mock_published_solar_zero)
  show "\<forall>p \<in> set (generateRealisticIrishData zone now rng).
        hourOfDay zone (parseDate (pt_timestamp p)) < 6
          \<or> 18 < hourOfDay zone (parseDate (pt_timestamp p)) \<longrightarrow>
        pt_solar p = 0"
    by (intro ballI impI) (rule realistic_solar_zero)
  show "\<exists>s. fetchRealEirGridData zone now rng = Inr s
        \<and> (\<forall>p \<in> set (generation s).
             hourOfDay zone (gm_timestamp p) < 6 \<or> 18 < hourOfDay zone (gm_timestamp p) \<longrightarrow>
             solar (mix p) = 0)"
  proof (intro exI conjI)
    show "fetchRealEirGridData zone now rng =
        Inr (eirgridLoop (generateRealisticIrishData zone now rng)
          \<lparr>intensity = [], generation = []\<rparr>)"
      by (rule fetchRealEirGridData_eq)
    show "\<forall>p \<in> set (generation (eirgridLoop (generateRealisticIrishData zone now rng)
          \<lparr>intensity = [], generation = []\<rparr>)).
        hourOfDay zone (gm_timestamp p) < 6 \<or> 18 < hourOfDay zone (gm_timestamp p) \<longrightarrow>
        solar (mix p) = 0"
      by (intro ballI impI) (rule realistic_published_solar_zero)
  qed
qed

text \<open>
  Claim C6. The raw wind share of every sample stays within the clamp band of its
  generator: between 0.1 and 0.75 in the mock generator, for any hour of day and any
  index, and between 0.1 and 0.8 for every data point of the realistic generator. The
  wind share published after normalisation stays within the same band, in the mock series
  and in the series derived from the realistic data points.
\<close>

theorem wind_within_band:
  "(\<exists>w. p_wind (mockRaw hod points i) = Some w \<and> 0.1 \<le> w \<and> w \<le> 0.75)
   \<and> (\<forall>p \<in> set (generateRealisticIrishData zone now rng).
         0.1 \<le> pt_wind p \<and> pt_wind p \<le> 0.8)
   \<and> (\<forall>p \<in> set (generation (generateMockSeries zone now rng)).
         0.1 \<le> wind (mix p) \<and> wind (mix p) \<le> 0.75)
   \<and> (\<exists>s. fetchRealEirGridData zone now rng = Inr s
         \<and> (\<forall>p \<in> set (generation s). 0.1 \<le> wind (mix p) \<and> wind (mix p) \<le> 0.8))"
proof -
  have a: "\<exists>w. p_wind (mockRaw hod points i) = Some w \<and> 0.1 \<le> w \<and> w \<le> 0.75"
  proof -
    let ?w = "clamp (0.35 + 0.2 * sin ((2 * pi * (hod - 3)) / 24)) 0.1 0.75"
    have "0.1 \<le> ?w" by (rule clamp_lower)
    moreover have "?w \<le> 0.75" by (rule clamp_upper) simp
    moreover have "p_wind (mockRaw hod points i) = Some ?w" by (rule mockRaw_wind)
    ultimately show ?thesis by blast
  qed
  have b: "\<forall>p \<in> set (generateRealisticIrishData zone now rng).
         0.1 \<le> pt_wind p \<and> pt_wind p \<le> 0.8"
    by (intro ballI) (rule realistic_wind_band)
  have c: "\<forall>p \<in> set (generation (generateMockSeries zone now rng)).
         0.1 \<le> wind (mix p) \<and> wind (mix p) \<le> 0.75"
  proof
    fix p assume "p \<in> set (generation (generateMockSeries zone now rng))"
    then obtain h q j where "mix p = normalizeMix (mockRaw h q j)"
      by (rule mock_generation_point)
    then show "0.1 \<le> wind (mix p) \<and> wind (mix p) \<le> 0.75"
      by (simp only: mock_published_wind)
  qed
  have d: "\<exists>s. fetchRealEirGridData zone now rng = Inr s
         \<and> (\<forall>p \<in> set (generation s). 0.1 \<le> wind (mix p) \<and> wind (mix p) \<le> 0.8)"
  proof (intro exI conjI)
    show "fetchRealEirGridData zone now rng =
        Inr (eirgridLoop (generateRealisticIrishData zone now rng)
          \<lparr>intensity = [], generation = []\<rparr>)"
      by (rule fetchRealEirGridData_eq)
    show "\<forall>p \<in> set (generation (eirgridLoop (generateRealisticIrishData zone now rng)
          \<lparr>intensity = [], generation = []\<rparr>)).
        0.1 \<le> wind (mix p) \<and> wind (mix p) \<le> 0.8"
      by (intro ballI) (rule realistic_published_wind)
  qed
  from a b c d show ?thesis by blast
qed


lemma covers_first:
  assumes "covers now rng (map f xs)"
  shows "xs ! 0 \<in> set xs \<and> f (xs ! 0) = now - totalHours rng * 3600000"
proof -
  from assms have "real (length xs)
      = real_of_int (totalHours rng * 60) / real_of_int (stepMinutes rng) + 1"
    by (simp add: covers_def)
  moreover have "0 \<le> real_of_int (totalHours rng * 60) / real_of_int (stepMinutes rng)"
    using range_cases [of rng] by (auto simp: totalHours_def stepMinutes_def)
  ultimately have len: "0 < length xs" by (cases "length xs") simp_all
  from assms have "map f xs ! 0 = now - totalHours rng * 3600000"
    by (simp add: covers_def)
  with len show ?thesis by (simp add: nth_map)
qed

lemma eirgrid_first_point:
  assumes "fetchRealEirGridData zone now rng = Inr s"
  shows "generation s ! 0 \<in> set (generation s)
    \<and> gm_timestamp (generation s ! 0) = now - totalHours rng * 3600000"
proof -
  from assms have s: "s = eirgridLoop (generateRealisticIrishData zone now rng)
      \<lparr>intensity = [], generation = []\<rparr>"
    by (simp add: fetchRealEirGridData_eq)
  have "covers now rng (map gm_timestamp (generation s))"
    unfolding s by (simp only: eirgrid_generation_times realistic_times covers_sampleTimes)
  then show ?thesis by (rule covers_first)
qed

theorem solar_zero_outside_daylight_witness:
  "hourOfDay (\<lambda>t. 0) 0 < 6
   \<and> p_solar (mockRaw (hourOfDay (\<lambda>t. 0) 0) 96 0) = Some 0
   \<and> generation (generateMockSeries (\<lambda>t. 0) 0 R24h) ! 0
        \<in> set (generation (generateMockSeries (\<lambda>t. 0) 0 R24h))
   \<and> hourOfDay (\<lambda>t. 0) (gm_timestamp (generation (generateMockSeries (\<lambda>t. 0) 0 R24h) ! 0)) < 6
   \<and> solar (mix (generation (generateMockSeries (\<lambda>t. 0) 0 R24h) ! 0)) = 0
   \<and> generateRealisticIrishData (\<lambda>t. 0) 0 R24h ! 0
        \<in> set (generateRealisticIrishData (\<lambda>t. 0) 0 R24h)
   \<and> hourOfDay (\<lambda>t. 0)
        (parseDate (pt_timestamp (generateRealisticIrishData (\<lambda>t. 0) 0 R24h ! 0))) < 6
   \<and> pt_solar (generateRealisticIrishData (\<lambda>t. 0) 0 R24h ! 0) = 0
   \<and> (\<exists>s. fetchRealEirGridData (\<lambda>t. 0) 0 R24h = Inr s
        \<and> generation s ! 0 \<in> set (generation s)
        \<and> hourOfDay (\<lambda>t. 0) (gm_timestamp (generation s ! 0)) < 6
        \<and> solar (mix (generation s ! 0)) = 0)"
proof -
  note t = solar_zero_outside_daylight [of "\<lambda>t. 0" 0 96 0 0 R24h]
  have h0: "hourOfDay (\<lambda>t. 0) 0 < 6"
    by (simp add: hourOfDay_epoch)
  have m: "generation (generateMockSeries (\<lambda>t. 0) 0 R24h) ! 0
        \<in> set (generation (generateMockSeries (\<lambda>t. 0) 0 R24h))"
    and mh: "hourOfDay (\<lambda>t. 0)
        (gm_timestamp (generation (generateMockSeries (\<lambda>t. 0) 0 R24h) ! 0)) < 6"
    using mock_first_point [of "\<lambda>t. 0" 0 R24h]
    by (simp_all add: totalHours_def hourOfDay_day_before)
  have r: "generateRealisticIrishData (\<lambda>t. 0) 0 R24h ! 0
        \<in> set (generateRealisticIrishData (\<lambda>t. 0) 0 R24h)"
    and rh: "hourOfDay (\<lambda>t. 0)
        (parseDate (pt_timestamp (generateRealisticIrishData (\<lambda>t. 0) 0 R24h ! 0))) < 6"
    using realistic_first_point [of "\<lambda>t. 0" 0 R24h]
    by (simp_all add: totalHours_def hourOfDay_day_before)
  from t h0 have a: "p_solar (mockRaw (hourOfDay (\<lambda>t. 0) 0) 96 0) = Some 0"
    by blast
  from t m mh have b: "solar (mix (generation (generateMockSeries (\<lambda>t. 0) 0 R24h) ! 0)) = 0"
    by blast
  from t r rh have c: "pt_solar (generateRealisticIrishData (\<lambda>t. 0) 0 R24h ! 0) = 0"
    by blast
  from t obtain s where s: "fetchRealEirGridData (\<lambda>t. 0) 0 R24h = Inr s"
    and all: "\<forall>p \<in> set (generation s).
      hourOfDay (\<lambda>t. 0) (gm_timestamp p) < 6 \<or> 18 < hourOfDay (\<lambda>t. 0) (gm_timestamp p) \<longrightarrow>
      solar (mix p) = 0"
    by blast
  have e: "generation s ! 0 \<in> set (generation s)"
    and eh: "hourOfDay (\<lambda>t. 0) (gm_timestamp (generation s ! 0)) < 6"
    using eirgrid_first_point [OF s]
    by (simp_all add: totalHours_def hourOfDay_day_before)
  from all e eh have d: "solar (mix (generation s ! 0)) = 0"
    by blast
  from s e eh d have "\<exists>s. fetchRealEirGridData (\<lambda>t. 0) 0 R24h = Inr s
        \<and> generation s ! 0 \<in> set (generation s)
        \<and> hourOfDay (\<lambda>t. 0) (gm_timestamp (generation s ! 0)) < 6
        \<and> solar (mix (generation s ! 0)) = 0"
    by blast
  with h0 a m mh b r rh c show ?thesis by blast
qed

theorem wind_within_band_witness:
  "generateRealisticIrishData (\<lambda>t. 0) 0 R24h ! 0
        \<in> set (generateRealisticIrishData (\<lambda>t. 0) 0 R24h)
   \<and> 0.1 \<le> pt_wind (generateRealisticIrishData (\<lambda>t. 0) 0 R24h ! 0)
   \<and> pt_wind (generateRealisticIrishData (\<lambda>t. 0) 0 R24h ! 0) \<le> 0.8
   \<and> (\<exists>w. p_wind (mockRaw 0 96 0) = Some w \<and> 0.1 \<le> w \<and> w \<le> 0.75)
   \<and> generation (generateMockSeries (\<lambda>t. 0) 0 R24h) ! 0
        \<in> set (generation (generateMockSeries (\<lambda>t. 0) 0 R24h))
   \<and> 0.1 \<le> wind (mix (generation (generateMockSeries (\<lambda>t. 0) 0 R24h) ! 0))
   \<and> wind (mix (generation (generateMockSeries (\<lambda>t. 0) 0 R24h) ! 0)) \<le> 0.75
   \<and> (\<exists>s. fetchRealEirGridData (\<lambda>t. 0) 0 R24h = Inr s
        \<and> generation s ! 0 \<in> set (generation s)
        \<and> 0.1 \<le> wind (mix (generation s ! 0))
        \<and> wind (mix (generation s ! 0)) \<le> 0.8)"
proof -
  note t = wind_within_band [of 0 96 0 "\<lambda>t. 0" 0 R24h]
  have r: "generateRealisticIrishData (\<lambda>t. 0) 0 R24h ! 0
        \<in> set (generateRealisticIrishData (\<lambda>t. 0) 0 R24h)"
    using realistic_first_point [of "\<lambda>t. 0" 0 R24h] by blast
  have m: "generation (generateMockSeries (\<lambda>t. 0) 0 R24h) ! 0
        \<in> set (generation (generateMockSeries (\<lambda>t. 0) 0 R24h))"
    using mock_first_point [of "\<lambda>t. 0" 0 R24h] by blast
  from t obtain s where s: "fetchRealEirGridData (\<lambda>t. 0) 0 R24h = Inr s"
    and all: "\<forall>p \<in> set (generation s). 0.1 \<le> wind (mix p) \<and> wind (mix p) \<le> 0.8"
    by blast
  have e: "generation s ! 0 \<in> set (generation s)"
    using eirgrid_first_point [OF s] by blast
  from s all e have "\<exists>s. fetchRealEirGridData (\<lambda>t. 0) 0 R24h = Inr s
        \<and> generation s ! 0 \<in> set (generation s)
        \<and> 0.1 \<le> wind (mix (generation s ! 0))
        \<and> wind (mix (generation s ! 0)) \<le> 0.8"
    by blast
  with t r m show ?thesis by blast
qed

section \<open>Provider variants: the series\<close>







section \<open>Binary64 arithmetic: rounding\<close>

text \<open>
  Rounding moves a real by at most half the spacing of the doubles around it: a relative
  error of at most \<open>2^-53\<close> in the normal range, an absolute error of at most \<open>2^-1075\<close> below
  it. A rounded value is a double, and rounding a double leaves it as it is.
\<close>

lemma rne_error: "\<bar>of_int (rne y) - y\<bar> \<le> 1 / 2"
proof -
  have "of_int \<lfloor>y\<rfloor> \<le> y" "y < of_int \<lfloor>y\<rfloor> + 1" by linarith+
  then show ?thesis
    by (auto simp: rne_def Let_def)
qed

lemma rne_of_int [simp]: "rne (of_int m) = m"
  by (simp add: rne_def)

lemma rne_nonneg: "0 \<le> y \<Longrightarrow> 0 \<le> rne y"
  by (auto simp: rne_def Let_def)

lemma rne_le: "y \<le> of_int N \<Longrightarrow> rne y \<le> N"
  using rne_error [of y] by linarith

lemma rne_ge: "of_int N \<le> y \<Longrightarrow> N \<le> rne y"
  using rne_error [of y] by linarith

lemma ulp_pos: "0 < ulp x"
  by (simp add: ulp_def)

lemma rnd_error: "\<bar>rnd x - x\<bar> \<le> ulp x / 2"
proof -
  have "\<bar>of_int (rne (x / ulp x)) - x / ulp x\<bar> * ulp x \<le> 1 / 2 * ulp x"
    using rne_error [of "x / ulp x"] ulp_pos [of x] by (intro mult_right_mono) simp_all
  moreover have "\<bar>of_int (rne (x / ulp x)) - x / ulp x\<bar> * ulp x = \<bar>rnd x - x\<bar>"
  proof -
    have "(of_int (rne (x / ulp x)) - x / ulp x) * ulp x = rnd x - x"
      using ulp_pos [of x] by (simp add: rnd_def left_diff_distrib)
    then have "\<bar>rnd x - x\<bar> = \<bar>(of_int (rne (x / ulp x)) - x / ulp x) * ulp x\<bar>" by simp
    also have "\<dots> = \<bar>of_int (rne (x / ulp x)) - x / ulp x\<bar> * ulp x"
      using ulp_pos [of x] by (simp add: abs_mult)
    finally show ?thesis by simp
  qed
  ultimately show ?thesis by simp
qed

lemma rnd_nonneg: "0 \<le> x \<Longrightarrow> 0 \<le> rnd x"
  using ulp_pos [of x] rne_nonneg [of "x / ulp x"] by (simp add: rnd_def)

lemma rnd_zero [simp]: "rnd 0 = 0"
  using rne_of_int [of 0] by (simp add: rnd_def)

text \<open>The exponent of a nonzero real.\<close>

lemma expo_bounds:
  assumes "x \<noteq> 0"
  shows "2 powr of_int (expo x) \<le> \<bar>x\<bar>" and "\<bar>x\<bar> < 2 powr (of_int (expo x) + 1)"
  using assms floor_log_eq_powr_iff [of "\<bar>x\<bar>" 2 "expo x"] by (simp_all add: expo_def)

lemma expo_eq:
  assumes "2 powr of_int e \<le> \<bar>x\<bar>" and "\<bar>x\<bar> < 2 powr (of_int e + 1)"
  shows "expo x = e"
proof -
  have "0 < \<bar>x\<bar>" using assms(1) powr_gt_zero [of 2 "of_int e"] by linarith
  then show ?thesis
    using assms floor_log_eq_powr_iff [of "\<bar>x\<bar>" 2 e] by (simp add: expo_def)
qed

text \<open>Unit roundoff.\<close>

lemma ulp_normal:
  assumes "2 powr (- 1022) \<le> \<bar>x\<bar>"
  shows "ulp x / 2 \<le> \<bar>x\<bar> / 2 ^ 53"
proof -
  have nz: "x \<noteq> 0" using assms powr_gt_zero [of 2 "- 1022"] by auto
  have "(2::real) powr (- 1022) < 2 powr (of_int (expo x) + 1)"
    using assms expo_bounds(2) [OF nz] by linarith
  then have "- 1022 < of_int (expo x) + (1::real)" by simp
  then have "- 1022 \<le> expo x" by linarith
  then have "ulp x = 2 powr (of_int (expo x) - 52)"
    by (simp add: ulp_def max_def)
  also have "\<dots> = 2 powr of_int (expo x) / 2 ^ 52"
    by (simp add: powr_diff)
  finally have "ulp x / 2 = 2 powr of_int (expo x) / 2 ^ 53" by simp
  also have "\<dots> \<le> \<bar>x\<bar> / 2 ^ 53"
    using expo_bounds(1) [OF nz] by (intro divide_right_mono) simp_all
  finally show ?thesis .
qed

lemma ulp_subnormal:
  assumes "\<bar>x\<bar> < 2 powr (- 1022)" and "x \<noteq> 0"
  shows "ulp x = 2 powr (- 1074)"
proof -
  have "2 powr of_int (expo x) < (2::real) powr (- 1022)"
    using assms(1) expo_bounds(1) [OF assms(2)] by linarith
  then have "of_int (expo x) < (- 1022 :: real)" by simp
  then have "expo x < - 1022" by linarith
  then show ?thesis by (simp add: ulp_def max_def)
qed

text \<open>The error of rounding: relative in the normal range, absolute below it.\<close>

lemma rnd_error_rel:
  assumes "2 powr (- 1022) \<le> \<bar>x\<bar>"
  shows "\<bar>rnd x - x\<bar> \<le> \<bar>x\<bar> / 2 ^ 53"
  using rnd_error [of x] ulp_normal [OF assms] by linarith

lemma rnd_error_abs:
  assumes "\<bar>x\<bar> < 2 powr (- 1022)"
  shows "\<bar>rnd x - x\<bar> \<le> 2 powr (- 1075)"
proof (cases "x = 0")
  case True
  then show ?thesis by simp
next
  case False
  have "(2::real) powr (- 1074) / 2 = 2 powr (- 1075)"
    using powr_diff [of "2::real" "- 1074" 1] by simp
  then show ?thesis
    using rnd_error [of x] ulp_subnormal [OF assms False] by simp
qed

lemma rnd_error_mixed: "\<bar>rnd x - x\<bar> \<le> \<bar>x\<bar> / 2 ^ 53 + 2 powr (- 1075)"
proof (cases "2 powr (- 1022) \<le> \<bar>x\<bar>")
  case True
  have "0 \<le> (2::real) powr (- 1075)" by simp
  with rnd_error_rel [OF True] show ?thesis by linarith
next
  case False
  then have "\<bar>x\<bar> < 2 powr (- 1022)" by simp
  from rnd_error_abs [OF this] show ?thesis
    by (smt (verit) divide_nonneg_pos abs_ge_zero zero_less_power zero_less_numeral)
qed

lemma onGrid_rnd: "onGrid (rnd x)"
proof -
  define k where "k = max (expo x) (- 1022) - 52"
  have k: "- 1074 \<le> k" by (simp add: k_def)
  have "(2::real) powr of_int k = 2 powr (of_int (k + 1074) + (- 1074))"
    by simp
  also have "\<dots> = 2 powr of_int (k + 1074) * 2 powr (- 1074)"
    by (simp only: powr_add)
  also have "2 powr of_int (k + 1074) = (2::real) ^ nat (k + 1074)"
    by (subst powr_real_of_int) (use k in auto)
  finally have "(2::real) powr of_int k = of_int (2 ^ nat (k + 1074)) * 2 powr (- 1074)"
    by simp
  then have "rnd x = of_int (rne (x / ulp x) * 2 ^ nat (k + 1074)) * 2 powr (- 1074)"
    by (simp add: rnd_def ulp_def k_def)
  then show ?thesis unfolding onGrid_def by blast
qed

lemma rnd_exact_subnormal:
  assumes "onGrid x" and "\<bar>x\<bar> < 2 powr (- 1022)"
  shows "rnd x = x"
proof (cases "x = 0")
  case True
  then show ?thesis by simp
next
  case False
  from assms(1) obtain m :: int where m: "x = of_int m * 2 powr (- 1074)"
    unfolding onGrid_def by blast
  have u: "ulp x = 2 powr (- 1074)" by (rule ulp_subnormal [OF assms(2) False])
  have "x / ulp x = x / 2 powr (- 1074)" by (simp only: u)
  also have "\<dots> = of_int m" by (simp add: m)
  finally have "rne (x / ulp x) = m" by simp
  then have "rnd x = of_int m * 2 powr (- 1074)"
    unfolding rnd_def by (simp only: u)
  then show ?thesis by (simp only: m)
qed

lemma onGrid_add: "onGrid a \<Longrightarrow> onGrid b \<Longrightarrow> onGrid (a + b)"
  unfolding onGrid_def
  by (metis (no_types, opaque_lifting) distrib_right of_int_add)

lemma onGrid_zero [simp]: "onGrid 0"
  unfolding onGrid_def by (rule exI [of _ 0]) simp

text \<open>Adding two doubles that are not negative: the relative error is at most \<open>2^-53\<close>.\<close>

lemma rnd_add_rel:
  assumes "onGrid a" "onGrid b"
  shows "\<bar>rnd (a + b) - (a + b)\<bar> \<le> \<bar>a + b\<bar> / 2 ^ 53"
proof (cases "2 powr (- 1022) \<le> \<bar>a + b\<bar>")
  case True
  then show ?thesis by (rule rnd_error_rel)
next
  case False
  then have "rnd (a + b) = a + b"
    using onGrid_add [OF assms] by (intro rnd_exact_subnormal) simp_all
  then show ?thesis by simp
qed

text \<open>Evaluating a rounding once the binade of the argument is known.\<close>

lemma rnd_eval:
  assumes "2 powr of_int e \<le> \<bar>x\<bar>" and "\<bar>x\<bar> < 2 powr (of_int e + 1)" and "- 1022 \<le> e"
  shows "rnd x = of_int (rne (x / 2 powr of_int (e - 52))) * 2 powr of_int (e - 52)"
proof -
  have "expo x = e" using assms(1,2) by (rule expo_eq)
  then have "ulp x = 2 powr of_int (e - 52)"
    using assms(3) by (simp add: ulp_def max_def)
  then show ?thesis by (simp add: rnd_def)
qed

lemma rnd_exact:
  assumes "2 powr of_int e \<le> \<bar>x\<bar>" and "\<bar>x\<bar> < 2 powr (of_int e + 1)" and "- 1022 \<le> e"
    and "x / 2 powr of_int (e - 52) = of_int m"
  shows "rnd x = x"
proof -
  have "rnd x = of_int m * 2 powr of_int (e - 52)"
    unfolding rnd_eval [OF assms(1-3)] assms(4) by simp
  also have "\<dots> = x / 2 powr of_int (e - 52) * 2 powr of_int (e - 52)"
    by (simp only: assms(4))
  also have "\<dots> = x" by simp
  finally show ?thesis .
qed

lemma rnd_idem: "rnd (rnd x) = rnd x"
proof (cases "\<bar>rnd x\<bar> < 2 powr (- 1022)")
  case True
  then show ?thesis by (rule rnd_exact_subnormal [OF onGrid_rnd])
next
  case False
  then have big: "2 powr (- 1022) \<le> \<bar>rnd x\<bar>" by simp
  have nz: "x \<noteq> 0"
  proof
    assume "x = 0"
    with big have "(2::real) powr (- 1022) \<le> 0" by simp
    then show False using powr_gt_zero [of 2 "- 1022 :: real"] by linarith
  qed
  define E where "E = max (expo x) (- 1022)"
  define m where "m = rne (x / ulp x)"
  define p where "p = (2::real) powr of_int (E - 52)"
  have E: "- 1022 \<le> E" "expo x \<le> E" by (simp_all add: E_def)
  have u: "ulp x = p" by (simp add: ulp_def E_def p_def)
  have p0: "0 < p" by (simp add: p_def)
  have y: "rnd x = of_int m * p" by (simp add: rnd_def m_def u)
  have pE: "2 powr of_int E = 2 ^ 52 * p"
  proof -
    have "(2::real) powr of_int E = 2 powr (of_int (E - 52) + 52)" by simp
    also have "\<dots> = 2 powr of_int (E - 52) * 2 powr 52" by (simp only: powr_add)
    finally show ?thesis by (simp add: p_def)
  qed
  have pE1: "2 powr (of_int E + 1) = 2 ^ 53 * p"
    using pE by (simp add: powr_add)
  have "\<bar>x\<bar> < 2 powr (of_int (expo x) + 1)" by (rule expo_bounds(2) [OF nz])
  also have "\<dots> \<le> 2 powr (of_int E + 1)" using E(2) by (intro powr_mono) simp_all
  finally have xlt: "\<bar>x\<bar> < 2 ^ 53 * p" by (simp only: pE1)
  then have q: "\<bar>x / p\<bar> < 2 ^ 53" using p0 by (simp add: pos_divide_less_eq)
  from q have q': "x / p \<le> 2 ^ 53" "- (2 ^ 53) \<le> x / p" by linarith+
  from q'(1) have "x / p \<le> of_int (2 ^ 53)" by simp
  then have m_hi: "m \<le> 2 ^ 53"
    unfolding m_def u by (rule rne_le)
  from q'(2) have "of_int (- (2 ^ 53)) \<le> x / p" by simp
  then have m_lo: "- (2 ^ 53) \<le> m"
    unfolding m_def u by (rule rne_ge)
  have A: "2 powr of_int E \<le> \<bar>rnd x\<bar>"
  proof (cases "- 1022 \<le> expo x")
    case True
    then have EE: "E = expo x" by (simp add: E_def)
    have "2 ^ 52 * p \<le> \<bar>x\<bar>" using expo_bounds(1) [OF nz] pE EE by simp
    then have xq: "2 ^ 52 \<le> \<bar>x / p\<bar>" using p0 by (simp add: pos_le_divide_eq)
    have "2 ^ 52 \<le> \<bar>m\<bar>"
    proof (cases "0 \<le> x")
      case True
      then have "of_int (2 ^ 52) \<le> x / p" using xq p0 by simp
      then have "2 ^ 52 \<le> m" unfolding m_def u by (rule rne_ge)
      then show ?thesis by simp
    next
      case False
      then have "x / p \<le> of_int (- (2 ^ 52))" using xq p0 by (simp add: abs_if divide_less_0_iff split: if_splits)
      then have "m \<le> - (2 ^ 52)" unfolding m_def u by (rule rne_le)
      then show ?thesis by simp
    qed
    then have "2 ^ 52 \<le> \<bar>of_int m :: real\<bar>"
      by (metis of_int_abs of_int_le_iff of_int_numeral of_int_power)
    then have "2 ^ 52 * p \<le> \<bar>of_int m\<bar> * p" using p0 by (intro mult_right_mono) simp_all
    then show ?thesis using p0 by (simp add: y pE abs_mult)
  next
    case False
    then have "E = - 1022" by (simp add: E_def)
    with big show ?thesis by simp
  qed
  show ?thesis
  proof (cases "\<bar>m\<bar> = 2 ^ 53")
    case True
    then have am: "\<bar>of_int m :: real\<bar> = 2 ^ 53"
      by (metis of_int_abs of_int_numeral of_int_power)
    have ay: "\<bar>rnd x\<bar> = 2 powr (of_int E + 1)"
      using p0 by (simp add: y abs_mult am pE1)
    have "(2::real) powr (of_int E + 1) < 2 powr (of_int E + 1 + 1)"
      by (intro powr_less_mono) simp_all
    then have 1: "2 powr of_int (E + 1) \<le> \<bar>rnd x\<bar>" "\<bar>rnd x\<bar> < 2 powr (of_int (E + 1) + 1)"
      using ay by simp_all
    have "(2::real) powr of_int (E + 1 - 52) = 2 powr (of_int (E - 52) + 1)" by simp
    also have "\<dots> = 2 * p" by (simp only: powr_add p_def) simp
    finally have "rnd x / 2 powr of_int (E + 1 - 52) = of_int m / 2"
      using p0 by (simp add: y)
    moreover have "even \<bar>m\<bar>" unfolding True by simp
    then have "even m" by simp
    then obtain j where "m = 2 * j" by (elim evenE)
    ultimately have "rnd x / 2 powr of_int (E + 1 - 52) = of_int j" by simp
    with 1 show ?thesis using E(1) by (intro rnd_exact [of "E + 1" _ j]) simp_all
  next
    case False
    with m_hi m_lo have "\<bar>m\<bar> < 2 ^ 53" by linarith
    then have "\<bar>of_int m :: real\<bar> < 2 ^ 53"
      by (metis of_int_abs of_int_less_iff of_int_numeral of_int_power)
    then have "\<bar>of_int m\<bar> * p < 2 ^ 53 * p" using p0 by (intro mult_strict_right_mono) simp_all
    then have lt: "\<bar>rnd x\<bar> < 2 powr (of_int E + 1)" using p0 by (simp add: y abs_mult pE1)
    have "rnd x / 2 powr of_int (E - 52) = of_int m" using p0 by (simp add: y p_def)
    with A lt show ?thesis using E(1) by (intro rnd_exact [of E _ m]) simp_all
  qed
qed

lemma round64_finite:
  assumes "\<bar>x\<bar> \<le> 2 ^ 1023"
  shows "round64 x = Finite (rnd x)"
proof -
  have "(2::real) powr (- 1075) \<le> 2 powr 0" by (intro powr_mono) simp_all
  then have e: "(2::real) powr (- 1075) \<le> 1" by simp
  have "\<bar>rnd x\<bar> \<le> \<bar>x\<bar> + \<bar>rnd x - x\<bar>" by linarith
  also have "\<dots> \<le> \<bar>x\<bar> + (\<bar>x\<bar> / 2 ^ 53 + 2 powr (- 1075))"
    using rnd_error_mixed [of x] by linarith
  also have "\<dots> \<le> 2 ^ 1023 + (2 ^ 1023 / 2 ^ 53 + 1)"
    using assms e by (intro add_mono divide_right_mono) simp_all
  also have "\<dots> < 2 ^ 1024" by simp
  finally show ?thesis by (simp add: round64_def)
qed

lemma round64_nonneg_cases:
  assumes "0 \<le> x"
  shows "round64 x = Finite (rnd x) \<or> round64 x = PosInf"
proof (cases "x = 0")
  case True
  then show ?thesis by (simp add: round64_def)
next
  case False
  with assms have "0 < x" by simp
  then show ?thesis by (simp add: round64_def)
qed

lemma round64_zero: "round64 0 = Finite 0"
  by (simp add: round64_def)

lemma round64_exact: "isDouble x \<Longrightarrow> round64 x = Finite x"
  by (simp add: isDouble_def round64_def)

lemma isDouble_rnd: "\<bar>rnd x\<bar> < 2 ^ 1024 \<Longrightarrow> isDouble (rnd x)"
  by (simp add: isDouble_def rnd_idem)

lemma isDouble_onGrid: "isDouble x \<Longrightarrow> onGrid x"
  using onGrid_rnd [of x] by (simp add: isDouble_def)

lemma isDouble_eval:
  assumes "2 powr of_int e \<le> \<bar>x\<bar>" and "\<bar>x\<bar> < 2 powr (of_int e + 1)" and "- 1022 \<le> e"
    and "e \<le> 1023" and "x / 2 powr of_int (e - 52) = of_int m"
  shows "isDouble x"
proof -
  have "(2::real) powr (of_int e + 1) \<le> 2 powr 1024"
    using assms(4) by (intro powr_mono) simp_all
  then have "\<bar>x\<bar> < 2 ^ 1024" using assms(2) by simp
  with rnd_exact [OF assms(1,2,3,5)] show ?thesis by (simp add: isDouble_def)
qed

lemma isDouble_zero [simp]: "isDouble 0"
  by (simp add: isDouble_def)

lemma isDouble_examples:
  "isDouble 1" "isDouble 2" "isDouble 3" "isDouble 5" "isDouble (1 / 2)" "isDouble (1 / 4)"
  "isDouble (- 1)"
proof -
  show "isDouble 1" by (rule isDouble_eval [of 0 _ "2 ^ 52"]) (simp_all add: powr_minus_divide)
  show "isDouble 2" by (rule isDouble_eval [of 1 _ "2 ^ 52"]) (simp_all add: powr_minus_divide)
  show "isDouble 3"
    by (rule isDouble_eval [of 1 _ "3 * 2 ^ 51"]) (simp_all add: powr_minus_divide)
  show "isDouble 5"
    by (rule isDouble_eval [of 2 _ "5 * 2 ^ 50"]) (simp_all add: powr_minus_divide)
  show "isDouble (1 / 2)"
    by (rule isDouble_eval [of "- 1" _ "2 ^ 52"]) (simp_all add: powr_minus_divide)
  show "isDouble (1 / 4)"
    by (rule isDouble_eval [of "- 2" _ "2 ^ 52"]) (simp_all add: powr_minus_divide)
  show "isDouble (- 1)"
    by (rule isDouble_eval [of 0 _ "- (2 ^ 52)"]) (simp_all add: powr_minus_divide)
qed

section \<open>Binary64 arithmetic: sums of doubles that are not negative\<close>

text \<open>
  Accumulating \<open>n\<close> doubles that are not negative, left to right, gives either \<open>Infinity\<close>
  or the exact sum times a factor between \<open>(1 - 2^-53)^n\<close> and \<open>(1 + 2^-53)^n\<close>.
\<close>

lemma u53_bounds: "0 < u53" "u53 < 1"
  by (simp_all add: u53_def)

lemma rnd_add_bounds:
  assumes "onGrid a" "onGrid b" "0 \<le> a" "0 \<le> b"
  shows "(a + b) * (1 - u53) \<le> rnd (a + b)" and "rnd (a + b) \<le> (a + b) * (1 + u53)"
proof -
  have "\<bar>rnd (a + b) - (a + b)\<bar> \<le> (a + b) * u53"
    using rnd_add_rel [OF assms(1,2)] assms(3,4) by (simp add: u53_def)
  then have "(a + b) - (a + b) * u53 \<le> rnd (a + b)" "rnd (a + b) \<le> (a + b) + (a + b) * u53"
    by linarith+
  then show "(a + b) * (1 - u53) \<le> rnd (a + b)" and "rnd (a + b) \<le> (a + b) * (1 + u53)"
    by (simp_all only: right_diff_distrib distrib_left mult_1_right)
qed

lemma pow_minus_le_one: "(1 - u53) ^ n \<le> 1" and pow_minus_nonneg: "0 \<le> (1 - u53) ^ n"
  using u53_bounds by (simp_all add: power_le_one)

lemma pow_plus_ge_one: "1 \<le> (1 + u53) ^ n"
  using u53_bounds by (simp add: one_le_power)

lemma sum64_chain:
  assumes "\<forall>x \<in> set xs. 0 \<le> x \<and> onGrid x" and "0 \<le> a" and "onGrid a"
  shows "(\<exists>t. foldl add64 (Finite a) (map Finite xs) = Finite t \<and> onGrid t
            \<and> (a + sum_list xs) * (1 - u53) ^ length xs \<le> t
            \<and> t \<le> (a + sum_list xs) * (1 + u53) ^ length xs)
         \<or> foldl add64 (Finite a) (map Finite xs) = PosInf"
  using assms(1)
proof (induction xs rule: rev_induct)
  case Nil
  then show ?case using assms(2,3) by simp
next
  case (snoc x xs)
  let ?n = "length xs"
  let ?A = "a + sum_list xs"
  have x: "0 \<le> x" "onGrid x" using snoc.prems by simp_all
  have A: "0 \<le> ?A" using snoc.prems assms(2) by (simp add: sum_list_nonneg)
  from snoc.prems have "\<forall>x \<in> set xs. 0 \<le> x \<and> onGrid x" by simp
  from snoc.IH [OF this] show ?case
  proof
    assume "\<exists>t. foldl add64 (Finite a) (map Finite xs) = Finite t \<and> onGrid t
            \<and> ?A * (1 - u53) ^ ?n \<le> t \<and> t \<le> ?A * (1 + u53) ^ ?n"
    then obtain s where s: "foldl add64 (Finite a) (map Finite xs) = Finite s" "onGrid s"
      and lo: "?A * (1 - u53) ^ ?n \<le> s" and hi: "s \<le> ?A * (1 + u53) ^ ?n"
      by blast
    have s0: "0 \<le> s"
      using lo A pow_minus_nonneg [of ?n] by (meson mult_nonneg_nonneg order_trans)
    have step: "foldl add64 (Finite a) (map Finite (xs @ [x])) = round64 (s + x)"
      by (simp add: s(1))
    from round64_nonneg_cases [of "s + x"] s0 x(1)
    consider "round64 (s + x) = Finite (rnd (s + x))" | "round64 (s + x) = PosInf"
      by auto
    then show ?thesis
    proof cases
      case 1
      have lo1: "(?A + x) * (1 - u53) ^ ?n \<le> s + x"
      proof -
        have "x * (1 - u53) ^ ?n \<le> x * 1"
          using x(1) pow_minus_le_one [of ?n] by (intro mult_left_mono) simp_all
        with lo show ?thesis by (simp add: distrib_right)
      qed
      have hi1: "s + x \<le> (?A + x) * (1 + u53) ^ ?n"
      proof -
        have "x * 1 \<le> x * (1 + u53) ^ ?n"
          using x(1) pow_plus_ge_one [of ?n] by (intro mult_left_mono) simp_all
        with hi show ?thesis by (simp add: distrib_right)
      qed
      have "(?A + x) * (1 - u53) ^ ?n * (1 - u53) \<le> (s + x) * (1 - u53)"
        using lo1 u53_bounds by (intro mult_right_mono) simp_all
      also have "\<dots> \<le> rnd (s + x)"
        by (rule rnd_add_bounds(1) [OF s(2) x(2) s0 x(1)])
      finally have L: "(a + sum_list (xs @ [x])) * (1 - u53) ^ length (xs @ [x]) \<le> rnd (s + x)"
        by (simp add: mult.assoc add.assoc mult.commute [of "1 - u53"] mult.commute [of "1 + u53"])
      have "rnd (s + x) \<le> (s + x) * (1 + u53)"
        by (rule rnd_add_bounds(2) [OF s(2) x(2) s0 x(1)])
      also have "\<dots> \<le> (?A + x) * (1 + u53) ^ ?n * (1 + u53)"
        using hi1 u53_bounds by (intro mult_right_mono) simp_all
      finally have H: "rnd (s + x) \<le> (a + sum_list (xs @ [x])) * (1 + u53) ^ length (xs @ [x])"
        by (simp add: mult.assoc add.assoc mult.commute [of "1 - u53"] mult.commute [of "1 + u53"])
      from step 1 L H onGrid_rnd [of "s + x"] show ?thesis by simp
    next
      case 2
      with step show ?thesis by simp
    qed
  next
    assume "foldl add64 (Finite a) (map Finite xs) = PosInf"
    then show ?thesis by simp
  qed
qed

lemma sum64_chain_finite:
  assumes "\<forall>x \<in> set xs. 0 \<le> x \<and> onGrid x" and "0 \<le> a" and "onGrid a"
    and "(a + sum_list xs) * (1 + u53) ^ length xs \<le> 2 ^ 1023"
  shows "\<exists>t. foldl add64 (Finite a) (map Finite xs) = Finite t \<and> onGrid t
            \<and> (a + sum_list xs) * (1 - u53) ^ length xs \<le> t
            \<and> t \<le> (a + sum_list xs) * (1 + u53) ^ length xs"
  using assms(1,4)
proof (induction xs rule: rev_induct)
  case Nil
  then show ?case using assms(2,3) by simp
next
  case (snoc x xs)
  let ?n = "length xs"
  let ?A = "a + sum_list xs"
  have x: "0 \<le> x" "onGrid x" using snoc.prems by simp_all
  have A: "0 \<le> ?A" using snoc.prems assms(2) by (simp add: sum_list_nonneg)
  have top: "(?A + x) * (1 + u53) ^ Suc ?n \<le> 2 ^ 1023"
    using snoc.prems(2) by (simp add: add.assoc)
  have up: "(?A + x) * (1 + u53) ^ ?n \<le> (?A + x) * (1 + u53) ^ Suc ?n"
    using A x(1) u53_bounds by (intro mult_left_mono power_increasing) simp_all
  have "?A * (1 + u53) ^ ?n \<le> (?A + x) * (1 + u53) ^ ?n"
    using x(1) u53_bounds by (intro mult_right_mono) simp_all
  with up top have bound: "?A * (1 + u53) ^ ?n \<le> 2 ^ 1023" by linarith
  from snoc.prems have "\<forall>x \<in> set xs. 0 \<le> x \<and> onGrid x" by simp
  from snoc.IH [OF this bound]
  obtain s where s: "foldl add64 (Finite a) (map Finite xs) = Finite s" "onGrid s"
    and lo: "?A * (1 - u53) ^ ?n \<le> s" and hi: "s \<le> ?A * (1 + u53) ^ ?n"
    by blast
  have s0: "0 \<le> s"
    using lo A pow_minus_nonneg [of ?n] by (meson mult_nonneg_nonneg order_trans)
  have lo1: "(?A + x) * (1 - u53) ^ ?n \<le> s + x"
  proof -
    have "x * (1 - u53) ^ ?n \<le> x * 1"
      using x(1) pow_minus_le_one [of ?n] by (intro mult_left_mono) simp_all
    with lo show ?thesis by (simp add: distrib_right)
  qed
  have hi1: "s + x \<le> (?A + x) * (1 + u53) ^ ?n"
  proof -
    have "x * 1 \<le> x * (1 + u53) ^ ?n"
      using x(1) pow_plus_ge_one [of ?n] by (intro mult_left_mono) simp_all
    with hi show ?thesis by (simp add: distrib_right)
  qed
  from hi1 up top s0 x(1) have "\<bar>s + x\<bar> \<le> 2 ^ 1023" by linarith
  then have fin: "round64 (s + x) = Finite (rnd (s + x))" by (rule round64_finite)
  have step: "foldl add64 (Finite a) (map Finite (xs @ [x])) = Finite (rnd (s + x))"
    by (simp add: s(1) fin)
  have "(?A + x) * (1 - u53) ^ ?n * (1 - u53) \<le> (s + x) * (1 - u53)"
    using lo1 u53_bounds by (intro mult_right_mono) simp_all
  also have "\<dots> \<le> rnd (s + x)"
    by (rule rnd_add_bounds(1) [OF s(2) x(2) s0 x(1)])
  finally have L: "(a + sum_list (xs @ [x])) * (1 - u53) ^ length (xs @ [x]) \<le> rnd (s + x)"
    by (simp add: mult.assoc add.assoc mult.commute [of "1 - u53"] mult.commute [of "1 + u53"])
  have "rnd (s + x) \<le> (s + x) * (1 + u53)"
    by (rule rnd_add_bounds(2) [OF s(2) x(2) s0 x(1)])
  also have "\<dots> \<le> (?A + x) * (1 + u53) ^ ?n * (1 + u53)"
    using hi1 u53_bounds by (intro mult_right_mono) simp_all
  finally have H: "rnd (s + x) \<le> (a + sum_list (xs @ [x])) * (1 + u53) ^ length (xs @ [x])"
    by (simp add: mult.assoc add.assoc mult.commute [of "1 - u53"] mult.commute [of "1 + u53"])
  from step L H onGrid_rnd [of "s + x"] show ?case by blast
qed

text \<open>Seven roundings change a sum by a factor between \<open>1 - 2^-50\<close> and \<open>1 + 2^-50\<close>.\<close>

lemma seven_roundings:
  "1 - 1 / 2 ^ 50 \<le> (1 - u53) ^ 7" "(1 + u53) ^ 7 \<le> 1 + 1 / 2 ^ 50"
  by (simp_all add: u53_def power_divide)

lemma eps_small: "(2::real) powr (- 1075) \<le> 1 / 10 ^ 20"
proof -
  have "(2::real) powr (- 1075) \<le> 2 powr (- 70)" by (intro powr_mono) simp_all
  also have "\<dots> = 1 / 2 ^ 70" by (simp add: powr_minus_divide)
  also have "\<dots> \<le> 1 / 10 ^ 20" by simp
  finally show ?thesis .
qed

lemma finiteNonneg_list:
  assumes "list_all finiteNonneg ds"
  shows "ds = map Finite (map valueOf ds)"
    and "\<forall>x \<in> set (map valueOf ds). 0 \<le> x \<and> onGrid x"
  using assms
  by (induction ds)
    (auto simp: finiteNonneg_def isDouble_onGrid split: double.splits)

lemma finiteNonneg_cases:
  assumes "finiteNonneg d"
  obtains v where "d = Finite v" "0 \<le> v" "isDouble v"
  using assms by (cases d) (simp_all add: finiteNonneg_def)

lemma rnd_sum_error:
  assumes "\<forall>x \<in> set xs. 0 \<le> x"
  shows "\<bar>sum_list (map rnd xs) - sum_list xs\<bar>
           \<le> sum_list xs / 2 ^ 53 + of_nat (length xs) * 2 powr (- 1075)"
  using assms
proof (induction xs)
  case Nil
  then show ?case by simp
next
  case (Cons x xs)
  then have x: "0 \<le> x" and IH: "\<bar>sum_list (map rnd xs) - sum_list xs\<bar>
           \<le> sum_list xs / 2 ^ 53 + of_nat (length xs) * 2 powr (- 1075)"
    by simp_all
  from rnd_error_mixed [of x] x
  have "\<bar>rnd x - x\<bar> \<le> x / 2 ^ 53 + 2 powr (- 1075)" by simp
  with IH show ?case
    by (simp add: add_divide_distrib distrib_right)
qed

lemma sum_list_divide: "sum_list (map (\<lambda>v. v / t) xs) = sum_list xs / (t::real)"
  by (induction xs) (simp_all add: add_divide_distrib)

lemma member_le_sum_list:
  assumes "\<forall>x \<in> set xs. 0 \<le> (x::real)" and "v \<in> set xs"
  shows "v \<le> sum_list xs"
  using assms
proof (induction xs)
  case Nil
  then show ?case by simp
next
  case (Cons x xs)
  then have "0 \<le> sum_list xs" by (simp add: sum_list_nonneg)
  with Cons show ?case by auto
qed

lemma close_to_one:
  fixes r Q e :: real
  assumes "r * (1 - 1 / 2 ^ 50) \<le> 1" "1 \<le> r * (1 + 1 / 2 ^ 50)" "e \<le> 1 / 10 ^ 20"
    and "\<bar>Q - r\<bar> \<le> r / 2 ^ 53 + 7 * e"
  shows "\<bar>Q - 1\<bar> \<le> 1 / 10 ^ 15"
proof -
  define d where "d = r / 2 ^ 53"
  have a: "r \<le> 1 + 8882 / 10000000000000000000" using assms(1) by simp
  have b: "1 - 8882 / 10000000000000000000 \<le> r" using assms(2) by simp
  have c: "d \<le> 1111 / 10000000000000000000" using a by (simp add: d_def)
  have e: "e \<le> 1 / 100000000000000000000" using assms(3) by simp
  from assms(4) have "Q - r \<le> d + 7 * e" "r - Q \<le> d + 7 * e"
    unfolding d_def by linarith+
  with a b c e have "\<bar>Q - 1\<bar> \<le> 1 / 1000000000000000" by linarith
  then show ?thesis by simp
qed

lemma acc_close:
  fixes Q s :: real
  assumes "Q * (1 - 1 / 2 ^ 50) \<le> s" "s \<le> Q * (1 + 1 / 2 ^ 50)" "\<bar>Q - 1\<bar> \<le> 1 / 10 ^ 15"
  shows "\<bar>s - 1\<bar> \<le> 1 / 10 ^ 9"
proof -
  define d where "d = Q / 2 ^ 50"
  from assms(3) have "\<bar>Q - 1\<bar> \<le> 1 / 1000000000000000" by simp
  then have q: "Q \<le> 1 + 1 / 1000000000000000" "1 - 1 / 1000000000000000 \<le> Q"
    by linarith+
  have d: "0 \<le> d" "d \<le> 1 / 1000000000000" using q by (simp_all add: d_def)
  have "Q - d \<le> s" "s \<le> Q + d"
    using assms(1,2) by (simp_all add: d_def algebra_simps)
  with q d have "\<bar>s - 1\<bar> \<le> 1 / 1000000000" by linarith
  then show ?thesis by simp
qed

text \<open>The division branch on a list of shares: every quotient is finite and not negative,
  and the quotients sum to 1 up to the rounding of the total and of the seven divisions.\<close>

lemma shares:
  assumes nn: "\<forall>x \<in> set xs. 0 \<le> x" and len: "length xs = 7" and t: "0 < t"
    and lo: "sum_list xs * (1 - u53) ^ 7 \<le> t" and hi: "t \<le> sum_list xs * (1 + u53) ^ 7"
  shows "\<forall>v \<in> set xs. div64 (Finite v) (Finite t) = Finite (rnd (v / t)) \<and> 0 \<le> rnd (v / t)"
    and "\<bar>sum_list (map (\<lambda>v. rnd (v / t)) xs) - 1\<bar> \<le> 1 / 10 ^ 15"
proof -
  let ?S = "sum_list xs"
  have S0: "0 \<le> ?S" using nn by (simp add: sum_list_nonneg)
  have "?S * (1 - 1 / 2 ^ 50) \<le> ?S * (1 - u53) ^ 7"
    using S0 seven_roundings(1) by (intro mult_left_mono) simp_all
  with lo have lo': "?S * (1 - 1 / 2 ^ 50) \<le> t" by linarith
  have "?S * (1 + u53) ^ 7 \<le> ?S * (1 + 1 / 2 ^ 50)"
    using S0 seven_roundings(2) by (intro mult_left_mono) simp_all
  with hi have hi': "t \<le> ?S * (1 + 1 / 2 ^ 50)" by linarith
  define r where "r = ?S / t"
  have S: "?S = r * t" using t by (simp add: r_def)
  have r1: "r * (1 - 1 / 2 ^ 50) \<le> 1"
  proof -
    have "r * (1 - 1 / 2 ^ 50) = ?S * (1 - 1 / 2 ^ 50) / t" by (simp add: r_def)
    also have "\<dots> \<le> t / t" using lo' t by (intro divide_right_mono) simp_all
    finally show ?thesis using t by simp
  qed
  have r2: "1 \<le> r * (1 + 1 / 2 ^ 50)"
  proof -
    have "t / t \<le> ?S * (1 + 1 / 2 ^ 50) / t" using hi' t by (intro divide_right_mono) simp_all
    also have "\<dots> = r * (1 + 1 / 2 ^ 50)" by (simp add: r_def)
    finally show ?thesis using t by simp
  qed
  have r0: "0 \<le> r" using S0 t by (simp add: r_def)
  show "\<forall>v \<in> set xs. div64 (Finite v) (Finite t) = Finite (rnd (v / t)) \<and> 0 \<le> rnd (v / t)"
  proof
    fix v assume v: "v \<in> set xs"
    then have v0: "0 \<le> v" using nn by simp
    have "v \<le> ?S" by (rule member_le_sum_list [OF nn v])
    then have "v / t \<le> r" unfolding r_def using t by (intro divide_right_mono) simp_all
    moreover have "r \<le> 2" using r1 r0 by simp
    moreover have "0 \<le> v / t" using v0 t by simp
    ultimately have "\<bar>v / t\<bar> \<le> 2 ^ 1023" by simp
    then have "round64 (v / t) = Finite (rnd (v / t))" by (rule round64_finite)
    then show "div64 (Finite v) (Finite t) = Finite (rnd (v / t)) \<and> 0 \<le> rnd (v / t)"
      using t \<open>0 \<le> v / t\<close> by (simp add: rnd_nonneg)
  qed
  have q0: "\<forall>x \<in> set (map (\<lambda>v. v / t) xs). 0 \<le> x" using nn t by simp
  have "\<bar>sum_list (map rnd (map (\<lambda>v. v / t) xs)) - sum_list (map (\<lambda>v. v / t) xs)\<bar>
          \<le> sum_list (map (\<lambda>v. v / t) xs) / 2 ^ 53
             + of_nat (length (map (\<lambda>v. v / t) xs)) * 2 powr (- 1075)"
    by (rule rnd_sum_error [OF q0])
  then have "\<bar>sum_list (map (\<lambda>v. rnd (v / t)) xs) - r\<bar> \<le> r / 2 ^ 53 + 7 * 2 powr (- 1075)"
    by (simp add: sum_list_divide r_def len comp_def)
  with r1 r2 eps_small
  show "\<bar>sum_list (map (\<lambda>v. rnd (v / t)) xs) - 1\<bar> \<le> 1 / 10 ^ 15"
    by (intro close_to_one [of r "2 powr (- 1075)"])
qed

text \<open>Seven doubles that are not negative and sum to 1 within \<open>10^-15\<close>: the sum the
  machine accumulates is within \<open>10^-9\<close> of 1.\<close>

lemma unit_list:
  assumes q: "\<forall>x \<in> set qs. 0 \<le> x \<and> isDouble x" and len: "length qs = 7"
    and sum: "\<bar>sum_list qs - 1\<bar> \<le> 1 / 10 ^ 15"
  shows "list_all finiteNonneg (map Finite qs)"
    and "\<bar>sum_list (map valueOf (map Finite qs)) - 1\<bar> \<le> 1 / 10 ^ 9"
    and "withinTolerance (foldl add64 (Finite 0) (map Finite qs))"
proof -
  show "list_all finiteNonneg (map Finite qs)"
    using q by (simp add: list_all_iff finiteNonneg_def)
  have v: "map valueOf (map Finite qs) = qs" by (simp add: comp_def)
  have "(1::real) / 10 ^ 15 \<le> 1 / 10 ^ 9" by simp
  with sum show "\<bar>sum_list (map valueOf (map Finite qs)) - 1\<bar> \<le> 1 / 10 ^ 9"
    unfolding v by linarith
  have g: "\<forall>x \<in> set qs. 0 \<le> x \<and> onGrid x" using q isDouble_onGrid by blast
  from sum have "\<bar>sum_list qs - 1\<bar> \<le> 1 / 1000000000000000" by simp
  then have Q: "0 \<le> sum_list qs" "sum_list qs \<le> 2" by linarith+
  have "(0 + sum_list qs) * (1 + u53) ^ length qs \<le> 2 * (1 + 1 / 2 ^ 50)"
    unfolding len using Q seven_roundings(2) u53_bounds by (intro mult_mono) simp_all
  also have "\<dots> \<le> 2 ^ 1023" by simp
  finally have "\<exists>t. foldl add64 (Finite 0) (map Finite qs) = Finite t \<and> onGrid t
            \<and> (0 + sum_list qs) * (1 - u53) ^ length qs \<le> t
            \<and> t \<le> (0 + sum_list qs) * (1 + u53) ^ length qs"
    by (intro sum64_chain_finite [OF g]) simp_all
  then obtain s where s: "foldl add64 (Finite 0) (map Finite qs) = Finite s"
    and lo: "sum_list qs * (1 - u53) ^ 7 \<le> s" and hi: "s \<le> sum_list qs * (1 + u53) ^ 7"
    unfolding len by auto
  have "sum_list qs * (1 - 1 / 2 ^ 50) \<le> sum_list qs * (1 - u53) ^ 7"
    using Q(1) seven_roundings(1) by (intro mult_left_mono) simp_all
  with lo have lo': "sum_list qs * (1 - 1 / 2 ^ 50) \<le> s" by linarith
  have "sum_list qs * (1 + u53) ^ 7 \<le> sum_list qs * (1 + 1 / 2 ^ 50)"
    using Q(1) seven_roundings(2) by (intro mult_left_mono) simp_all
  with hi have hi': "s \<le> sum_list qs * (1 + 1 / 2 ^ 50)" by linarith
  from acc_close [OF lo' hi' sum]
  show "withinTolerance (foldl add64 (Finite 0) (map Finite qs))"
    by (simp add: withinTolerance_def s)
qed

section \<open>Normalisation on binary64\<close>

lemma normalizeMix64_total:
  "foldl (\<lambda>a b. add64 a b) (Finite 0)
     (Object_values64 \<lparr>wind64 = nullish64 (p_wind64 raw) (Finite 0),
                  solar64 = nullish64 (p_solar64 raw) (Finite 0),
                  hydro64 = nullish64 (p_hydro64 raw) (Finite 0),
                  gas64 = nullish64 (p_gas64 raw) (Finite 0),
                  coal64 = nullish64 (p_coal64 raw) (Finite 0),
                  biomass64 = nullish64 (p_biomass64 raw) (Finite 0),
                  imports64 = nullish64 (p_imports64 raw) (Finite 0)\<rparr>) = rawTotal64 raw"
  by (simp add: Object_values64_def Object_keys_def rawTotal64_def fields64_def)

lemma normalizeMix64_fallback:
  "le64 (rawTotal64 raw) (Finite 0) \<Longrightarrow> normalizeMix64 raw = fallbackMix64"
  unfolding normalizeMix64_def Let_def normalizeMix64_total
  by (simp add: fallbackMix64_def)

lemma normalizeMix64_divide:
  "\<not> le64 (rawTotal64 raw) (Finite 0) \<Longrightarrow> normalizeMix64 raw =
     \<lparr>wind64 = div64 (nullish64 (p_wind64 raw) (Finite 0)) (rawTotal64 raw),
      solar64 = div64 (nullish64 (p_solar64 raw) (Finite 0)) (rawTotal64 raw),
      hydro64 = div64 (nullish64 (p_hydro64 raw) (Finite 0)) (rawTotal64 raw),
      gas64 = div64 (nullish64 (p_gas64 raw) (Finite 0)) (rawTotal64 raw),
      coal64 = div64 (nullish64 (p_coal64 raw) (Finite 0)) (rawTotal64 raw),
      biomass64 = div64 (nullish64 (p_biomass64 raw) (Finite 0)) (rawTotal64 raw),
      imports64 = div64 (nullish64 (p_imports64 raw) (Finite 0)) (rawTotal64 raw)\<rparr>"
  unfolding normalizeMix64_def Let_def normalizeMix64_total
  by (simp add: mapEntries64_def)

lemma eirgrid_normalizeMix64_eq: "eirgrid_normalizeMix64 raw = normalizeMix64 raw"
  by (simp add: normalizeMix64_def eirgrid_normalizeMix64_def)

lemma fallback_doubles:
  "rnd 0.3 = 5404319552844595 / 2 ^ 54"
  "rnd 0.05 = 7205759403792794 / 2 ^ 57"
  "rnd 0.45 = 8106479329266893 / 2 ^ 54"
proof -
  show "rnd 0.3 = 5404319552844595 / 2 ^ 54"
    using rnd_eval [of "- 2" "0.3"] by (simp add: rne_def powr_minus_divide)
  show "rnd 0.05 = 7205759403792794 / 2 ^ 57"
    using rnd_eval [of "- 5" "0.05"] by (simp add: rne_def powr_minus_divide)
  show "rnd 0.45 = 8106479329266893 / 2 ^ 54"
    using rnd_eval [of "- 2" "0.45"] by (simp add: rne_def powr_minus_divide)
qed

lemma fallbackMix64_values:
  "fallbackMix64 =
     \<lparr>wind64 = Finite (5404319552844595 / 2 ^ 54), solar64 = Finite (7205759403792794 / 2 ^ 57),
      hydro64 = Finite (7205759403792794 / 2 ^ 57), gas64 = Finite (8106479329266893 / 2 ^ 54),
      coal64 = Finite (7205759403792794 / 2 ^ 57), biomass64 = Finite (7205759403792794 / 2 ^ 57),
      imports64 = Finite (7205759403792794 / 2 ^ 57)\<rparr>"
proof -
  have "round64 0.3 = Finite (rnd 0.3)" by (intro round64_finite) simp
  moreover have "round64 0.05 = Finite (rnd 0.05)" by (intro round64_finite) simp
  moreover have "round64 0.45 = Finite (rnd 0.45)" by (intro round64_finite) simp
  ultimately show ?thesis
    unfolding fallbackMix64_def by (simp only: fallback_doubles)
qed

lemma fallback_isDouble:
  "isDouble (5404319552844595 / 2 ^ 54)" "isDouble (7205759403792794 / 2 ^ 57)"
  "isDouble (8106479329266893 / 2 ^ 54)"
proof -
  show "isDouble (5404319552844595 / 2 ^ 54)"
    by (rule isDouble_eval [of "- 2" _ 5404319552844595]) (simp_all add: powr_minus_divide)
  show "isDouble (7205759403792794 / 2 ^ 57)"
    by (rule isDouble_eval [of "- 5" _ 7205759403792794]) (simp_all add: powr_minus_divide)
  show "isDouble (8106479329266893 / 2 ^ 54)"
    by (rule isDouble_eval [of "- 2" _ 8106479329266893]) (simp_all add: powr_minus_divide)
qed

lemma fallback_unit: "populated64 fallbackMix64" "unitSum64 fallbackMix64"
proof -
  let ?qs = "[5404319552844595 / 2 ^ 54, 7205759403792794 / 2 ^ 57, 7205759403792794 / 2 ^ 57,
    8106479329266893 / 2 ^ 54, 7205759403792794 / 2 ^ 57, 7205759403792794 / 2 ^ 57,
    7205759403792794 / 2 ^ 57 :: real]"
  have v: "mixValues64 fallbackMix64 = map Finite ?qs"
    unfolding fallbackMix64_values by (simp add: mixValues64_def)
  have q: "\<forall>x \<in> set ?qs. 0 \<le> x \<and> isDouble x"
    using fallback_isDouble by simp
  have len: "length ?qs = 7" by simp
  have sum: "\<bar>sum_list ?qs - 1\<bar> \<le> 1 / 10 ^ 15" by simp
  from unit_list [OF q len sum]
  show "populated64 fallbackMix64" "unitSum64 fallbackMix64"
    unfolding populated64_def unitSum64_def mixTotal64_def accTotal64_def v by blast+
qed

lemma fields64_length: "length (fields64 raw) = 7"
  by (simp add: fields64_def)

text \<open>The accumulated total of a mix whose fields are finite and not negative.\<close>

lemma rawTotal64_chain:
  assumes "rawNonneg64 raw"
  shows "(\<exists>t. rawTotal64 raw = Finite t \<and> onGrid t
            \<and> exactTotal64 raw * (1 - u53) ^ 7 \<le> t
            \<and> t \<le> exactTotal64 raw * (1 + u53) ^ 7)
         \<or> rawTotal64 raw = PosInf"
proof -
  let ?vs = "map valueOf (fields64 raw)"
  from assms have nn: "list_all finiteNonneg (fields64 raw)" by (simp add: rawNonneg64_def)
  have f: "fields64 raw = map Finite ?vs" by (rule finiteNonneg_list(1) [OF nn])
  have g: "\<forall>x \<in> set ?vs. 0 \<le> x \<and> onGrid x" by (rule finiteNonneg_list(2) [OF nn])
  have len: "length ?vs = 7" by (simp add: fields64_length)
  have t: "rawTotal64 raw = foldl add64 (Finite 0) (map Finite ?vs)"
    unfolding rawTotal64_def using f by simp
  from sum64_chain [OF g, of 0] show ?thesis
    unfolding t len exactTotal64_def by simp
qed

lemma rawTotal64_finite:
  assumes "rawNonneg64 raw" and "exactTotal64 raw \<le> 2 ^ 1022"
  shows "\<exists>t. rawTotal64 raw = Finite t"
proof -
  let ?vs = "map valueOf (fields64 raw)"
  from assms have nn: "list_all finiteNonneg (fields64 raw)" by (simp add: rawNonneg64_def)
  have f: "fields64 raw = map Finite ?vs" by (rule finiteNonneg_list(1) [OF nn])
  have g: "\<forall>x \<in> set ?vs. 0 \<le> x \<and> onGrid x" by (rule finiteNonneg_list(2) [OF nn])
  have len: "length ?vs = 7" by (simp add: fields64_length)
  have t: "rawTotal64 raw = foldl add64 (Finite 0) (map Finite ?vs)"
    unfolding rawTotal64_def using f by simp
  have S0: "0 \<le> sum_list ?vs" using g by (intro sum_list_nonneg) blast
  have "(0 + sum_list ?vs) * (1 + u53) ^ length ?vs \<le> 2 ^ 1022 * (1 + 1 / 2 ^ 50)"
    unfolding len using S0 assms(2) seven_roundings(2) u53_bounds
    by (intro mult_mono) (simp_all add: exactTotal64_def)
  also have "\<dots> \<le> 2 ^ 1023" by simp
  finally have "\<exists>t. foldl add64 (Finite 0) (map Finite ?vs) = Finite t \<and> onGrid t
            \<and> (0 + sum_list ?vs) * (1 - u53) ^ length ?vs \<le> t
            \<and> t \<le> (0 + sum_list ?vs) * (1 + u53) ^ length ?vs"
    by (intro sum64_chain_finite [OF g]) simp_all
  then show ?thesis unfolding t by blast
qed

lemma mixValues64_divide:
  assumes "\<not> le64 (rawTotal64 raw) (Finite 0)"
  shows "mixValues64 (normalizeMix64 raw) = map (\<lambda>d. div64 d (rawTotal64 raw)) (fields64 raw)"
  unfolding normalizeMix64_divide [OF assms] by (simp add: mixValues64_def fields64_def)

lemma div64_PosInf:
  assumes "list_all finiteNonneg ds"
  shows "list_all finiteNonneg (map (\<lambda>d. div64 d PosInf) ds)"
  using assms
  by (induction ds) (auto simp: finiteNonneg_def split: double.splits)

text \<open>The division branch for inputs that are finite and not negative.\<close>

lemma normalizeMix64_divide_unit:
  assumes nn: "rawNonneg64 raw" and t: "rawTotal64 raw = Finite t" and pos: "0 < t"
    and lo: "exactTotal64 raw * (1 - u53) ^ 7 \<le> t"
    and hi: "t \<le> exactTotal64 raw * (1 + u53) ^ 7"
  shows "populated64 (normalizeMix64 raw)" and "unitSum64 (normalizeMix64 raw)"
proof -
  let ?vs = "map valueOf (fields64 raw)"
  let ?qs = "map (\<lambda>v. rnd (v / t)) ?vs"
  from nn have l: "list_all finiteNonneg (fields64 raw)" by (simp add: rawNonneg64_def)
  have f: "fields64 raw = map Finite ?vs" by (rule finiteNonneg_list(1) [OF l])
  have g: "\<forall>x \<in> set ?vs. 0 \<le> x" using finiteNonneg_list(2) [OF l] by blast
  have len: "length ?vs = 7" by (simp add: fields64_length)
  have nle: "\<not> le64 (rawTotal64 raw) (Finite 0)" using t pos by simp
  note sh = shares [OF g len pos lo [unfolded exactTotal64_def] hi [unfolded exactTotal64_def]]
  have "mixValues64 (normalizeMix64 raw) = map (\<lambda>d. div64 d (Finite t)) (map Finite ?vs)"
    unfolding mixValues64_divide [OF nle] t using f by simp
  also have "\<dots> = map (\<lambda>v. div64 (Finite v) (Finite t)) ?vs"
    by (simp only: map_map comp_def)
  also have "\<dots> = map (\<lambda>v. Finite (rnd (v / t))) ?vs"
    using sh(1) by (intro map_cong refl) blast
  also have "\<dots> = map Finite ?qs"
    by (simp only: map_map comp_def)
  finally have v: "mixValues64 (normalizeMix64 raw) = map Finite ?qs" .
  have q: "\<forall>x \<in> set ?qs. 0 \<le> x \<and> isDouble x"
  proof
    fix x assume "x \<in> set ?qs"
    then obtain w where w: "w \<in> set ?vs" and x: "x = rnd (w / t)" by auto
    from sh(1) w have d: "div64 (Finite w) (Finite t) = Finite (rnd (w / t))"
      and r0: "0 \<le> rnd (w / t)" by blast+
    from d pos have "round64 (w / t) = Finite (rnd (w / t))" by simp
    then have "\<bar>rnd (w / t)\<bar> < 2 ^ 1024" by (simp add: round64_def split: if_splits)
    then have "isDouble (rnd (w / t))" by (rule isDouble_rnd)
    with r0 x show "0 \<le> x \<and> isDouble x" by simp
  qed
  have qlen: "length ?qs = 7" using len by simp
  have sum: "\<bar>sum_list ?qs - 1\<bar> \<le> 1 / 10 ^ 15"
    using sh(2) by (simp only: map_map comp_def)
  from unit_list [OF q qlen sum]
  show "populated64 (normalizeMix64 raw)" and "unitSum64 (normalizeMix64 raw)"
    unfolding populated64_def unitSum64_def mixTotal64_def accTotal64_def v by blast+
qed

lemma normalizeMix64_populated:
  assumes nn: "rawNonneg64 raw"
  shows "populated64 (normalizeMix64 raw)"
proof -
  from rawTotal64_chain [OF nn] consider
    t where "rawTotal64 raw = Finite t" "exactTotal64 raw * (1 - u53) ^ 7 \<le> t"
      "t \<le> exactTotal64 raw * (1 + u53) ^ 7"
    | "rawTotal64 raw = PosInf" by blast
  then show ?thesis
  proof cases
    case 1
    show ?thesis
    proof (cases "0 < t")
      case True
      from normalizeMix64_divide_unit(1) [OF nn 1(1) True 1(2,3)] show ?thesis .
    next
      case False
      then have "le64 (rawTotal64 raw) (Finite 0)" using 1(1) by simp
      then show ?thesis by (simp add: normalizeMix64_fallback fallback_unit)
    qed
  next
    case 2
    then have nle: "\<not> le64 (rawTotal64 raw) (Finite 0)" by simp
    from nn have "list_all finiteNonneg (fields64 raw)" by (simp add: rawNonneg64_def)
    from div64_PosInf [OF this] show ?thesis
      unfolding populated64_def mixValues64_divide [OF nle] 2 .
  qed
qed

lemma normalizeMix64_sum_close:
  assumes nn: "rawNonneg64 raw" and fin: "rawTotal64 raw \<noteq> PosInf"
  shows "unitSum64 (normalizeMix64 raw)"
proof -
  from rawTotal64_chain [OF nn] fin obtain t where
    t: "rawTotal64 raw = Finite t" "exactTotal64 raw * (1 - u53) ^ 7 \<le> t"
      "t \<le> exactTotal64 raw * (1 + u53) ^ 7" by blast
  show ?thesis
  proof (cases "0 < t")
    case True
    from normalizeMix64_divide_unit(2) [OF nn t(1) True t(2,3)] show ?thesis .
  next
    case False
    then have "le64 (rawTotal64 raw) (Finite 0)" using t(1) by simp
    then show ?thesis by (simp add: normalizeMix64_fallback fallback_unit)
  qed
qed




section \<open>Normalisation on binary64: the claims\<close>

text \<open>Roundings at the inputs of the examples.\<close>

lemma round64_two53: "round64 (2 ^ 53) = Finite (2 ^ 53)"
  by (rule round64_exact, rule isDouble_eval [of 53 _ "2 ^ 52"]) simp_all

lemma round64_two53_plus1: "round64 (2 ^ 53 + 1) = Finite (2 ^ 53)"
  using rnd_eval [of 53 "2 ^ 53 + 1"] by (simp add: round64_def rne_def)


lemma round64_one: "round64 1 = Finite 1"
  by (rule round64_exact, rule isDouble_eval [of 0 _ "2 ^ 52"]) (simp_all add: powr_minus_divide)



lemma round64_neg_two53: "round64 (- (2 ^ 53)) = Finite (- (2 ^ 53))"
  by (rule round64_exact, rule isDouble_eval [of 53 _ "- (2 ^ 52)"]) simp_all

lemma round64_two1023: "round64 (2 ^ 1023) = Finite (2 ^ 1023)"
  by (rule round64_exact, rule isDouble_eval [of 1023 _ "2 ^ 52"]) simp_all

lemma round64_two1024: "round64 (2 ^ 1024) = PosInf"
  using rnd_exact [of 1024 "2 ^ 1024" "2 ^ 52"] by (simp add: round64_def)



lemma lostUnitMix_total: "rawTotal64 lostUnitMix = Finite 1" "exactTotal64 lostUnitMix = 2"
proof -
  show "rawTotal64 lostUnitMix = Finite 1"
    using round64_two53 round64_two53_plus1 round64_one
    by (simp add: rawTotal64_def fields64_def lostUnitMix_def round64_zero)
  show "exactTotal64 lostUnitMix = 2"
    by (simp add: exactTotal64_def fields64_def lostUnitMix_def)
qed

lemma overflowMix_total: "rawTotal64 overflowMix = PosInf"
  using round64_two1023 round64_two1024
  by (simp add: rawTotal64_def fields64_def overflowMix_def)

lemma overflowMix_nonneg: "rawNonneg64 overflowMix"
proof -
  have "isDouble (2 ^ 1023)" by (rule isDouble_eval [of 1023 _ "2 ^ 52"]) simp_all
  then show ?thesis
    by (simp add: rawNonneg64_def fields64_def overflowMix_def finiteNonneg_def)
qed

lemma overflowMix_result:
  "normalizeMix64 overflowMix =
     \<lparr>wind64 = Finite 0, solar64 = Finite 0, hydro64 = Finite 0, gas64 = Finite 0,
      coal64 = Finite 0, biomass64 = Finite 0, imports64 = Finite 0\<rparr>"
proof -
  have "\<not> le64 (rawTotal64 overflowMix) (Finite 0)" by (simp add: overflowMix_total)
  from normalizeMix64_divide [OF this, unfolded overflowMix_total] show ?thesis
    by (simp add: overflowMix_def)
qed

lemma lostUnitMix_result:
  "normalizeMix64 lostUnitMix =
     \<lparr>wind64 = Finite (2 ^ 53), solar64 = Finite 1, hydro64 = Finite (- (2 ^ 53)),
      gas64 = Finite 1, coal64 = Finite 0, biomass64 = Finite 0, imports64 = Finite 0\<rparr>"
proof -
  have "\<not> le64 (rawTotal64 lostUnitMix) (Finite 0)" by (simp add: lostUnitMix_total)
  from normalizeMix64_divide [OF this, unfolded lostUnitMix_total] show ?thesis
    using round64_two53 round64_neg_two53 round64_one
    by (simp add: lostUnitMix_def round64_zero)
qed


lemma sampleRaw64_nonneg: "rawNonneg64 sampleRaw64"
  using isDouble_examples
  by (simp add: rawNonneg64_def fields64_def sampleRaw64_def finiteNonneg_def)

lemma sampleRaw64_exact: "exactTotal64 sampleRaw64 = 10"
  by (simp add: exactTotal64_def fields64_def sampleRaw64_def)

lemma negativeRaw64_total: "rawTotal64 negativeRaw64 = Finite (- 1 / 2)"
proof -
  have "round64 (- 1) = Finite (- 1)"
    by (rule round64_exact) (rule isDouble_examples)
  moreover have "round64 (- 1 / 2) = Finite (- 1 / 2)"
    by (rule round64_exact, rule isDouble_eval [of "- 1" _ "- (2 ^ 52)"])
      (simp_all add: powr_minus_divide)
  ultimately show ?thesis
    by (simp add: rawTotal64_def fields64_def negativeRaw64_def)
qed




text \<open>
  Claim C1, as stated, fails on IEEE doubles. Two fields of \<open>2^1023\<close> are finite and not
  negative, their accumulated total is \<open>Infinity\<close>, and every share is divided down to 0:
  the seven shares sum to 0. With fields of both signs the total can lose a unit to
  rounding: for \<open>2^53, 1, -2^53, 1\<close> the accumulated total is 1, the exact sum is 2, and
  the seven shares sum to 2.
\<close>

theorem normalizeMix64_sum_counterexample:
  "rawNonneg64 overflowMix
   \<and> rawTotal64 overflowMix = PosInf
   \<and> mixTotal64 (normalizeMix64 overflowMix) = 0
   \<and> accTotal64 (normalizeMix64 overflowMix) = Finite 0
   \<and> \<not> unitSum64 (normalizeMix64 overflowMix)
   \<and> rawTotal64 lostUnitMix = Finite 1
   \<and> exactTotal64 lostUnitMix = 2
   \<and> mixTotal64 (normalizeMix64 lostUnitMix) = 2
   \<and> \<not> unitSum64 (normalizeMix64 lostUnitMix)"
proof -
  have "mixTotal64 (normalizeMix64 overflowMix) = 0"
    unfolding overflowMix_result by (simp add: mixTotal64_def mixValues64_def)
  moreover have "accTotal64 (normalizeMix64 overflowMix) = Finite 0"
    unfolding overflowMix_result by (simp add: accTotal64_def mixValues64_def round64_zero)
  moreover have "mixTotal64 (normalizeMix64 lostUnitMix) = 2"
    unfolding lostUnitMix_result by (simp add: mixTotal64_def mixValues64_def)
  ultimately show ?thesis
    using overflowMix_nonneg overflowMix_total lostUnitMix_total
    by (simp add: unitSum64_def)
qed

text \<open>
  Claim C1, amended. For every raw mix whose fields (an absent one counting as 0) are
  finite doubles that are not negative, all seven fields of the result are finite doubles
  that are not negative. If moreover the accumulated total is not \<open>Infinity\<close>, which holds
  whenever the exact sum of the fields is at most \<open>2^1022\<close>, the seven shares sum to 1
  within \<open>1e-9\<close>, both as an exact sum of the seven doubles and as the sum a machine
  accumulates from them. The same holds for every raw mix, of whatever signs, whose
  accumulated total is at most 0, since the fallback distribution is returned. This covers
  the division branch and the fallback branch, and both copies of the function.
\<close>

theorem normalizeMix64_unit_sum:
  "(rawNonneg64 raw \<longrightarrow> populated64 (normalizeMix64 raw))
   \<and> (rawNonneg64 raw \<and> rawTotal64 raw \<noteq> PosInf \<longrightarrow> unitSum64 (normalizeMix64 raw))
   \<and> (rawNonneg64 raw \<and> exactTotal64 raw \<le> 2 ^ 1022 \<longrightarrow> rawTotal64 raw \<noteq> PosInf)
   \<and> (le64 (rawTotal64 raw) (Finite 0) \<longrightarrow>
        populated64 (normalizeMix64 raw) \<and> unitSum64 (normalizeMix64 raw))
   \<and> eirgrid_normalizeMix64 raw = normalizeMix64 raw"
proof -
  have "rawTotal64 raw \<noteq> PosInf" if "rawNonneg64 raw" "exactTotal64 raw \<le> 2 ^ 1022"
    using rawTotal64_finite [OF that] by auto
  then show ?thesis
    using normalizeMix64_populated [of raw] normalizeMix64_sum_close [of raw] fallback_unit
      normalizeMix64_fallback [of raw] eirgrid_normalizeMix64_eq [of raw]
    by auto
qed

theorem normalizeMix64_unit_sum_witness:
  "rawNonneg64 sampleRaw64
   \<and> exactTotal64 sampleRaw64 \<le> 2 ^ 1022
   \<and> rawTotal64 sampleRaw64 \<noteq> PosInf
   \<and> populated64 (normalizeMix64 sampleRaw64)
   \<and> unitSum64 (normalizeMix64 sampleRaw64)
   \<and> le64 (rawTotal64 negativeRaw64) (Finite 0)
   \<and> populated64 (normalizeMix64 negativeRaw64)
   \<and> unitSum64 (normalizeMix64 negativeRaw64)"
proof -
  have a: "rawNonneg64 sampleRaw64" by (rule sampleRaw64_nonneg)
  have b: "exactTotal64 sampleRaw64 \<le> 2 ^ 1022" by (simp add: sampleRaw64_exact)
  have c: "le64 (rawTotal64 negativeRaw64) (Finite 0)" by (simp add: negativeRaw64_total)
  from normalizeMix64_unit_sum [of sampleRaw64] normalizeMix64_unit_sum [of negativeRaw64] a b c
  show ?thesis by blast
qed




section \<open>Intensity on binary64\<close>

lemma computeIntensity64_total: "computeIntensity64 m = Math_round64 (weighted64 m)"
  by (simp add: computeIntensity64_def weighted64_def)

lemma eirgrid_EMISSION_FACTORS64_eq: "eirgrid_EMISSION_FACTORS64 k = EMISSION_FACTORS64 k"
  by (cases k) simp_all

lemma eirgrid_computeIntensity64_eq: "eirgrid_computeIntensity64 m = computeIntensity64 m"
  by (simp add: computeIntensity64_def eirgrid_computeIntensity64_def
      eirgrid_EMISSION_FACTORS64_eq)

lemma exactWeighted64_sum:
  "exactWeighted64 m =
     valueOf (wind64 m) * 12 + valueOf (solar64 m) * 50 + valueOf (hydro64 m) * 24
       + valueOf (gas64 m) * 400 + valueOf (coal64 m) * 900 + valueOf (biomass64 m) * 230
       + valueOf (imports64 m) * 300"
  by (simp add: exactWeighted64_def Object_keys_def)

lemma weighted_close:
  fixes W P acc e :: real
  assumes "0 \<le> W" "W \<le> 901" "\<bar>P - W\<bar> \<le> W / 2 ^ 53 + 7 * e" "e \<le> 1 / 10 ^ 20"
    and "P * (1 - 1 / 2 ^ 50) \<le> acc" "acc \<le> P * (1 + 1 / 2 ^ 50)"
  shows "\<bar>acc - W\<bar> \<le> 1 / 10 ^ 12"
proof -
  define d1 where "d1 = W / 2 ^ 53"
  define d2 where "d2 = P / 2 ^ 50"
  have d1: "d1 \<le> 1001 / 10000000000000000" using assms(2) by (simp add: d1_def)
  have e: "e \<le> 1 / 100000000000000000000" using assms(4) by simp
  from assms(3) have P: "P - W \<le> d1 + 7 * e" "W - P \<le> d1 + 7 * e"
    unfolding d1_def by linarith+
  with d1 e assms(2) have "P \<le> 902" by linarith
  then have d2: "d2 \<le> 8012 / 10000000000000000" by (simp add: d2_def)
  have "P - d2 \<le> acc" "acc \<le> P + d2"
    using assms(5,6) by (simp_all add: d2_def algebra_simps)
  with P d1 d2 e have "\<bar>acc - W\<bar> \<le> 1 / 1000000000000" by linarith
  then show ?thesis by simp
qed

text \<open>Seven products that are not negative, rounded and then accumulated.\<close>

lemma products_sum:
  assumes nn: "\<forall>x \<in> set xs. 0 \<le> x" and len: "length xs = 7" and W: "sum_list xs \<le> 901"
  shows "\<exists>acc. foldl add64 (Finite 0) (map round64 xs) = Finite acc \<and> 0 \<le> acc
           \<and> \<bar>acc - sum_list xs\<bar> \<le> 1 / 10 ^ 12"
proof -
  let ?ps = "map rnd xs"
  have W0: "0 \<le> sum_list xs" using nn by (intro sum_list_nonneg) blast
  have "map round64 xs = map (\<lambda>x. Finite (rnd x)) xs"
  proof (intro map_cong refl)
    fix x assume x: "x \<in> set xs"
    then have "0 \<le> x" using nn by blast
    moreover have "x \<le> sum_list xs" by (rule member_le_sum_list [OF nn x])
    ultimately have "\<bar>x\<bar> \<le> 2 ^ 1023" using W by simp
    then show "round64 x = Finite (rnd x)" by (rule round64_finite)
  qed
  then have r: "map round64 xs = map Finite ?ps" by (simp only: map_map comp_def)
  have g: "\<forall>x \<in> set ?ps. 0 \<le> x \<and> onGrid x"
    using nn by (auto simp: rnd_nonneg onGrid_rnd)
  have plen: "length ?ps = 7" using len by simp
  have P0: "0 \<le> sum_list ?ps" using g by (intro sum_list_nonneg) blast
  have err: "\<bar>sum_list ?ps - sum_list xs\<bar> \<le> sum_list xs / 2 ^ 53 + 7 * 2 powr (- 1075)"
    using rnd_sum_error [OF nn] by (simp add: len)
  have "sum_list xs / 2 ^ 53 \<le> 1" using W by simp
  moreover have "7 * (2::real) powr (- 1075) \<le> 1" using eps_small by simp
  ultimately have P: "sum_list ?ps \<le> 903" using err W by linarith
  have "(0 + sum_list ?ps) * (1 + u53) ^ length ?ps \<le> 903 * (1 + 1 / 2 ^ 50)"
    unfolding plen using P0 P seven_roundings(2) u53_bounds by (intro mult_mono) simp_all
  also have "\<dots> \<le> 2 ^ 1023" by simp
  finally have "\<exists>t. foldl add64 (Finite 0) (map Finite ?ps) = Finite t \<and> onGrid t
            \<and> (0 + sum_list ?ps) * (1 - u53) ^ length ?ps \<le> t
            \<and> t \<le> (0 + sum_list ?ps) * (1 + u53) ^ length ?ps"
    by (intro sum64_chain_finite [OF g]) simp_all
  then obtain acc where acc: "foldl add64 (Finite 0) (map Finite ?ps) = Finite acc"
    and lo: "sum_list ?ps * (1 - u53) ^ 7 \<le> acc" and hi: "acc \<le> sum_list ?ps * (1 + u53) ^ 7"
    unfolding plen by auto
  have "sum_list ?ps * (1 - 1 / 2 ^ 50) \<le> sum_list ?ps * (1 - u53) ^ 7"
    using P0 seven_roundings(1) by (intro mult_left_mono) simp_all
  with lo have lo': "sum_list ?ps * (1 - 1 / 2 ^ 50) \<le> acc" by linarith
  have "sum_list ?ps * (1 + u53) ^ 7 \<le> sum_list ?ps * (1 + 1 / 2 ^ 50)"
    using P0 seven_roundings(2) by (intro mult_left_mono) simp_all
  with hi have hi': "acc \<le> sum_list ?ps * (1 + 1 / 2 ^ 50)" by linarith
  have "0 \<le> sum_list ?ps * (1 - 1 / 2 ^ 50)" using P0 by simp
  with lo' have a0: "0 \<le> acc" by linarith
  from weighted_close [OF W0 W err eps_small lo' hi'] a0 acc show ?thesis
    unfolding r by blast
qed

text \<open>The total accumulated by the intensity calculator on a normalized mix.\<close>

lemma weighted64_close:
  assumes "normalized64 m"
  shows "\<exists>acc. weighted64 m = Finite acc \<and> 0 \<le> acc \<and> \<bar>acc - exactWeighted64 m\<bar> \<le> 1 / 10 ^ 12"
proof -
  from assms have p: "finiteNonneg (wind64 m)" "finiteNonneg (solar64 m)"
    "finiteNonneg (hydro64 m)" "finiteNonneg (gas64 m)" "finiteNonneg (coal64 m)"
    "finiteNonneg (biomass64 m)" "finiteNonneg (imports64 m)"
    by (simp_all add: normalized64_def populated64_def mixValues64_def)
  from p(1) obtain w where w: "wind64 m = Finite w" "0 \<le> w" by (rule finiteNonneg_cases)
  from p(2) obtain s where s: "solar64 m = Finite s" "0 \<le> s" by (rule finiteNonneg_cases)
  from p(3) obtain h where h: "hydro64 m = Finite h" "0 \<le> h" by (rule finiteNonneg_cases)
  from p(4) obtain g where g: "gas64 m = Finite g" "0 \<le> g" by (rule finiteNonneg_cases)
  from p(5) obtain c where c: "coal64 m = Finite c" "0 \<le> c" by (rule finiteNonneg_cases)
  from p(6) obtain b where b: "biomass64 m = Finite b" "0 \<le> b" by (rule finiteNonneg_cases)
  from p(7) obtain i where i: "imports64 m = Finite i" "0 \<le> i" by (rule finiteNonneg_cases)
  let ?xs = "[w * 12, s * 50, h * 24, g * 400, c * 900, b * 230, i * 300]"
  from assms have "\<bar>w + s + h + g + c + b + i - 1\<bar> \<le> 1 / 10 ^ 9"
    by (simp add: normalized64_def mixTotal64_def mixValues64_def w s h g c b i add.assoc)
  then have "\<bar>w + s + h + g + c + b + i - 1\<bar> \<le> 1 / 1000000000" by simp
  then have "w * 12 + s * 50 + h * 24 + g * 400 + c * 900 + b * 230 + i * 300 \<le> 901"
    using w(2) s(2) h(2) g(2) c(2) b(2) i(2) by linarith
  then have "sum_list ?xs \<le> 901" by simp
  moreover have "\<forall>x \<in> set ?xs. 0 \<le> x"
    using w(2) s(2) h(2) g(2) c(2) b(2) i(2) by simp
  moreover have "length ?xs = 7" by simp
  ultimately have "\<exists>acc. foldl add64 (Finite 0) (map round64 ?xs) = Finite acc \<and> 0 \<le> acc
           \<and> \<bar>acc - sum_list ?xs\<bar> \<le> 1 / 10 ^ 12"
    by (intro products_sum)
  moreover have "weighted64 m = foldl add64 (Finite 0) (map round64 ?xs)"
    by (simp add: weighted64_def Object_keys_def w s h g c b i)
  moreover have "exactWeighted64 m = sum_list ?xs"
    by (simp add: exactWeighted64_def Object_keys_def w s h g c b i)
  ultimately show ?thesis by simp
qed

lemma floor_stable:
  fixes a W d :: real
  assumes "\<bar>a - W\<bar> \<le> d" and "d \<le> frac (W + 1 / 2)" and "frac (W + 1 / 2) < 1 - d"
  shows "\<lfloor>a + 1 / 2\<rfloor> = \<lfloor>W + 1 / 2\<rfloor>"
proof (rule floor_unique)
  have f: "frac (W + 1 / 2) = W + 1 / 2 - of_int \<lfloor>W + 1 / 2\<rfloor>" by (simp add: frac_def)
  show "of_int \<lfloor>W + 1 / 2\<rfloor> \<le> a + 1 / 2" using assms f by linarith
  show "a + 1 / 2 < of_int \<lfloor>W + 1 / 2\<rfloor> + 1" using assms f by linarith
qed

lemma computeIntensity64_round:
  assumes "normalized64 m"
  shows "\<exists>acc. weighted64 m = Finite acc \<and> 0 \<le> acc
           \<and> \<bar>acc - exactWeighted64 m\<bar> \<le> 1 / 10 ^ 12
           \<and> computeIntensity64 m = Finite (of_int (Math_round acc)) \<and> 0 \<le> Math_round acc"
proof -
  from weighted64_close [OF assms] obtain acc where
    acc: "weighted64 m = Finite acc" "0 \<le> acc" "\<bar>acc - exactWeighted64 m\<bar> \<le> 1 / 10 ^ 12"
    by blast
  have "computeIntensity64 m = Finite (of_int (Math_round acc))"
    by (simp add: computeIntensity64_total acc(1) Math_round_def)
  moreover have "0 \<le> Math_round acc" using acc(2) by (simp add: Math_round_def)
  ultimately show ?thesis using acc by blast
qed

lemma computeIntensity64_exact:
  assumes "normalized64 m" and "1 / 10 ^ 12 \<le> frac (exactWeighted64 m + 1 / 2)"
    and "frac (exactWeighted64 m + 1 / 2) < 1 - 1 / 10 ^ 12"
  shows "computeIntensity64 m = Finite (of_int (Math_round (exactWeighted64 m)))"
proof -
  from computeIntensity64_round [OF assms(1)] obtain acc where
    acc: "\<bar>acc - exactWeighted64 m\<bar> \<le> 1 / 10 ^ 12"
      "computeIntensity64 m = Finite (of_int (Math_round acc))"
    by blast
  from floor_stable [OF acc(1) assms(2,3)] acc(2) show ?thesis
    by (simp add: Math_round_def)
qed

lemma fallbackMix64_normalized: "normalized64 fallbackMix64"
  using fallback_unit by (simp add: normalized64_def unitSum64_def)

lemma fallbackMix64_intensity: "computeIntensity64 fallbackMix64 = Finite 259"
proof -
  have w: "exactWeighted64 fallbackMix64 = 1165531583563484403 / 2 ^ 52"
    unfolding exactWeighted64_sum fallbackMix64_values by simp
  have "frac (exactWeighted64 fallbackMix64 + 1 / 2) = 1165531583563484403 / 2 ^ 52 + 1 / 2 - 259"
    unfolding w by (simp add: frac_def)
  then have f: "1 / 10 ^ 12 \<le> frac (exactWeighted64 fallbackMix64 + 1 / 2)"
    "frac (exactWeighted64 fallbackMix64 + 1 / 2) < 1 - 1 / 10 ^ 12"
    by simp_all
  from computeIntensity64_exact [OF fallbackMix64_normalized f] show ?thesis
    unfolding w by (simp add: Math_round_def)
qed

lemma tieMix_normalized: "normalized64 tieMix"
proof -
  have "isDouble (8717018866379491 / 2 ^ 53)"
    by (rule isDouble_eval [of "- 1" _ 8717018866379491]) (simp_all add: powr_minus_divide)
  moreover have "isDouble (290180388361501 / 2 ^ 53)"
    by (rule isDouble_eval [of "- 5" _ 4642886213784016]) (simp_all add: powr_minus_divide)
  ultimately show ?thesis
    by (simp add: normalized64_def populated64_def mixValues64_def mixTotal64_def tieMix_def
        finiteNonneg_def)
qed

lemma tieMix_exact: "exactWeighted64 tieMix = 49 / 2 - 12 / 2 ^ 53"
  by (simp add: exactWeighted64_def Object_keys_def tieMix_def)

lemma tieMix_weighted: "weighted64 tieMix = Finite (49 / 2)"
proof -
  have R1: "round64 (8717018866379491 / 2 ^ 53 * 12) = Finite (6537764149784618 / 2 ^ 49)"
    using rnd_eval [of 3 "8717018866379491 / 2 ^ 53 * 12"]
    by (simp add: round64_def rne_def powr_minus_divide)
  have R2: "round64 (6537764149784618 / 2 ^ 49) = Finite (6537764149784618 / 2 ^ 49)"
    using rnd_exact [of 3 "6537764149784618 / 2 ^ 49" 6537764149784618]
    by (simp add: round64_def powr_minus_divide)
  have R3: "round64 (290180388361501 / 2 ^ 53 * 400) = Finite (7254509709037525 / 2 ^ 49)"
    using rnd_exact [of 3 "290180388361501 / 2 ^ 53 * 400" 7254509709037525]
    by (simp add: round64_def powr_minus_divide)
  have R4: "round64 (6537764149784618 / 2 ^ 49 + 7254509709037525 / 2 ^ 49) = Finite (49 / 2)"
    using rnd_eval [of 4 "6537764149784618 / 2 ^ 49 + 7254509709037525 / 2 ^ 49"]
    by (simp add: round64_def rne_def powr_minus_divide)
  have R5: "round64 (49 / 2) = Finite (49 / 2)"
    using rnd_exact [of 4 "49 / 2" "49 * 2 ^ 47"]
    by (simp add: round64_def powr_minus_divide)
  have s1: "add64 (Finite 0) (mul64 (Finite (8717018866379491 / 2 ^ 53)) (Finite 12))
      = Finite (6537764149784618 / 2 ^ 49)"
    using R1 R2 by simp
  have z: "\<And>f. mul64 (Finite 0) (Finite f) = Finite 0" by (simp add: round64_zero)
  have s2: "add64 (Finite (6537764149784618 / 2 ^ 49)) (Finite 0)
      = Finite (6537764149784618 / 2 ^ 49)"
    using R2 by simp
  have s3: "add64 (Finite (6537764149784618 / 2 ^ 49))
        (mul64 (Finite (290180388361501 / 2 ^ 53)) (Finite 400)) = Finite (49 / 2)"
    using R3 R4 by simp
  have s4: "add64 (Finite (49 / 2)) (Finite 0) = Finite (49 / 2)"
    using R5 by simp
  show ?thesis
    unfolding weighted64_def Object_keys_def tieMix_def
    by (simp only: foldl.simps get64.simps EMISSION_FACTORS64.simps
        GenerationMixBreakdown64.select_convs s1 z s2 s3 s4)
qed

lemma tieMix_result:
  "computeIntensity64 tieMix = Finite 25" "\<lfloor>exactWeighted64 tieMix + 1 / 2\<rfloor> = 24"
  by (simp_all add: computeIntensity64_total tieMix_weighted tieMix_exact)

lemma sampleMix64_normalized: "normalized64 sampleMix64"
  using isDouble_examples
  by (simp add: normalized64_def populated64_def mixValues64_def mixTotal64_def
      sampleMix64_def finiteNonneg_def)

lemma sampleMix64_exact: "exactWeighted64 sampleMix64 = 331"
  by (simp add: exactWeighted64_sum sampleMix64_def)

text \<open>
  Claim C3, as stated, fails on IEEE doubles. The mix with wind
  \<open>8717018866379491 / 2^53\<close> and gas \<open>290180388361501 / 2^53\<close> is normalized: the two
  shares are doubles and sum to exactly 1. Its weighted sum is \<open>24.5 - 12 / 2^53\<close>, which
  rounds to 24; the two rounded products add up to a tie that rounds to 24.5, and the
  calculator returns 25.
\<close>

theorem computeIntensity64_counterexample:
  "normalized64 tieMix
   \<and> mixTotal64 tieMix = 1
   \<and> exactWeighted64 tieMix = 49 / 2 - 12 / 2 ^ 53
   \<and> Math_round (exactWeighted64 tieMix) = 24
   \<and> weighted64 tieMix = Finite (49 / 2)
   \<and> computeIntensity64 tieMix = Finite 25"
proof -
  have "mixTotal64 tieMix = 1" by (simp add: mixTotal64_def mixValues64_def tieMix_def)
  then show ?thesis
    using tieMix_normalized tieMix_result
    by (simp add: tieMix_exact tieMix_weighted Math_round_def)
qed

text \<open>
  Claim C3, amended. For every normalized mix (seven finite doubles that are not negative
  and sum to 1 within \<open>1e-9\<close>) the intensity calculator accumulates a finite total that is
  within \<open>1e-12\<close> of the exact weighted sum (wind 12, solar 50, hydro 24, gas 400, coal 900,
  biomass 230, imports 300) and returns that total rounded to the nearest integer, a tie
  going up: an integer that is not negative. It is the rounded exact weighted sum
  whenever that sum is at least \<open>1e-12\<close> away from every tie. For the fallback distribution
  the result is 259. Both copies of the function agree.
\<close>

theorem computeIntensity64_weighted:
  "(normalized64 m \<longrightarrow>
      (\<exists>acc. weighted64 m = Finite acc \<and> 0 \<le> acc
         \<and> \<bar>acc - exactWeighted64 m\<bar> \<le> 1 / 10 ^ 12
         \<and> computeIntensity64 m = Finite (of_int (Math_round acc))
         \<and> 0 \<le> Math_round acc))
   \<and> (normalized64 m \<and> 1 / 10 ^ 12 \<le> frac (exactWeighted64 m + 1 / 2)
        \<and> frac (exactWeighted64 m + 1 / 2) < 1 - 1 / 10 ^ 12 \<longrightarrow>
      computeIntensity64 m = Finite (of_int (Math_round (exactWeighted64 m))))
   \<and> exactWeighted64 m =
       valueOf (wind64 m) * 12 + valueOf (solar64 m) * 50 + valueOf (hydro64 m) * 24
         + valueOf (gas64 m) * 400 + valueOf (coal64 m) * 900 + valueOf (biomass64 m) * 230
         + valueOf (imports64 m) * 300
   \<and> computeIntensity64 m = Math_round64 (weighted64 m)
   \<and> computeIntensity64 fallbackMix64 = Finite 259
   \<and> eirgrid_computeIntensity64 m = computeIntensity64 m"
  using computeIntensity64_round [of m] computeIntensity64_exact [of m]
    exactWeighted64_sum [of m] computeIntensity64_total [of m] fallbackMix64_intensity
    eirgrid_computeIntensity64_eq [of m]
  by blast

theorem computeIntensity64_weighted_witness:
  "normalized64 sampleMix64
   \<and> 1 / 10 ^ 12 \<le> frac (exactWeighted64 sampleMix64 + 1 / 2)
   \<and> frac (exactWeighted64 sampleMix64 + 1 / 2) < 1 - 1 / 10 ^ 12
   \<and> computeIntensity64 sampleMix64 = Finite 331"
proof -
  have a: "normalized64 sampleMix64" by (rule sampleMix64_normalized)
  have "frac (exactWeighted64 sampleMix64 + 1 / 2) = 1 / 2"
    unfolding sampleMix64_exact by (simp add: frac_def)
  then have b: "1 / 10 ^ 12 \<le> frac (exactWeighted64 sampleMix64 + 1 / 2)"
    and c: "frac (exactWeighted64 sampleMix64 + 1 / 2) < 1 - 1 / 10 ^ 12"
    by simp_all
  from computeIntensity64_weighted [of sampleMix64] a b c
  have "computeIntensity64 sampleMix64 = Finite (of_int (Math_round (exactWeighted64 sampleMix64)))"
    by blast
  then have "computeIntensity64 sampleMix64 = Finite 331"
    unfolding sampleMix64_exact by (simp add: Math_round_def)
  with a b c show ?thesis by blast
qed

end
